(* ===== verification/Prelude.thy ===== *)
theory Prelude
  imports Main "HOL-Library.Word" "HOL-Library.Signed_Division"
begin

text \<open>
  Shared vocabulary of the development: the names of the machine integers, the library's exception
  types (\<^verbatim>\<open>src/src/ethercat/errors.hpp\<close>) and the composition of code that may throw, the generic
  lemmas on words and lists that the component theories use, and the contract of a step function
  that keeps an invariant.
\<close>

unbundle bit_operations_syntax

named_theorems em_simps \<open>evaluation of the throwing-computation combinators\<close>
named_theorems frame_simps \<open>fields an operation leaves unchanged\<close>

subsection \<open>Machine integers\<close>

text \<open>
  A C++ fixed-width integer is the word of its width. The signed types share the representation of
  the unsigned ones (two's complement) and are read with \<open>sint\<close>.
\<close>

type_synonym byte = "8 word"
type_synonym u8 = "8 word"
type_synonym u16 = "16 word"
type_synonym u32 = "32 word"
type_synonym u64 = "64 word"
type_synonym i8 = "8 word"
type_synonym i16 = "16 word"
type_synonym i32 = "32 word"
type_synonym i64 = "64 word"

text \<open>The decimal text of an unsigned value, as \<^verbatim>\<open>std::to_string\<close> prints it in diagnostics.\<close>

fun digit_char :: "nat \<Rightarrow> char" where
  "digit_char n = char_of (48 + n mod 10)"

function to_string_nat :: "nat \<Rightarrow> string" where
  "to_string_nat n = (if n < 10 then [digit_char n] else to_string_nat (n div 10) @ [digit_char n])"
  by pat_completeness auto
termination by (relation "measure id") auto

declare to_string_nat.simps [simp del]

lemma unat_plus_one:
  "Suc (unat w) < 2 ^ LENGTH('a) \<Longrightarrow> unat (w + 1 :: 'a::len word) = Suc (unat w)"
  by (simp add: unat_word_ariths)

lemma unat_minus_one_pos: "0 < w \<Longrightarrow> unat (w - 1 :: 'a::len word) = unat w - 1"
  by (metis unat_minus_one word_gt_0)

subsection \<open>Exceptions\<close>

text \<open>
  The three exception classes of \<^verbatim>\<open>errors.hpp\<close>. The first argument is an abridged diagnostic text
  (the code builds a longer one from the same cause); \<open>SdoError\<close> carries the CoE abort code.
\<close>

datatype ec_error =
    Error string
  | PdoMappingError string
  | SdoError string u32

text \<open>
  A non-RT operation that may throw reads and writes a state and ends either normally or with an
  exception; the state changes made before the throw stay.
\<close>

type_synonym ('s, 'a) em = "'s \<Rightarrow> (ec_error + 'a) \<times> 's"

definition em_return :: "'a \<Rightarrow> ('s, 'a) em" where
  "em_return x = (\<lambda>s. (Inr x, s))"

definition em_throw :: "ec_error \<Rightarrow> ('s, 'a) em" where
  "em_throw e = (\<lambda>s. (Inl e, s))"

definition em_bind :: "('s, 'a) em \<Rightarrow> ('a \<Rightarrow> ('s, 'b) em) \<Rightarrow> ('s, 'b) em" where
  "em_bind m f = (\<lambda>s. case m s of (Inl e, s') \<Rightarrow> (Inl e, s') | (Inr x, s') \<Rightarrow> f x s')"

definition em_seq :: "('s, 'a) em \<Rightarrow> ('s, 'b) em \<Rightarrow> ('s, 'b) em" where
  "em_seq m k = em_bind m (\<lambda>_. k)"

definition em_catch :: "('s, 'a) em \<Rightarrow> (ec_error \<Rightarrow> ('s, 'a) em) \<Rightarrow> ('s, 'a) em" where
  "em_catch m h = (\<lambda>s. case m s of (Inl e, s') \<Rightarrow> h e s' | (Inr x, s') \<Rightarrow> (Inr x, s'))"

definition em_when :: "bool \<Rightarrow> ('s, unit) em \<Rightarrow> ('s, unit) em" where
  "em_when b m = (if b then m else em_return ())"

text \<open>A range-for loop whose body may throw: the first exception leaves the loop.\<close>

fun em_for :: "'x list \<Rightarrow> ('x \<Rightarrow> ('s, unit) em) \<Rightarrow> ('s, unit) em" where
  "em_for [] f = em_return ()"
| "em_for (x # xs) f = em_seq (f x) (em_for xs f)"

definition em_modify :: "('s \<Rightarrow> 's) \<Rightarrow> ('s, unit) em" where
  "em_modify f = (\<lambda>s. (Inr (), f s))"

definition em_gets :: "('s \<Rightarrow> 'a) \<Rightarrow> ('s, 'a) em" where
  "em_gets f = (\<lambda>s. (Inr (f s), s))"

lemma em_return_apply [simp, em_simps]: "em_return x s = (Inr x, s)"
  by (simp add: em_return_def)

lemma em_throw_apply [simp, em_simps]: "em_throw e s = (Inl e, s)"
  by (simp add: em_throw_def)

lemma em_modify_apply [simp, em_simps]: "em_modify f s = (Inr (), f s)"
  by (simp add: em_modify_def)

lemma em_gets_apply [simp, em_simps]: "em_gets f s = (Inr (f s), s)"
  by (simp add: em_gets_def)

lemma em_bind_apply [em_simps]:
  "em_bind m f s = (case m s of (Inl e, s') \<Rightarrow> (Inl e, s') | (Inr x, s') \<Rightarrow> f x s')"
  by (simp add: em_bind_def)

lemma em_seq_apply [em_simps]:
  "em_seq m k s = (case m s of (Inl e, s') \<Rightarrow> (Inl e, s') | (Inr x, s') \<Rightarrow> k s')"
  by (simp add: em_seq_def em_bind_def)

lemma em_catch_apply [em_simps]:
  "em_catch m h s = (case m s of (Inl e, s') \<Rightarrow> h e s' | (Inr x, s') \<Rightarrow> (Inr x, s'))"
  by (simp add: em_catch_def)

lemma em_when_apply [em_simps]: "em_when b m s = (if b then m s else (Inr (), s))"
  by (simp add: em_when_def)

lemma em_seq_Inr_iff:
  "em_seq m k s = (Inr y, t) \<longleftrightarrow> (\<exists>x u. m s = (Inr x, u) \<and> k u = (Inr y, t))"
  by (auto simp: em_seq_apply split: prod.splits sum.splits)

lemma em_bind_Inr_iff:
  "em_bind m f s = (Inr y, t) \<longleftrightarrow> (\<exists>x u. m s = (Inr x, u) \<and> f x u = (Inr y, t))"
  by (auto simp: em_bind_apply split: prod.splits sum.splits)

lemma em_for_append:
  "em_for (xs @ ys) f = em_seq (em_for xs f) (em_for ys f)"
  by (induction xs) (auto simp: fun_eq_iff em_seq_apply split: prod.splits sum.splits)

lemma em_seq_return [simp]:
  "em_seq (em_return y) x = x"
  "em_seq z (em_return ()) = z"
  by (auto simp: fun_eq_iff em_seq_apply split: prod.splits sum.splits)

lemma em_for_concat:
  "(\<And>x. x \<in> set xs \<Longrightarrow> f x = em_for (g x) h) \<Longrightarrow> em_for xs f = em_for (concat (map g xs)) h"
  by (induction xs) (simp_all add: em_for_append)

lemma em_seq_assoc: "em_seq (em_seq a b) c = em_seq a (em_seq b c)"
  by (auto simp: fun_eq_iff em_seq_apply split: prod.splits sum.splits)

text \<open>A throwing computation that returns a value and no state: \<^typ>\<open>ec_error + 'a\<close>.\<close>

definition check :: "bool \<Rightarrow> ec_error \<Rightarrow> (ec_error + unit) \<Rightarrow> (ec_error + unit)" where
  "check bad e rest = (if bad then Inl e else rest)"

lemma check_Inr_iff [simp]: "check bad e rest = Inr u \<longleftrightarrow> \<not> bad \<and> rest = Inr u"
  by (simp add: check_def)

lemma check_True [simp]: "check True e rest = Inl e"
  and check_False [simp]: "check False e rest = rest"
  by (simp_all add: check_def)

subsection \<open>Step functions that keep an invariant\<close>

text \<open>
  The contract shared by every cyclic component: one cycle keeps the invariant, so every run keeps
  it. Each component interprets it on its own step function.
\<close>

locale cyclic_invariant =
  fixes step :: "'s \<Rightarrow> 'i \<Rightarrow> 's"
    and inv :: "'s \<Rightarrow> bool"
  assumes step_inv: "inv s \<Longrightarrow> inv (step s i)"
begin

lemma run_inv: "inv s \<Longrightarrow> inv (foldl step s is)"
  by (induction "is" arbitrary: s) (auto intro: step_inv)

lemma run_prefix_inv: "inv s \<Longrightarrow> inv (foldl step s (take n is))"
  by (rule run_inv)

end

text \<open>
  The contract of a bounded procedure: a measure that every cycle decreases until the procedure is
  done, and a procedure that stays done. Then it is done after as many cycles as the measure.
\<close>

locale cyclic_progress = cyclic_invariant step inv
  for step :: "'s \<Rightarrow> 'i \<Rightarrow> 's" and inv :: "'s \<Rightarrow> bool" +
  fixes ok :: "'i \<Rightarrow> bool"
    and done_p :: "'s \<Rightarrow> bool"
    and bound :: "'s \<Rightarrow> nat"
  assumes step_decr: "ok i \<Longrightarrow> inv s \<Longrightarrow> \<not> done_p s \<Longrightarrow> bound (step s i) < bound s"
    and step_done: "ok i \<Longrightarrow> inv s \<Longrightarrow> done_p s \<Longrightarrow> done_p (step s i)"
begin

lemma run_stays_done: "list_all ok is \<Longrightarrow> inv s \<Longrightarrow> done_p s \<Longrightarrow> done_p (foldl step s is)"
  by (induction "is" arbitrary: s) (auto intro: step_done step_inv)

lemma run_reaches_done:
  "list_all ok is \<Longrightarrow> inv s \<Longrightarrow> bound s \<le> length is \<Longrightarrow> done_p s \<or> is \<noteq> [] \<Longrightarrow> done_p (foldl step s is)"
proof (induction "is" arbitrary: s)
  case (Cons i "is")
  show ?case
  proof (cases "done_p s")
    case True
    with Cons.prems show ?thesis by (simp add: step_done step_inv run_stays_done)
  next
    case False
    with Cons.prems have d: "bound (step s i) < bound s" "bound (step s i) \<le> length is"
      using step_decr [of i s] by simp_all
    show ?thesis
    proof (cases "done_p (step s i)")
      case True
      with Cons.prems show ?thesis by (simp add: step_inv run_stays_done)
    next
      case False
      with Cons.prems d step_decr [of i "step s i"] have "is \<noteq> []"
        by (cases "is") (auto simp: step_inv)
      with Cons d show ?thesis by (simp add: step_inv)
    qed
  qed
qed simp

end

end
