(* ===== verification/PdoBuffer.thy ===== *)
theory PdoBuffer
  imports Prelude
begin

text \<open>
  Little-endian access to process-data images: \<^verbatim>\<open>src/src/ethercat/pdo_buffer.hpp\<close> (the span forms
  \<open>load_le\<close>/\<open>store_le\<close>), the cached-offset forms of \<^verbatim>\<open>master.hpp\<close> (\<open>load_at\<close>/\<open>store_at\<close>) and the
  typed field descriptors of \<^verbatim>\<open>field.hpp\<close>. An image is the byte list of the span. The access
  contract is the locale \<open>field_access\<close>; it is interpreted at the three widths the CiA402 fields
  use.
\<close>

subsection \<open>The span forms\<close>

definition load_le :: "byte list \<Rightarrow> 'a::len word" where
  "load_le field =
     fold (\<lambda>i raw. raw OR push_bit (8 * i) (ucast (field ! i))) [0..<LENGTH('a) div 8] 0"

definition store_le :: "byte list \<Rightarrow> 'a::len word \<Rightarrow> byte list" where
  "store_le field v =
     fold (\<lambda>i f. f[i := ucast (drop_bit (8 * i) v AND 0xFF)]) [0..<LENGTH('a) div 8] field"

subsection \<open>The cached-offset forms\<close>

text \<open>A resolved location carries the byte offset only; the width is that of the accessed type.\<close>

record FieldLocation =
  byte_offset :: nat

definition load_at :: "byte list \<Rightarrow> FieldLocation \<Rightarrow> 'a::len word" where
  "load_at img loc = load_le (take (LENGTH('a) div 8) (drop (byte_offset loc) img))"

definition store_at :: "byte list \<Rightarrow> FieldLocation \<Rightarrow> 'a::len word \<Rightarrow> byte list" where
  "store_at img loc v =
     take (byte_offset loc) img
     @ store_le (take (LENGTH('a) div 8) (drop (byte_offset loc) img)) v
     @ drop (byte_offset loc + LENGTH('a) div 8) img"

subsection \<open>Field descriptors\<close>

text \<open>\<open>Field<Index, Sub, T>\<close>: object index, subindex and the byte size of the wire type.\<close>

record Field =
  fd_index :: u16
  fd_sub :: u8
  fd_size :: nat

definition ControlWord_field :: Field where
  "ControlWord_field = \<lparr>fd_index = 0x6040, fd_sub = 0, fd_size = 2\<rparr>"

definition Statusword_field :: Field where
  "Statusword_field = \<lparr>fd_index = 0x6041, fd_sub = 0, fd_size = 2\<rparr>"

definition ModeOfOperation_field :: Field where
  "ModeOfOperation_field = \<lparr>fd_index = 0x6060, fd_sub = 0, fd_size = 1\<rparr>"

definition ModeDisplay_field :: Field where
  "ModeDisplay_field = \<lparr>fd_index = 0x6061, fd_sub = 0, fd_size = 1\<rparr>"

definition FaultCode_field :: Field where
  "FaultCode_field = \<lparr>fd_index = 0x603F, fd_sub = 0, fd_size = 2\<rparr>"

definition TargetPosition_field :: Field where
  "TargetPosition_field = \<lparr>fd_index = 0x607A, fd_sub = 0, fd_size = 4\<rparr>"

definition PositionActual_field :: Field where
  "PositionActual_field = \<lparr>fd_index = 0x6064, fd_sub = 0, fd_size = 4\<rparr>"

definition VelocityActual_field :: Field where
  "VelocityActual_field = \<lparr>fd_index = 0x606C, fd_sub = 0, fd_size = 4\<rparr>"

definition ProfileVelocity_field :: Field where
  "ProfileVelocity_field = \<lparr>fd_index = 0x6081, fd_sub = 0, fd_size = 4\<rparr>"

definition TargetVelocity_field :: Field where
  "TargetVelocity_field = \<lparr>fd_index = 0x60FF, fd_sub = 0, fd_size = 4\<rparr>"

lemmas field_defs =
  ControlWord_field_def Statusword_field_def ModeOfOperation_field_def ModeDisplay_field_def
  FaultCode_field_def TargetPosition_field_def PositionActual_field_def VelocityActual_field_def
  ProfileVelocity_field_def TargetVelocity_field_def

subsection \<open>Bit-level characterisation of the span forms\<close>

lemma bit_load_le_fold:
  "bit (fold (\<lambda>i raw. raw OR push_bit (8 * i) (ucast (f ! i))) [0..<n] (0 :: 'a::len word)) j
   \<longleftrightarrow> j < LENGTH('a) \<and> j < 8 * n \<and> bit (f ! (j div 8) :: byte) (j mod 8)"
proof (induction n)
  case 0
  then show ?case by simp
next
  case (Suc n)
  have byte: "bit (f ! n :: byte) (j - 8 * n) \<longleftrightarrow> j < 8 * Suc n \<and> bit (f ! n) (j - 8 * n)"
    using bit_imp_le_length [of "f ! n" "j - 8 * n"] by auto
  show ?case
  proof (cases "8 * n \<le> j \<and> j < 8 * Suc n")
    case True
    then have "j div 8 = n" and "j mod 8 = j - 8 * n" by (auto simp: div_nat_eqI modulo_nat_def)
    with True Suc.IH show ?thesis
      by (auto simp: bit_or_iff bit_push_bit_iff bit_ucast_iff)
  next
    case False
    with Suc.IH byte show ?thesis
      by (auto simp: bit_or_iff bit_push_bit_iff bit_ucast_iff)
  qed
qed

lemma bit_load_le:
  "8 dvd LENGTH('a) \<Longrightarrow>
   bit (load_le f :: 'a::len word) j \<longleftrightarrow> j < LENGTH('a) \<and> bit (f ! (j div 8)) (j mod 8)"
  by (auto simp: load_le_def bit_load_le_fold)

lemma length_store_fold [simp]:
  "length (fold (\<lambda>i f. f[i := g i]) xs f) = length f"
  by (induction xs arbitrary: f) auto

lemma length_store_le [simp]: "length (store_le f v) = length f"
  by (simp add: store_le_def)

lemma nth_store_fold:
  "i < length f \<Longrightarrow>
   fold (\<lambda>i f. f[i := g i]) [0..<n] f ! i = (if i < n then g i else f ! i)"
  by (induction n) (auto simp: nth_list_update less_Suc_eq)

lemma nth_store_le:
  "length f = LENGTH('a::len) div 8 \<Longrightarrow> i < length f \<Longrightarrow>
   store_le f (v :: 'a word) ! i = ucast (drop_bit (8 * i) v AND 0xFF)"
  by (simp add: store_le_def nth_store_fold)

lemma bit_low_byte:
  "bit (ucast (drop_bit k v AND 0xFF) :: byte) j \<longleftrightarrow> j < 8 \<and> bit (v :: 'a::len word) (k + j)"
proof -
  have "(0xFF :: 'a word) = mask 8" by (simp add: mask_eq_exp_minus_1)
  then have "bit (0xFF :: 'a word) j \<longleftrightarrow> j < LENGTH('a) \<and> j < 8"
    by (metis bit_mask_iff min_less_iff_conj possible_bit_word)
  then show ?thesis
    by (auto simp: bit_ucast_iff bit_and_iff bit_drop_bit_eq dest: bit_imp_le_length)
qed

lemma load_store_le:
  fixes v :: "'a::len word"
  assumes "8 dvd LENGTH('a)" and len: "length f = LENGTH('a) div 8"
  shows "load_le (store_le f v) = v"
proof (rule bit_word_eqI)
  fix j assume j: "j < LENGTH('a)"
  with assms have "j div 8 < length f" by (auto elim: dvdE)
  with len have "store_le f v ! (j div 8) = ucast (drop_bit (8 * (j div 8)) v AND 0xFF)"
    by (rule nth_store_le)
  with j assms(1) show "bit (load_le (store_le f v) :: 'a word) j \<longleftrightarrow> bit v j"
    by (simp add: bit_load_le bit_low_byte)
qed

lemma store_load_le:
  assumes "8 dvd LENGTH('a::len)" and len: "length f = LENGTH('a) div 8"
    and that: "length g = length f"
  shows "store_le g (load_le f :: 'a word) = f"
proof (rule nth_equalityI)
  show "length (store_le g (load_le f :: 'a word)) = length f" using that by simp
next
  fix i assume i: "i < length (store_le g (load_le f :: 'a word))"
  show "store_le g (load_le f :: 'a word) ! i = f ! i"
  proof (rule bit_word_eqI)
    fix j assume "j < LENGTH(8)"
    then have j: "j < 8" by simp
    from i that len have lt: "8 * i + j < LENGTH('a)" using j assms(1) by (auto elim!: dvdE)
    from i that len have "store_le g (load_le f :: 'a word) ! i
        = ucast (drop_bit (8 * i) (load_le f :: 'a word) AND 0xFF)"
      by (intro nth_store_le) auto
    with j lt assms(1) show "bit (store_le g (load_le f :: 'a word) ! i) j \<longleftrightarrow> bit (f ! i) j"
      by (simp add: bit_low_byte bit_load_le)
  qed
qed

subsection \<open>The access contract\<close>

definition in_image :: "FieldLocation \<Rightarrow> nat \<Rightarrow> byte list \<Rightarrow> bool" where
  "in_image loc w img \<longleftrightarrow> byte_offset loc + w \<le> length img"

definition disjoint_fields :: "FieldLocation \<Rightarrow> nat \<Rightarrow> FieldLocation \<Rightarrow> nat \<Rightarrow> bool" where
  "disjoint_fields l w l' w' \<longleftrightarrow>
     byte_offset l + w \<le> byte_offset l' \<or> byte_offset l' + w' \<le> byte_offset l"

text \<open>
  What the RT path relies on: a store at a resolved location is read back, keeps the size of the
  image and every byte outside the field, and a load depends on the bytes of its field only.
\<close>

locale field_access =
  fixes ld :: "byte list \<Rightarrow> FieldLocation \<Rightarrow> 'v"
    and st :: "byte list \<Rightarrow> FieldLocation \<Rightarrow> 'v \<Rightarrow> byte list"
    and width :: nat
  assumes ld_st: "in_image loc width img \<Longrightarrow> ld (st img loc v) loc = v"
    and st_length: "in_image loc width img \<Longrightarrow> length (st img loc v) = length img"
    and st_outside: "in_image loc width img \<Longrightarrow> i < length img \<Longrightarrow>
      i < byte_offset loc \<or> byte_offset loc + width \<le> i \<Longrightarrow> st img loc v ! i = img ! i"
    and ld_local: "in_image loc width img \<Longrightarrow> in_image loc width img' \<Longrightarrow>
      (\<And>i. i < width \<Longrightarrow> img ! (byte_offset loc + i) = img' ! (byte_offset loc + i)) \<Longrightarrow>
      ld img loc = ld img' loc"
begin

lemma st_in_image: "in_image loc width img \<Longrightarrow> in_image l w (st img loc v) = in_image l w img"
  by (simp add: in_image_def st_length)

lemma ld_st_st: "in_image loc width img \<Longrightarrow> ld (st (st img loc v) loc v') loc = v'"
  by (simp add: ld_st st_in_image)

end

text \<open>Two fields of one image: a store to one leaves the other as it was.\<close>

locale field_pair = a: field_access lda sta wa + b: field_access ldb stb wb
  for lda :: "byte list \<Rightarrow> FieldLocation \<Rightarrow> 'v" and sta wa
    and ldb :: "byte list \<Rightarrow> FieldLocation \<Rightarrow> 'w" and stb wb
begin

lemma ld_other:
  assumes "in_image l wa img" "in_image l' wb img" "disjoint_fields l wa l' wb"
  shows "lda (stb img l' v) l = lda img l"
proof (rule a.ld_local)
  show "in_image l wa (stb img l' v)" using assms by (simp add: b.st_in_image)
  show "in_image l wa img" by (rule assms)
  show "stb img l' v ! (byte_offset l + i) = img ! (byte_offset l + i)" if "i < wa" for i
    using assms that by (intro b.st_outside) (auto simp: in_image_def disjoint_fields_def)
qed

end

lemma nth_store_at:
  fixes v :: "'a::len word"
  assumes "in_image loc (LENGTH('a) div 8) img" "i < length img"
  shows "store_at img loc v ! i =
    (if byte_offset loc \<le> i \<and> i < byte_offset loc + LENGTH('a) div 8
     then store_le (take (LENGTH('a) div 8) (drop (byte_offset loc) img)) v ! (i - byte_offset loc)
     else img ! i)"
  using assms by (auto simp: store_at_def in_image_def nth_append)

lemma length_store_at:
  "in_image loc (LENGTH('a) div 8) img \<Longrightarrow> length (store_at img loc (v :: 'a::len word)) = length img"
  by (simp add: store_at_def in_image_def)

lemma take_drop_store_at:
  "in_image loc (LENGTH('a) div 8) img \<Longrightarrow>
   take (LENGTH('a) div 8) (drop (byte_offset loc) (store_at img loc (v :: 'a::len word))) =
   store_le (take (LENGTH('a) div 8) (drop (byte_offset loc) img)) v"
  by (simp add: store_at_def in_image_def)

lemma load_store_at:
  "8 dvd LENGTH('a) \<Longrightarrow> in_image loc (LENGTH('a) div 8) img \<Longrightarrow>
   load_at (store_at img loc v) loc = (v :: 'a::len word)"
  by (simp add: load_at_def take_drop_store_at load_store_le in_image_def)

lemma load_at_cong:
  assumes "in_image loc (LENGTH('a) div 8) img" "in_image loc (LENGTH('a) div 8) img'"
    and "\<And>i. i < LENGTH('a) div 8 \<Longrightarrow> img ! (byte_offset loc + i) = img' ! (byte_offset loc + i)"
  shows "load_at img loc = (load_at img' loc :: 'a::len word)"
proof -
  have "take (LENGTH('a) div 8) (drop (byte_offset loc) img) =
        take (LENGTH('a) div 8) (drop (byte_offset loc) img')"
    using assms by (intro nth_equalityI) (auto simp: in_image_def)
  then show ?thesis by (simp add: load_at_def)
qed

lemma field_access_word:
  assumes "8 dvd LENGTH('a)" "w = LENGTH('a) div 8"
  shows "field_access load_at (store_at :: _ \<Rightarrow> _ \<Rightarrow> 'a::len word \<Rightarrow> _) w"
  using assms
  by unfold_locales (auto simp: load_store_at length_store_at nth_store_at intro!: load_at_cong)

interpretation f8: field_access load_at "store_at :: _ \<Rightarrow> _ \<Rightarrow> 8 word \<Rightarrow> _" 1
  by (rule field_access_word) simp_all

interpretation f16: field_access load_at "store_at :: _ \<Rightarrow> _ \<Rightarrow> 16 word \<Rightarrow> _" 2
  by (rule field_access_word) simp_all

interpretation f32: field_access load_at "store_at :: _ \<Rightarrow> _ \<Rightarrow> 32 word \<Rightarrow> _" 4
  by (rule field_access_word) simp_all

interpretation p8_16: field_pair load_at "store_at :: _ \<Rightarrow> _ \<Rightarrow> 8 word \<Rightarrow> _" 1
    load_at "store_at :: _ \<Rightarrow> _ \<Rightarrow> 16 word \<Rightarrow> _" 2 ..

interpretation p32_16: field_pair load_at "store_at :: _ \<Rightarrow> _ \<Rightarrow> 32 word \<Rightarrow> _" 4
    load_at "store_at :: _ \<Rightarrow> _ \<Rightarrow> 16 word \<Rightarrow> _" 2 ..

interpretation p32_32: field_pair load_at "store_at :: _ \<Rightarrow> _ \<Rightarrow> 32 word \<Rightarrow> _" 4
    load_at "store_at :: _ \<Rightarrow> _ \<Rightarrow> 32 word \<Rightarrow> _" 4 ..

interpretation p32_8: field_pair load_at "store_at :: _ \<Rightarrow> _ \<Rightarrow> 32 word \<Rightarrow> _" 4
    load_at "store_at :: _ \<Rightarrow> _ \<Rightarrow> 8 word \<Rightarrow> _" 1 ..

subsection \<open>Round trip\<close>

text \<open>
  C40. Typed access to an image. For a field that fits in the image, what is stored is what is loaded,
  storing back what was loaded changes nothing, and a store leaves the image's size and any disjoint
  field, of whatever width, as it was.
\<close>

theorem field_round_trip:
  fixes v :: "'a::len word" and loc' :: FieldLocation
  assumes "8 dvd LENGTH('a)" "in_image loc (LENGTH('a) div 8) img"
    "in_image loc' (LENGTH('b) div 8) img" "disjoint_fields loc' (LENGTH('b) div 8) loc (LENGTH('a) div 8)"
  shows "load_at (store_at img loc v) loc = v
       \<and> store_at img loc (load_at img loc :: 'a word) = img
       \<and> length (store_at img loc v) = length img
       \<and> (load_at (store_at img loc v) loc' :: 'b::len word) = load_at img loc'"
proof (intro conjI)
  show "load_at (store_at img loc v) loc = v" using assms(1,2) by (rule load_store_at)
  show "length (store_at img loc v) = length img" using assms(2) by (rule length_store_at)
  let ?w = "LENGTH('a) div 8" and ?f = "take (LENGTH('a) div 8) (drop (byte_offset loc) img)"
  have "store_le ?f (load_le ?f :: 'a word) = ?f"
    using assms(1,2) by (intro store_load_le) (auto simp: in_image_def)
  then show "store_at img loc (load_at img loc :: 'a word) = img"
    using assms(2) by (simp add: store_at_def load_at_def in_image_def)
      (metis append_take_drop_id add.commute drop_drop)
  show "(load_at (store_at img loc v) loc' :: 'b word) = load_at img loc'"
    using assms by (intro load_at_cong)
      (auto simp: nth_store_at length_store_at in_image_def disjoint_fields_def)
qed

theorem field_round_trip_witness:
  "load_at (store_at [0, 0, 1, 2, 3, 4] \<lparr>byte_offset = 0\<rparr> (0x000F :: u16)) \<lparr>byte_offset = 0\<rparr> = (0x000F :: u16)
   \<and> store_at [0, 0, 1, 2, 3, 4] \<lparr>byte_offset = 0\<rparr> (0x000F :: u16) = [0x0F, 0, 1, 2, 3, 4]
   \<and> (load_at (store_at [0, 0, 1, 2, 3, 4] \<lparr>byte_offset = 0\<rparr> (0x000F :: u16)) \<lparr>byte_offset = 2\<rparr> :: i32) = 0x04030201"
proof -
  let ?img = "[0, 0, 1, 2, 3, 4] :: byte list"
  have "store_at ?img \<lparr>byte_offset = 0\<rparr> (0x000F :: u16) = [0x0F, 0, 1, 2, 3, 4]"
    "(load_at ?img \<lparr>byte_offset = 2\<rparr> :: i32) = 0x04030201"
    by code_simp+
  then show ?thesis
    using field_round_trip [of "\<lparr>byte_offset = 0\<rparr>" ?img "\<lparr>byte_offset = 2\<rparr>" "0x000F :: u16", where 'b = 32]
    by (simp add: in_image_def disjoint_fields_def)
qed

end
