(* ===== verification/Backend.thy ===== *)
theory Backend
  imports Prelude
begin

text \<open>
  The bus backend, \<^verbatim>\<open>src/src/ethercat/soem_backend.hpp\<close> and \<^verbatim>\<open>soem_backend.cpp\<close>: the only client of
  the SOEM library. SOEM is not part of the repository. Its functions and constants are the fields
  of the record \<open>soem\<close>, an argument of every definition that calls them; the fields of its context
  that the backend reads or writes are the record \<open>ec_context\<close>, whose last field is SOEM's own
  state. Log calls have no effect on the state and are left out; error texts are abridged.
\<close>

subsection \<open>The interface of SOEM\<close>

record ec_slave =
  al_state :: u16
  ALstatuscode :: u16
  eep_man :: u32
  eep_id :: u32
  eep_rev :: u32
  ec_name :: string
  mbx_l :: u16
  mbxhandlerstate :: int
  Obytes :: nat
  Ibytes :: nat
  out_ptr :: "byte list option"
  in_ptr :: "byte list option"

text \<open>
  The process image of a slave is the bytes behind SOEM's pointers \<^verbatim>\<open>outputs\<close> and \<^verbatim>\<open>inputs\<close>
  (\<open>None\<close> for a null pointer).
\<close>

record 'w ec_context =
  slavelist :: "nat \<Rightarrow> ec_slave"
  slavecount :: int
  manualstatechange :: bool
  DCtime :: int
  outputsWKC :: int
  inputsWKC :: int
  soem_state :: 'w

record ec_errort =
  Etype :: int
  AbortCode :: u32

type_synonym ('w, 'a) ecx = "'w ec_context \<Rightarrow> 'a \<times> 'w ec_context"

record 'w soem =
  ecx_init :: "string \<Rightarrow> ('w, int) ecx"
  ecx_config_init :: "('w, int) ecx"
  ecx_close :: "'w ec_context \<Rightarrow> 'w ec_context"
  ecx_readstate :: "'w ec_context \<Rightarrow> 'w ec_context"
  ecx_writestate :: "nat \<Rightarrow> 'w ec_context \<Rightarrow> 'w ec_context"
  ecx_statecheck :: "nat \<Rightarrow> u16 \<Rightarrow> int \<Rightarrow> ('w, u16) ecx"
  ecx_mbxempty :: "nat \<Rightarrow> int \<Rightarrow> ('w, int) ecx"
  ecx_SDOread :: "nat \<Rightarrow> u16 \<Rightarrow> u8 \<Rightarrow> int \<Rightarrow> int \<Rightarrow> ('w, int \<times> int \<times> byte list) ecx"
  ecx_SDOwrite :: "nat \<Rightarrow> u16 \<Rightarrow> u8 \<Rightarrow> byte list \<Rightarrow> int \<Rightarrow> ('w, int) ecx"
  ecx_iserror :: "'w ec_context \<Rightarrow> bool"
  ecx_poperror :: "('w, ec_errort option) ecx"
  error_list_size :: nat
  ecx_config_map_group :: "('w, int) ecx"
  ecx_configdc :: "('w, bool) ecx"
  ecx_dcsync0 :: "nat \<Rightarrow> bool \<Rightarrow> u32 \<Rightarrow> i32 \<Rightarrow> 'w ec_context \<Rightarrow> 'w ec_context"
  ecx_send_processdata :: "'w ec_context \<Rightarrow> 'w ec_context"
  ecx_receive_processdata :: "int \<Rightarrow> ('w, int) ecx"
  osal_usleep :: "nat \<Rightarrow> 'w ec_context \<Rightarrow> 'w ec_context"
  EC_STATE_NONE :: u16
  EC_STATE_INIT :: u16
  EC_STATE_PRE_OP :: u16
  EC_STATE_SAFE_OP :: u16
  EC_STATE_OPERATIONAL :: u16
  EC_STATE_ACK :: u16
  EC_STATE_ERROR :: u16
  EC_TIMEOUTSTATE :: int
  EC_TIMEOUTRXM :: int
  EC_TIMEOUTRET :: int
  EC_ERR_TYPE_SDO_ERROR :: int
  ECT_MBXH_LOST :: int
  ECT_MBXH_CYCLIC :: int

subsection \<open>Types of the backend\<close>

datatype EcatState = EcatNone | EcatInit | EcatPreOp | EcatSafeOp | EcatOp

fun to_string_ecat :: "EcatState \<Rightarrow> string" where
  "to_string_ecat EcatNone = ''None''"
| "to_string_ecat EcatInit = ''Init''"
| "to_string_ecat EcatPreOp = ''PreOp''"
| "to_string_ecat EcatSafeOp = ''SafeOp''"
| "to_string_ecat EcatOp = ''Op''"

fun to_soem_state :: "'w soem \<Rightarrow> EcatState \<Rightarrow> u16" where
  "to_soem_state S EcatInit = EC_STATE_INIT S"
| "to_soem_state S EcatPreOp = EC_STATE_PRE_OP S"
| "to_soem_state S EcatSafeOp = EC_STATE_SAFE_OP S"
| "to_soem_state S EcatOp = EC_STATE_OPERATIONAL S"
| "to_soem_state S EcatNone = EC_STATE_NONE S"

definition from_soem_state :: "'w soem \<Rightarrow> u16 \<Rightarrow> EcatState" where
  "from_soem_state S soem =
     (let s = soem AND 0x0F
      in if s = EC_STATE_INIT S then EcatInit
         else if s = EC_STATE_PRE_OP S then EcatPreOp
         else if s = EC_STATE_SAFE_OP S then EcatSafeOp
         else if s = EC_STATE_OPERATIONAL S then EcatOp
         else EcatNone)"

record SlaveInfo =
  position :: u16
  vendor_id :: u32
  product_code :: u32
  revision :: u32
  info_name :: string
  input_bytes :: nat
  output_bytes :: nat

text \<open>A span into the process image: the slave whose image it views and its length.\<close>

record SlaveIo =
  io_slave :: nat
  outputs_len :: nat
  inputs_len :: nat

record SdoOutcome =
  aborted :: bool
  abort_code :: u32
  other_errors :: "int list"

record 'w Impl =
  ctx :: "'w ec_context"
  expected_wkc_impl :: int
  slave_count :: int
  dc_cycle_ns :: u32
  is_open :: bool

definition kIomapSize :: int where
  "kIomapSize = 8192"

text \<open>Calls into SOEM from a backend method.\<close>

definition ecx_call :: "('w, 'a) ecx \<Rightarrow> ('w Impl, 'a) em" where
  "ecx_call f = (\<lambda>b. case f (ctx b) of (x, c) \<Rightarrow> (Inr x, b\<lparr>ctx := c\<rparr>))"

definition ecx_do :: "('w ec_context \<Rightarrow> 'w ec_context) \<Rightarrow> ('w Impl, unit) em" where
  "ecx_do f = (\<lambda>b. (Inr (), b\<lparr>ctx := f (ctx b)\<rparr>))"

definition set_slave :: "nat \<Rightarrow> (ec_slave \<Rightarrow> ec_slave) \<Rightarrow> 'w ec_context \<Rightarrow> 'w ec_context" where
  "set_slave i f c = c\<lparr>slavelist := (slavelist c)(i := f (slavelist c i))\<rparr>"

lemma ecx_call_apply [em_simps]:
  "ecx_call f b = (Inr (fst (f (ctx b))), b\<lparr>ctx := snd (f (ctx b))\<rparr>)"
  by (simp add: ecx_call_def split_beta)

lemma ecx_do_apply [simp, em_simps]: "ecx_do f b = (Inr (), b\<lparr>ctx := f (ctx b)\<rparr>)"
  by (simp add: ecx_do_def)

subsection \<open>SDO transfers\<close>

text \<open>
  SOEM keeps a bounded list of errors; the loop that drains it pops at most its size. The fuel of
  the loop is that size.
\<close>

fun drain_errors :: "'w soem \<Rightarrow> nat \<Rightarrow> SdoOutcome \<Rightarrow> ('w, SdoOutcome) ecx" where
  "drain_errors S 0 out c = (out, c)"
| "drain_errors S (Suc n) out c =
     (case ecx_poperror S c of
        (None, c1) \<Rightarrow> (out, c1)
      | (Some err, c1) \<Rightarrow>
          drain_errors S n
            (if Etype err = EC_ERR_TYPE_SDO_ERROR S
             then out\<lparr>aborted := True, abort_code := AbortCode err\<rparr>
             else out\<lparr>other_errors := other_errors out @ [Etype err]\<rparr>) c1)"

definition drain_sdo_errors :: "'w soem \<Rightarrow> ('w, SdoOutcome) ecx" where
  "drain_sdo_errors S =
     drain_errors S (Suc (error_list_size S)) \<lparr>aborted = False, abort_code = 0, other_errors = []\<rparr>"

text \<open>The failure text tells a refused transfer from a mailbox that did not answer.\<close>

definition describe_sdo_failure :: "string \<Rightarrow> SdoOutcome \<Rightarrow> string" where
  "describe_sdo_failure op out =
     (if aborted out then op @ '' failed: the drive answered with a CoE abort''
      else op @ '' failed: no reply'')"

definition in_range_slave :: "'w Impl \<Rightarrow> u16 \<Rightarrow> bool" where
  "in_range_slave b slave \<longleftrightarrow> 1 \<le> uint slave \<and> uint slave \<le> slave_count b"

definition sdo_fail :: "'w soem \<Rightarrow> string \<Rightarrow> ('w Impl, 'a) em" where
  "sdo_fail S op =
     em_bind (ecx_call (drain_sdo_errors S)) (\<lambda>out.
       em_throw (SdoError (describe_sdo_failure op out) (if aborted out then abort_code out else 0)))"

definition SoemBackend_sdo_write ::
    "'w soem \<Rightarrow> u16 \<Rightarrow> u16 \<Rightarrow> u8 \<Rightarrow> byte list \<Rightarrow> ('w Impl, unit) em" where
  "SoemBackend_sdo_write S slave index sub data =
     em_bind (em_gets (\<lambda>b. in_range_slave b slave)) (\<lambda>ok.
     if \<not> ok then em_throw (Error ''sdo_write: slave out of range'')
     else em_bind (ecx_call (ecx_SDOwrite S (unat slave) index sub data (EC_TIMEOUTRXM S))) (\<lambda>wkc.
          em_bind (em_gets (\<lambda>b. ecx_iserror S (ctx b))) (\<lambda>err.
          if wkc \<le> 0 \<or> err then sdo_fail S ''SDO write'' else em_return ())))"

text \<open>
  A read returns the size SOEM reports and the bytes it wrote into the caller's buffer of
  \<open>out_size\<close> bytes.
\<close>

definition SoemBackend_sdo_read ::
    "'w soem \<Rightarrow> u16 \<Rightarrow> u16 \<Rightarrow> u8 \<Rightarrow> nat \<Rightarrow> ('w Impl, nat \<times> byte list) em" where
  "SoemBackend_sdo_read S slave index sub out_size =
     em_bind (em_gets (\<lambda>b. in_range_slave b slave)) (\<lambda>ok.
     if \<not> ok then em_throw (Error ''sdo_read: slave out of range'')
     else em_bind (ecx_call (ecx_SDOread S (unat slave) index sub (int out_size) (EC_TIMEOUTRXM S)))
            (\<lambda>(wkc, size, bytes).
          em_bind (em_gets (\<lambda>b. ecx_iserror S (ctx b))) (\<lambda>err.
          if wkc \<le> 0 \<or> err then sdo_fail S ''SDO read''
          else em_return (if size < 0 then 0 else nat size, bytes))))"

subsection \<open>Opening the bus\<close>

definition kMbxEmptyTimeoutUs :: int where "kMbxEmptyTimeoutUs = 10000000"
definition kWarmupTries :: nat where "kWarmupTries = 300"
definition kWarmupTimeoutUs :: int where "kWarmupTimeoutUs = 50000"
definition kWarmupGapUs :: nat where "kWarmupGapUs = 2000"

text \<open>The warm-up read is retried until the mailbox answers, at most the given number of times.\<close>

fun warmup_read :: "'w soem \<Rightarrow> nat \<Rightarrow> nat \<Rightarrow> int \<Rightarrow> ('w, int) ecx" where
  "warmup_read S i 0 warm_wkc c = (warm_wkc, c)"
| "warmup_read S i (Suc n) warm_wkc c =
     (case ecx_SDOread S i 0x1018 0x01 4 kWarmupTimeoutUs c of
        ((wkc, _, _), c1) \<Rightarrow>
          if wkc > 0 then (wkc, c1) else warmup_read S i n wkc (osal_usleep S kWarmupGapUs c1))"

definition close_and_throw :: "'w soem \<Rightarrow> string \<Rightarrow> ('w Impl, 'a) em" where
  "close_and_throw S msg = em_seq (ecx_do (\<lambda>c. ecx_close S (ecx_readstate S c))) (em_throw (Error msg))"

text \<open>The mailbox readiness gate of one slave: send side, then handler side.\<close>

definition open_warmup :: "'w soem \<Rightarrow> nat \<Rightarrow> ('w Impl, unit) em" where
  "open_warmup S i =
     em_bind (em_gets (\<lambda>b. mbx_l (slavelist (ctx b) i))) (\<lambda>mbx.
     if mbx = 0 then em_return ()
     else
       em_bind (ecx_call (ecx_mbxempty S i kMbxEmptyTimeoutUs)) (\<lambda>empty.
       if empty \<le> 0 then close_and_throw S ''CoE mailbox-out (SM0) not writable''
       else
         em_bind (ecx_call (warmup_read S i kWarmupTries 0)) (\<lambda>warm_wkc.
         em_bind (ecx_call (drain_sdo_errors S)) (\<lambda>_.
         if warm_wkc \<le> 0 then close_and_throw S ''CoE handler did not answer a warm-up SDO read''
         else em_return ()))))"

definition open_to_preop :: "'w soem \<Rightarrow> ('w, u16) ecx" where
  "open_to_preop S c =
     (let c1 = ecx_readstate S (c\<lparr>manualstatechange := True\<rparr>);
          c2 = ecx_writestate S 0 (set_slave 0 (\<lambda>s. s\<lparr>al_state := EC_STATE_PRE_OP S\<rparr>) c1)
      in ecx_statecheck S 0 (EC_STATE_PRE_OP S) (3 * EC_TIMEOUTSTATE S) c2)"

definition SoemBackend_open :: "'w soem \<Rightarrow> string \<Rightarrow> ('w Impl, nat) em" where
  "SoemBackend_open S ifname =
     em_bind (em_gets is_open) (\<lambda>opened.
     if opened then em_throw (Error ''SoemBackend::open: bus already open'')
     else
     em_bind (ecx_call (ecx_init S ifname)) (\<lambda>r.
     if r \<le> 0 then em_throw (Error ''failed to open EtherCAT interface'')
     else
     em_bind (ecx_call (ecx_config_init S)) (\<lambda>count.
     if count \<le> 0
     then em_seq (ecx_do (ecx_close S)) (em_throw (Error ''no EtherCAT slaves found''))
     else
     em_seq (em_modify (\<lambda>b. b\<lparr>slave_count := count\<rparr>))
     (em_bind (ecx_call (open_to_preop S)) (\<lambda>reached.
     if reached AND 0x0F \<noteq> EC_STATE_PRE_OP S
     then close_and_throw S ''EtherCAT slaves did not reach PRE-OP''
     else
     em_seq (ecx_do (ecx_readstate S))
     (em_seq (em_for [1..<Suc (nat count)] (open_warmup S))
     (em_seq (em_modify (\<lambda>b. b\<lparr>is_open := True\<rparr>))
     (em_return (nat count)))))))))"

subsection \<open>State, image and clock operations\<close>

definition SoemBackend_new :: "'w ec_context \<Rightarrow> 'w Impl" where
  "SoemBackend_new c =
     \<lparr>ctx = c, expected_wkc_impl = 0, slave_count = 0, dc_cycle_ns = 0, is_open = False\<rparr>"

definition SoemBackend_destroy :: "'w soem \<Rightarrow> 'w Impl \<Rightarrow> 'w Impl" where
  "SoemBackend_destroy S b = (if is_open b then b\<lparr>ctx := ecx_close S (ctx b)\<rparr> else b)"

definition SoemBackend_slave_info :: "u16 \<Rightarrow> ('w Impl, SlaveInfo) em" where
  "SoemBackend_slave_info slave =
     em_bind (em_gets (\<lambda>b. in_range_slave b slave)) (\<lambda>ok.
     if \<not> ok then em_throw (Error ''slave_info: slave out of range'')
     else em_gets (\<lambda>b. let s = slavelist (ctx b) (unat slave)
            in \<lparr>position = slave, vendor_id = eep_man s, product_code = eep_id s,
                revision = eep_rev s, info_name = ec_name s,
                input_bytes = Ibytes s, output_bytes = Obytes s\<rparr>))"

definition SoemBackend_map_process_data :: "'w soem \<Rightarrow> ('w Impl, unit) em" where
  "SoemBackend_map_process_data S =
     em_bind (ecx_call (ecx_config_map_group S)) (\<lambda>used.
     if used \<le> 0 \<or> used > kIomapSize
     then em_throw (PdoMappingError ''ec_config_map produced an invalid IOmap size'')
     else em_modify (\<lambda>b. b\<lparr>expected_wkc_impl := outputsWKC (ctx b) * 2 + inputsWKC (ctx b)\<rparr>))"

text \<open>The state request with a check; its precondition, asserted in debug builds, is a target below OP.\<close>

definition SoemBackend_request_state :: "'w soem \<Rightarrow> u16 \<Rightarrow> EcatState \<Rightarrow> ('w Impl, unit) em" where
  "SoemBackend_request_state S slave target =
     (let want = to_soem_state S target in
      em_seq (ecx_do (\<lambda>c. ecx_writestate S (unat slave)
                            (set_slave (unat slave) (\<lambda>s. s\<lparr>al_state := want\<rparr>) c)))
     (em_bind (ecx_call (ecx_statecheck S (unat slave) want (EC_TIMEOUTSTATE S))) (\<lambda>reached.
      if reached \<noteq> want
      then em_seq (ecx_do (ecx_readstate S)) (em_throw (Error ''slave did not reach state''))
      else em_return ())))"

definition SoemBackend_set_state :: "'w soem \<Rightarrow> u16 \<Rightarrow> EcatState \<Rightarrow> 'w Impl \<Rightarrow> 'w Impl" where
  "SoemBackend_set_state S slave target b =
     b\<lparr>ctx := ecx_writestate S (unat slave)
                (set_slave (unat slave) (\<lambda>s. s\<lparr>al_state := to_soem_state S target\<rparr>) (ctx b))\<rparr>"

text \<open>The recovery nudge of one slave: acknowledge SAFE-OP with an error, request OP again from SAFE-OP.\<close>

definition reack_slave :: "'w soem \<Rightarrow> nat \<Rightarrow> 'w ec_context \<Rightarrow> 'w ec_context" where
  "reack_slave S i c =
     (let s = slavelist c i in
      if al_state s = EC_STATE_SAFE_OP S + EC_STATE_ERROR S
      then ecx_writestate S i (set_slave i (\<lambda>s. s\<lparr>al_state := EC_STATE_SAFE_OP S + EC_STATE_ACK S\<rparr>) c)
      else if al_state s = EC_STATE_SAFE_OP S
      then ecx_writestate S i
             (set_slave i (\<lambda>s. s\<lparr>al_state := EC_STATE_OPERATIONAL S,
                 mbxhandlerstate := (if mbxhandlerstate s = ECT_MBXH_LOST S then ECT_MBXH_CYCLIC S
                                     else mbxhandlerstate s)\<rparr>) c)
      else c)"

definition SoemBackend_reack_op :: "'w soem \<Rightarrow> u16 \<Rightarrow> 'w Impl \<Rightarrow> 'w Impl" where
  "SoemBackend_reack_op S slave b =
     (let c = ecx_readstate S (ctx b);
          lo = (if slave = 0 then 1 else unat slave);
          hi = (if slave = 0 then nat (slave_count b) else unat slave)
      in b\<lparr>ctx := fold (reack_slave S) [lo..<Suc hi] c\<rparr>)"

definition SoemBackend_refresh_slave_state :: "'w soem \<Rightarrow> u16 \<Rightarrow> 'w Impl \<Rightarrow> EcatState \<times> 'w Impl" where
  "SoemBackend_refresh_slave_state S slave b =
     (if \<not> is_open b \<or> \<not> in_range_slave b slave then (EcatNone, b)
      else let b1 = b\<lparr>ctx := ecx_readstate S (ctx b)\<rparr>
           in (from_soem_state S (al_state (slavelist (ctx b1) (unat slave))), b1))"

definition SoemBackend_slave_state :: "'w soem \<Rightarrow> u16 \<Rightarrow> 'w Impl \<Rightarrow> EcatState" where
  "SoemBackend_slave_state S slave b =
     (if uint slave > slave_count b then EcatNone
      else from_soem_state S (al_state (slavelist (ctx b) (unat slave))))"

definition SoemBackend_al_status_code :: "u16 \<Rightarrow> 'w Impl \<Rightarrow> u16" where
  "SoemBackend_al_status_code slave b =
     (if \<not> in_range_slave b slave then 0 else ALstatuscode (slavelist (ctx b) (unat slave)))"

definition SoemBackend_slave_io :: "u16 \<Rightarrow> 'w Impl \<Rightarrow> SlaveIo" where
  "SoemBackend_slave_io slave b =
     (if \<not> in_range_slave b slave then \<lparr>io_slave = 0, outputs_len = 0, inputs_len = 0\<rparr>
      else let s = slavelist (ctx b) (unat slave)
           in \<lparr>io_slave = unat slave,
               outputs_len = (if out_ptr s \<noteq> None then Obytes s else 0),
               inputs_len = (if in_ptr s \<noteq> None then Ibytes s else 0)\<rparr>)"

definition SoemBackend_configure_dc_configdc :: "'w soem \<Rightarrow> ('w Impl, unit) em" where
  "SoemBackend_configure_dc_configdc S =
     em_bind (ecx_call (ecx_configdc S)) (\<lambda>dc_found.
     if \<not> dc_found then em_throw (Error ''ecx_configdc() found NO DC-capable slave'') else em_return ())"

definition SoemBackend_arm_dc_sync :: "'w soem \<Rightarrow> u32 \<Rightarrow> i32 \<Rightarrow> 'w Impl \<Rightarrow> 'w Impl" where
  "SoemBackend_arm_dc_sync S cycle_ns sync0_shift_ns b =
     b\<lparr>dc_cycle_ns := cycle_ns,
       ctx := fold (\<lambda>i. ecx_dcsync0 S i True cycle_ns sync0_shift_ns)
                [1..<Suc (nat (slavecount (ctx b)))] (ctx b)\<rparr>"

definition SoemBackend_exchange :: "'w soem \<Rightarrow> 'w Impl \<Rightarrow> int \<times> 'w Impl" where
  "SoemBackend_exchange S b =
     (case ecx_receive_processdata S (EC_TIMEOUTRET S) (ecx_send_processdata S (ctx b)) of
        (wkc, c) \<Rightarrow> (wkc, b\<lparr>ctx := c\<rparr>))"

definition SoemBackend_dc_time :: "'w Impl \<Rightarrow> int" where
  "SoemBackend_dc_time b = DCtime (ctx b)"

definition SoemBackend_expected_wkc :: "'w Impl \<Rightarrow> int" where
  "SoemBackend_expected_wkc b = expected_wkc_impl b"

text \<open>Closing: SYNC0 off on every slave if it was armed, the bus walked down to INIT, the socket closed.\<close>

definition SoemBackend_close :: "'w soem \<Rightarrow> 'w Impl \<Rightarrow> 'w Impl" where
  "SoemBackend_close S b =
     (if \<not> is_open b then b
      else
        let c1 = (if dc_cycle_ns b \<noteq> 0
                  then fold (\<lambda>i. ecx_dcsync0 S i False 0 0) [1..<Suc (nat (slavecount (ctx b)))] (ctx b)
                  else ctx b);
            c2 = ecx_writestate S 0 (set_slave 0 (\<lambda>s. s\<lparr>al_state := EC_STATE_INIT S\<rparr>) c1);
            c3 = snd (ecx_statecheck S 0 (EC_STATE_INIT S) (EC_TIMEOUTSTATE S) c2)
        in b\<lparr>ctx := ecx_close S c3, dc_cycle_ns := 0, is_open := False\<rparr>)"

text \<open>Reading and writing a slave's image through its span.\<close>

definition io_outputs :: "SlaveIo \<Rightarrow> 'w Impl \<Rightarrow> byte list" where
  "io_outputs io b =
     (case out_ptr (slavelist (ctx b) (io_slave io)) of
        None \<Rightarrow> [] | Some img \<Rightarrow> take (outputs_len io) img)"

definition io_inputs :: "SlaveIo \<Rightarrow> 'w Impl \<Rightarrow> byte list" where
  "io_inputs io b =
     (case in_ptr (slavelist (ctx b) (io_slave io)) of
        None \<Rightarrow> [] | Some img \<Rightarrow> take (inputs_len io) img)"

definition io_write_outputs :: "SlaveIo \<Rightarrow> byte list \<Rightarrow> 'w Impl \<Rightarrow> 'w Impl" where
  "io_write_outputs io bytes b =
     b\<lparr>ctx := set_slave (io_slave io) (\<lambda>s. s\<lparr>out_ptr :=
         map_option (\<lambda>img. take (length img) (bytes @ drop (length bytes) img)) (out_ptr s)\<rparr>) (ctx b)\<rparr>"

subsection \<open>Properties\<close>

lemmas em_splits = prod.splits sum.splits

text \<open>
  A step of \<^verbatim>\<open>open\<close>: it leaves the flag and the slave count alone, and fails only with the
  interface closed.
\<close>

definition open_step_ok :: "'w soem \<Rightarrow> ('w Impl, 'a) em \<Rightarrow> bool" where
  "open_step_ok S m \<longleftrightarrow>
     (\<forall>b. is_open (snd (m b)) = is_open b \<and> slave_count (snd (m b)) = slave_count b
        \<and> (\<forall>e. fst (m b) = Inl e \<longrightarrow> (\<exists>c. ctx (snd (m b)) = ecx_close S c)))"

lemma open_step_ok_intros [intro]:
  "open_step_ok S (close_and_throw S msg)"
  "open_step_ok S (ecx_call f)"
  "open_step_ok S (ecx_do g)"
  "open_step_ok S (em_gets h)"
  "open_step_ok S (em_return x)"
  by (auto simp: open_step_ok_def close_and_throw_def em_simps)

lemma open_step_ok_bind [intro]:
  "open_step_ok S m \<Longrightarrow> (\<And>x. open_step_ok S (f x)) \<Longrightarrow> open_step_ok S (em_bind m f)"
  unfolding open_step_ok_def em_bind_apply by (auto split: em_splits) (metis fst_conv snd_conv)+

lemma open_step_ok_seq [intro]:
  "open_step_ok S m \<Longrightarrow> open_step_ok S k \<Longrightarrow> open_step_ok S (em_seq m k)"
  unfolding em_seq_def by blast

lemma open_step_ok_for [intro]:
  "(\<And>x. open_step_ok S (f x)) \<Longrightarrow> open_step_ok S (em_for xs f)"
  by (induction xs) auto

lemma open_step_ok_if [intro]:
  "open_step_ok S m \<Longrightarrow> open_step_ok S k \<Longrightarrow> open_step_ok S (if c then m else k)"
  by simp

lemma open_warmup_ok: "open_step_ok S (open_warmup S i)"
  unfolding open_warmup_def by (intro open_step_ok_bind open_step_ok_if open_step_ok_intros)

lemma open_step_okD:
  assumes "open_step_ok S m" "m b = (r, b')"
  shows "is_open b' = is_open b" "slave_count b' = slave_count b"
    "r = Inl e \<Longrightarrow> \<exists>c. ctx b' = ecx_close S c"
  using assms unfolding open_step_ok_def by (metis fst_conv snd_conv)+

text \<open>
  Opening the bus releases the interface on every failure. If \<^verbatim>\<open>open\<close> returns, the backend is
  marked open and the positive number of enumerated slaves is what it recorded; if it throws, the
  backend's open flag is what it was, and either no interface was opened by this call (the bus was
  already open, or \<^verbatim>\<open>ecx_init\<close> failed) or the last thing done to the SOEM context was to close it.
\<close>

theorem SoemBackend_open_outcome:
  "case SoemBackend_open S ifname b of
     (Inr n, b') \<Rightarrow> is_open b' \<and> 0 < n \<and> int n = slave_count b'
   | (Inl e, b') \<Rightarrow> is_open b' = is_open b \<and>
       (is_open b \<or> fst (ecx_init S ifname (ctx b)) \<le> 0 \<or> (\<exists>c. ctx b' = ecx_close S c))"
proof -
  let ?i = "ecx_init S ifname (ctx b)"
  let ?n = "ecx_config_init S (snd ?i)"
  let ?p = "open_to_preop S (snd ?n)"
  let ?b = "b\<lparr>slave_count := fst ?n, ctx := ecx_readstate S (snd ?p)\<rparr>"
  obtain r b' where w: "em_for [1..<Suc (nat (fst ?n))] (open_warmup S) ?b = (r, b')" by fastforce
  note ok = open_step_okD [OF open_step_ok_for [OF open_warmup_ok] w]
  consider "is_open b" | "\<not> is_open b" "fst ?i \<le> 0"
    | "\<not> is_open b" "\<not> fst ?i \<le> 0" "fst ?n \<le> 0"
    | "\<not> is_open b" "\<not> fst ?i \<le> 0" "\<not> fst ?n \<le> 0" "fst ?p AND 0x0F \<noteq> EC_STATE_PRE_OP S"
    | "\<not> is_open b" "\<not> fst ?i \<le> 0" "\<not> fst ?n \<le> 0" "fst ?p AND 0x0F = EC_STATE_PRE_OP S"
    by blast
  then show ?thesis
  proof cases
    case 5
    then show ?thesis using w ok
      by (cases r) (simp_all add: SoemBackend_open_def em_simps del: upt_Suc)
  qed (auto simp: SoemBackend_open_def em_simps close_and_throw_def)
qed

text \<open>
  The outcome of an SDO write. A slave id outside the enumerated range is rejected with the base
  error before anything is sent, leaving the bus untouched. Otherwise the transfer is sent once;
  it fails with \<^verbatim>\<open>SdoError\<close> exactly if SOEM reports no working counter or has queued an error, and
  the error carries the code of the last CoE abort the slave sent, or zero if it sent none.
\<close>

theorem SoemBackend_sdo_write_outcome:
  fixes S slave index sub data b
  defines "sent \<equiv> ecx_SDOwrite S (unat slave) index sub data (EC_TIMEOUTRXM S) (ctx b)"
  defines "drained \<equiv> drain_sdo_errors S (snd sent)"
  shows "SoemBackend_sdo_write S slave index sub data b =
    (if uint slave < 1 \<or> slave_count b < uint slave
     then (Inl (Error ''sdo_write: slave out of range''), b)
     else if fst sent \<le> 0 \<or> ecx_iserror S (snd sent)
     then (Inl (SdoError (describe_sdo_failure ''SDO write'' (fst drained))
                  (if aborted (fst drained) then abort_code (fst drained) else 0)),
           b\<lparr>ctx := snd drained\<rparr>)
     else (Inr (), b\<lparr>ctx := snd sent\<rparr>))"
  by (auto simp: SoemBackend_sdo_write_def sdo_fail_def em_simps in_range_slave_def sent_def drained_def)

text \<open>The drain keeps the code of the last abort in the list, in the order the errors were queued.\<close>

fun last_abort :: "int \<Rightarrow> ec_errort list \<Rightarrow> u32 option" where
  "last_abort ty [] = None"
| "last_abort ty (e # es) =
     (case last_abort ty es of Some c \<Rightarrow> Some c | None \<Rightarrow> if Etype e = ty then Some (AbortCode e) else None)"

text \<open>The documented behaviour of SOEM's error list: a queue that a pop empties one by one.\<close>

definition pops_queue :: "'w soem \<Rightarrow> ('w ec_context \<Rightarrow> ec_errort list) \<Rightarrow> bool" where
  "pops_queue S q \<longleftrightarrow>
     (\<forall>c. case q c of
            [] \<Rightarrow> fst (ecx_poperror S c) = None \<and> q (snd (ecx_poperror S c)) = []
          | e # es \<Rightarrow> fst (ecx_poperror S c) = Some e \<and> q (snd (ecx_poperror S c)) = es)"

lemma drain_errors_queue:
  assumes "pops_queue S q" "length (q c) < n"
  shows "q (snd (drain_errors S n out c)) = []
       \<and> (case last_abort (EC_ERR_TYPE_SDO_ERROR S) (q c) of
            None \<Rightarrow> aborted (fst (drain_errors S n out c)) = aborted out
                  \<and> abort_code (fst (drain_errors S n out c)) = abort_code out
          | Some code \<Rightarrow> aborted (fst (drain_errors S n out c))
                  \<and> abort_code (fst (drain_errors S n out c)) = code)"
  using assms(2)
proof (induction n arbitrary: c out)
  case (Suc n)
  obtain r c1 where pop: "ecx_poperror S c = (r, c1)" by fastforce
  show ?case
  proof (cases "q c")
    case Nil
    with assms(1) [unfolded pops_queue_def, rule_format, of c] pop have "r = None" "q c1 = []"
      by simp_all
    with Nil pop show ?thesis by simp
  next
    case (Cons e es)
    with assms(1) [unfolded pops_queue_def, rule_format, of c] pop have r: "r = Some e" "q c1 = es"
      by simp_all
    then show ?thesis
      using Cons pop Suc.prems Suc.IH [of c1] by (auto split: option.splits)
  qed
qed simp

text \<open>
  Draining SOEM's errors after a failed transfer terminates with an empty list, and reports an
  abort exactly if the list held one, with the code of the last one, given that the list is a queue
  of bounded size.
\<close>

theorem drain_sdo_errors_spec:
  assumes "pops_queue S q" "length (q c) \<le> error_list_size S"
  shows "q (snd (drain_sdo_errors S c)) = []
       \<and> (aborted (fst (drain_sdo_errors S c)), abort_code (fst (drain_sdo_errors S c))) =
         (case last_abort (EC_ERR_TYPE_SDO_ERROR S) (q c) of
            None \<Rightarrow> (False, 0) | Some code \<Rightarrow> (True, code))"
  using drain_errors_queue [OF assms(1), of c "Suc (error_list_size S)"] assms(2)
  by (auto simp: drain_sdo_errors_def split: option.splits)

text \<open>A concrete SOEM whose error list is its private state, for evaluating the definitions.\<close>

definition demo_soem :: "ec_errort list soem" where
  "demo_soem = \<lparr>ecx_init = (\<lambda>_ c. (1, c)), ecx_config_init = (\<lambda>c. (1, c)),
     ecx_close = (\<lambda>c. c), ecx_readstate = (\<lambda>c. c), ecx_writestate = (\<lambda>_ c. c),
     ecx_statecheck = (\<lambda>_ s _ c. (s, c)), ecx_mbxempty = (\<lambda>_ _ c. (1, c)),
     ecx_SDOread = (\<lambda>_ _ _ n _ c. ((1, n, replicate (nat n) 0), c)),
     ecx_SDOwrite = (\<lambda>_ _ _ _ _ c. (1, c)), ecx_iserror = (\<lambda>c. soem_state c \<noteq> []),
     ecx_poperror = (\<lambda>c. case soem_state c of [] \<Rightarrow> (None, c) | e # es \<Rightarrow> (Some e, c\<lparr>soem_state := es\<rparr>)),
     error_list_size = 64, ecx_config_map_group = (\<lambda>c. (32, c)), ecx_configdc = (\<lambda>c. (True, c)),
     ecx_dcsync0 = (\<lambda>_ _ _ _ c. c), ecx_send_processdata = (\<lambda>c. c),
     ecx_receive_processdata = (\<lambda>_ c. (3, c)), osal_usleep = (\<lambda>_ c. c),
     EC_STATE_NONE = 0, EC_STATE_INIT = 1, EC_STATE_PRE_OP = 2, EC_STATE_SAFE_OP = 4,
     EC_STATE_OPERATIONAL = 8, EC_STATE_ACK = 16, EC_STATE_ERROR = 16, EC_TIMEOUTSTATE = 2000000,
     EC_TIMEOUTRXM = 700000, EC_TIMEOUTRET = 2000, EC_ERR_TYPE_SDO_ERROR = 0, ECT_MBXH_LOST = 2,
     ECT_MBXH_CYCLIC = 1\<rparr>"

definition demo_slave :: ec_slave where
  "demo_slave = \<lparr>al_state = 4, ALstatuscode = 0, eep_man = 1, eep_id = 1, eep_rev = 1, ec_name = ''A6'',
     mbx_l = 128, mbxhandlerstate = 0, Obytes = 6, Ibytes = 6,
     out_ptr = Some (replicate 6 0), in_ptr = Some (replicate 6 0)\<rparr>"

definition demo_context :: "ec_errort list \<Rightarrow> ec_errort list ec_context" where
  "demo_context errs = \<lparr>slavelist = (\<lambda>_. demo_slave), slavecount = 1, manualstatechange = False,
     DCtime = 0, outputsWKC = 1, inputsWKC = 1, soem_state = errs\<rparr>"

text \<open>The AL-state codes: distinct values of the low four bits.\<close>

definition al_codes_ok :: "'w soem \<Rightarrow> bool" where
  "al_codes_ok S \<longleftrightarrow>
     distinct [EC_STATE_NONE S, EC_STATE_INIT S, EC_STATE_PRE_OP S, EC_STATE_SAFE_OP S, EC_STATE_OPERATIONAL S]
     \<and> list_all (\<lambda>c. c AND 0x0F = c)
         [EC_STATE_NONE S, EC_STATE_INIT S, EC_STATE_PRE_OP S, EC_STATE_SAFE_OP S, EC_STATE_OPERATIONAL S]"

lemma from_to_soem_state: "al_codes_ok S \<Longrightarrow> from_soem_state S (to_soem_state S st) = st"
  by (cases st) (auto simp: al_codes_ok_def from_soem_state_def Let_def)

lemma reack_op_noop:
  assumes "\<And>i. al_state (slavelist (ecx_readstate S (ctx b)) i) \<notin>
             {EC_STATE_SAFE_OP S, EC_STATE_SAFE_OP S + EC_STATE_ERROR S}"
  shows "SoemBackend_reack_op S slave b = b\<lparr>ctx := ecx_readstate S (ctx b)\<rparr>"
proof -
  have "fold (reack_slave S) xs (ecx_readstate S (ctx b)) = ecx_readstate S (ctx b)" for xs
    using assms by (induction xs) (simp_all add: reack_slave_def Let_def)
  then show ?thesis by (simp add: SoemBackend_reack_op_def Let_def)
qed

text \<open>The length of an image seen through a span does not change when it is written.\<close>

lemma io_outputs_write_length:
  "length (io_outputs io (io_write_outputs io' bytes b)) = length (io_outputs io b)"
  by (auto simp: io_outputs_def io_write_outputs_def set_slave_def split: option.splits)

lemma io_outputs_write_same:
  "length bytes = length (io_outputs io b) \<Longrightarrow> io_outputs io (io_write_outputs io bytes b) = bytes"
  by (auto simp: io_outputs_def io_write_outputs_def set_slave_def split: option.splits)

lemma io_inputs_write_outputs [frame_simps]: "io_inputs io (io_write_outputs io' bytes b) = io_inputs io b"
  by (simp add: io_inputs_def io_write_outputs_def set_slave_def split: option.splits)

end
