(* ===== verification/PdoMapping.thy ===== *)
theory PdoMapping
  imports PdoBuffer Backend
begin

text \<open>
  PDO maps and how they are applied to a slave, \<^verbatim>\<open>src/src/ethercat/pdo_mapping.hpp\<close> and
  \<^verbatim>\<open>pdo_mapping.cpp\<close>, and the configuration records of the master. A \<^verbatim>\<open>std::map\<close> from PDO index to
  entry list is the association list of its pairs in key order (its keys are distinct).
\<close>

subsection \<open>Configuration data\<close>

record PdoEntry =
  entry_index :: u16
  entry_subindex :: u8
  bit_length :: u8

datatype PdoDirection = Rx | Tx

fun sm_assign_index :: "PdoDirection \<Rightarrow> u16" where
  "sm_assign_index Rx = 0x1C12"
| "sm_assign_index Tx = 0x1C13"

record PdoMap =
  assign_index_override :: u16
  pdo_indices :: "u16 list"
  map_entries :: "(u16 \<times> PdoEntry list) list"

definition PdoMap_assign_index :: "PdoMap \<Rightarrow> PdoDirection \<Rightarrow> u16" where
  "PdoMap_assign_index m dir =
     (if assign_index_override m \<noteq> 0 then assign_index_override m else sm_assign_index dir)"

definition entry_bits :: "PdoEntry list \<Rightarrow> nat" where
  "entry_bits es = sum_list (map (unat \<circ> bit_length) es)"

definition PdoMap_byte_size :: "PdoMap \<Rightarrow> ec_error + nat" where
  "PdoMap_byte_size m =
     (let bits = sum_list (map (entry_bits \<circ> snd) (map_entries m))
      in if bits mod 8 \<noteq> 0 then Inl (PdoMappingError ''PDO map size is not byte-aligned'')
         else Inr (bits div 8))"

record SdoWrite =
  sdo_index :: u16
  sdo_subindex :: u8
  sdo_data :: "byte list"

record SlaveConfig =
  slave_id :: u16
  rxpdo :: PdoMap
  txpdo :: PdoMap
  sync_cycle_granularity_ns :: u32

record MasterConfig =
  ifname :: string
  target_loop_rate_hz :: u32
  slaves :: "SlaveConfig list"
  use_distributed_clocks :: bool
  dc_op_gate_cycles :: u32
  dc_settle_cycles :: u32
  dc_sync0_shift_ns :: i32
  max_consecutive_wkc_errors :: u32
  op_hold_confirm_cycles :: u32
  op_nudge_interval_cycles :: u32
  op_await_timeout_ms :: u32

definition MasterConfig_default :: MasterConfig where
  "MasterConfig_default =
     \<lparr>ifname = [], target_loop_rate_hz = 1000, slaves = [], use_distributed_clocks = False,
      dc_op_gate_cycles = 400, dc_settle_cycles = 0, dc_sync0_shift_ns = 0,
      max_consecutive_wkc_errors = 5, op_hold_confirm_cycles = 5, op_nudge_interval_cycles = 10,
      op_await_timeout_ms = 30000\<rparr>"

subsection \<open>Applying a map\<close>

text \<open>A mapping-object write: a refusal by the drive is re-tagged, any other error passes through.\<close>

definition sdo_write_scalar ::
    "'w soem \<Rightarrow> u16 \<Rightarrow> u16 \<Rightarrow> u8 \<Rightarrow> byte list \<Rightarrow> ('w Impl, unit) em" where
  "sdo_write_scalar S slave index sub buf =
     em_catch (SoemBackend_sdo_write S slave index sub buf)
       (\<lambda>e. case e of SdoError msg code \<Rightarrow> em_throw (PdoMappingError (''PDO mapping write rejected: '' @ msg))
                    | _ \<Rightarrow> em_throw e)"

abbreviation le8 :: "u8 \<Rightarrow> byte list" where "le8 v \<equiv> store_le [0] v"
abbreviation le16 :: "u16 \<Rightarrow> byte list" where "le16 v \<equiv> store_le [0, 0] v"
abbreviation le32 :: "u32 \<Rightarrow> byte list" where "le32 v \<equiv> store_le [0, 0, 0, 0] v"

definition packed_entry :: "PdoEntry \<Rightarrow> u32" where
  "packed_entry e =
     (push_bit 16 (ucast (entry_index e)) OR push_bit 8 (ucast (entry_subindex e))) OR ucast (bit_length e)"

text \<open>The entry loop, with the 8-bit subindex it counts.\<close>

fun write_entries :: "'w soem \<Rightarrow> u16 \<Rightarrow> u16 \<Rightarrow> u8 \<Rightarrow> PdoEntry list \<Rightarrow> ('w Impl, unit) em" where
  "write_entries S slave pdo sub [] = em_return ()"
| "write_entries S slave pdo sub (e # es) =
     em_seq (sdo_write_scalar S slave pdo sub (le32 (packed_entry e)))
            (write_entries S slave pdo (sub + 1) es)"

definition apply_pdo :: "'w soem \<Rightarrow> u16 \<Rightarrow> PdoMap \<Rightarrow> u16 \<Rightarrow> ('w Impl, unit) em" where
  "apply_pdo S slave m pdo =
     (case map_of (map_entries m) pdo of
        None \<Rightarrow> em_throw (PdoMappingError ''PDO assigned to SM has no entry list'')
      | Some list \<Rightarrow>
          if length list > 0xFF then em_throw (PdoMappingError ''PDO has too many entries (max 255)'')
          else em_seq (sdo_write_scalar S slave pdo 0 (le8 0))
              (em_seq (write_entries S slave pdo 1 list)
                      (sdo_write_scalar S slave pdo 0 (le8 (of_nat (length list))))))"

fun assign_pdos :: "'w soem \<Rightarrow> u16 \<Rightarrow> u16 \<Rightarrow> u8 \<Rightarrow> u16 list \<Rightarrow> ('w Impl, unit) em" where
  "assign_pdos S slave assign_index sub [] = em_return ()"
| "assign_pdos S slave assign_index sub (pdo # pdos) =
     em_seq (sdo_write_scalar S slave assign_index sub (le16 pdo))
            (assign_pdos S slave assign_index (sub + 1) pdos)"

text \<open>
  With debug logging enabled the code computes the map's byte size for a log line first, which throws
  if the map is not byte-aligned; \<open>dbg\<close> is the log level test.
\<close>

definition apply_pdo_map :: "bool \<Rightarrow> 'w soem \<Rightarrow> u16 \<Rightarrow> PdoMap \<Rightarrow> PdoDirection \<Rightarrow> ('w Impl, unit) em" where
  "apply_pdo_map dbg S slave m dir =
     (let assign_index = PdoMap_assign_index m dir in
      em_seq (em_when dbg (case PdoMap_byte_size m of Inl e \<Rightarrow> em_throw e | Inr _ \<Rightarrow> em_return ()))
     (em_seq (sdo_write_scalar S slave assign_index 0 (le8 0))
     (em_seq (em_for (pdo_indices m) (apply_pdo S slave m))
     (if length (pdo_indices m) > 0xFF
      then em_throw (PdoMappingError ''SM has too many PDOs (max 255)'')
      else em_seq (assign_pdos S slave assign_index 1 (pdo_indices m))
                  (sdo_write_scalar S slave assign_index 0 (le8 (of_nat (length (pdo_indices m)))))))))"

subsection \<open>The sequence of writes\<close>

text \<open>
  What a successful \<^verbatim>\<open>apply_pdo_map\<close> sends, as a list of writes: the entries of one counted object
  (subindex 1 upwards), one PDO, and the whole map in the order (a) to (e) of the header.
\<close>

type_synonym sdo_write_item = "u16 \<times> u8 \<times> byte list"

definition entry_writes :: "u16 \<Rightarrow> nat \<Rightarrow> byte list list \<Rightarrow> sdo_write_item list" where
  "entry_writes idx i vs = map (\<lambda>(k, v). (idx, of_nat k, v)) (enumerate i vs)"

definition pdo_writes :: "PdoMap \<Rightarrow> u16 \<Rightarrow> sdo_write_item list" where
  "pdo_writes m pdo =
     (let vs = map (\<lambda>e. le32 (packed_entry e)) (the (map_of (map_entries m) pdo))
      in (pdo, 0, le8 0) # entry_writes pdo 1 vs @ [(pdo, 0, le8 (of_nat (length vs)))])"

definition map_writes :: "PdoMap \<Rightarrow> PdoDirection \<Rightarrow> sdo_write_item list" where
  "map_writes m dir =
     (let a = PdoMap_assign_index m dir
      in (a, 0, le8 0) # concat (map (pdo_writes m) (pdo_indices m))
         @ entry_writes a 1 (map (\<lambda>p. le16 p) (pdo_indices m))
         @ [(a, 0, le8 (of_nat (length (pdo_indices m))))])"

definition PdoMap_valid :: "PdoMap \<Rightarrow> bool" where
  "PdoMap_valid m \<longleftrightarrow>
     length (pdo_indices m) \<le> 255
     \<and> list_all (\<lambda>pdo. case map_of (map_entries m) pdo of None \<Rightarrow> False | Some l \<Rightarrow> length l \<le> 255) (pdo_indices m)"

definition send_write :: "'w soem \<Rightarrow> u16 \<Rightarrow> sdo_write_item \<Rightarrow> ('w Impl, unit) em" where
  "send_write S slave w = (case w of (idx, sub, data) \<Rightarrow> sdo_write_scalar S slave idx sub data)"

lemma entry_writes_simps [simp]:
  "entry_writes idx i [] = []"
  "entry_writes idx i (v # vs) = (idx, of_nat i, v) # entry_writes idx (Suc i) vs"
  by (simp_all add: entry_writes_def)

lemma write_entries_sends:
  "write_entries S slave pdo (of_nat i) es =
     em_for (entry_writes pdo i (map (\<lambda>e. le32 (packed_entry e)) es)) (send_write S slave)"
  by (induction es arbitrary: i) (simp_all add: send_write_def add.commute flip: of_nat_Suc)

lemma assign_pdos_sends:
  "assign_pdos S slave a (of_nat i) pdos =
     em_for (entry_writes a i (map (\<lambda>p. le16 p) pdos)) (send_write S slave)"
  by (induction pdos arbitrary: i) (simp_all add: send_write_def add.commute flip: of_nat_Suc)

lemma apply_pdo_sends:
  assumes "map_of (map_entries m) pdo = Some l" "length l \<le> 255"
  shows "apply_pdo S slave m pdo = em_for (pdo_writes m pdo) (send_write S slave)"
  using assms write_entries_sends [of S slave pdo 1 l]
  by (simp add: apply_pdo_def pdo_writes_def Let_def em_for_append) (simp add: send_write_def)

lemma apply_pdo_map_sends:
  assumes "PdoMap_valid m"
  shows "apply_pdo_map False S slave m dir = em_for (map_writes m dir) (send_write S slave)"
proof -
  let ?a = "PdoMap_assign_index m dir"
  have pdos: "em_for (pdo_indices m) (apply_pdo S slave m) =
      em_for (concat (map (pdo_writes m) (pdo_indices m))) (send_write S slave)"
    using assms
    by (intro em_for_concat) (auto simp: PdoMap_valid_def list_all_iff apply_pdo_sends split: option.splits)
  have "length (pdo_indices m) \<le> 255" using assms by (simp add: PdoMap_valid_def)
  then show ?thesis
    using assign_pdos_sends [of S slave ?a 1 "pdo_indices m"]
    by (simp add: apply_pdo_map_def map_writes_def Let_def pdos em_for_append em_when_def em_seq_assoc)
      (simp add: send_write_def)
qed

subsection \<open>A drive accepts the sequence\<close>

text \<open>
  The rule the ordering is for: a drive refuses to write an entry of an object whose entry count is
  not zero, and refuses any change to a PDO while the sync manager \<open>a\<close> has PDOs assigned. The object
  dictionary maps index and subindex to the stored bytes.
\<close>

type_synonym dictionary = "u16 \<times> u8 \<Rightarrow> byte list option"

fun dev_write :: "u16 \<Rightarrow> dictionary \<Rightarrow> sdo_write_item \<Rightarrow> dictionary option" where
  "dev_write a d (idx, sub, data) =
     (if (sub = 0 \<or> d (idx, 0) = Some [0]) \<and> (idx = a \<or> d (a, 0) = Some [0])
      then Some (d((idx, sub) \<mapsto> data)) else None)"

fun dev_run :: "u16 \<Rightarrow> dictionary \<Rightarrow> sdo_write_item list \<Rightarrow> dictionary option" where
  "dev_run a d [] = Some d"
| "dev_run a d (w # ws) = (case dev_write a d w of None \<Rightarrow> None | Some d' \<Rightarrow> dev_run a d' ws)"

definition put_entries :: "u16 \<Rightarrow> nat \<Rightarrow> byte list list \<Rightarrow> dictionary \<Rightarrow> dictionary" where
  "put_entries idx i vs d =
     (\<lambda>(x, s). if x = idx \<and> i \<le> unat s \<and> unat s < i + length vs then Some (vs ! (unat s - i)) else d (x, s))"

definition put_object :: "u16 \<Rightarrow> byte list list \<Rightarrow> dictionary \<Rightarrow> dictionary" where
  "put_object idx vs d = (put_entries idx 1 vs d)((idx, 0) \<mapsto> le8 (of_nat (length vs)))"

lemma unat_u8_of_nat: "n < 256 \<Longrightarrow> unat (of_nat n :: u8) = n"
  by (simp add: unat_of_nat)

lemma le8_0: "le8 0 = [0]"
  by (simp add: store_le_def)

lemma dev_run_append:
  "dev_run a d (xs @ ys) = (case dev_run a d xs of None \<Rightarrow> None | Some d' \<Rightarrow> dev_run a d' ys)"
  by (induction xs arbitrary: d) (simp_all split: option.splits)

lemma dev_run_entries:
  assumes "1 \<le> i" "i + length vs \<le> 256" "d (idx, 0) = Some [0]" "idx = a \<or> d (a, 0) = Some [0]"
  shows "dev_run a d (entry_writes idx i vs) = Some (put_entries idx i vs d)"
  using assms
proof (induction vs arbitrary: i d)
  case Nil
  then show ?case by (auto simp: put_entries_def fun_eq_iff)
next
  case (Cons v vs)
  have u: "unat (of_nat i :: u8) = i" using Cons.prems by (simp add: unat_of_nat)
  have nz: "(of_nat i :: u8) \<noteq> 0" using u Cons.prems by (metis not_one_le_zero unat_0)
  let ?d = "d((idx, of_nat i) \<mapsto> v)"
  have "put_entries idx (Suc i) vs ?d = put_entries idx i (v # vs) d"
    using u by (auto simp: put_entries_def fun_eq_iff nth_Cons' word_unat_eq_iff)
  moreover have "dev_run a ?d (entry_writes idx (Suc i) vs) = Some (put_entries idx (Suc i) vs ?d)"
    using Cons.prems nz by (intro Cons.IH) auto
  ultimately show ?case using Cons.prems nz by simp
qed

lemma put_entries_other [simp]: "x \<noteq> idx \<Longrightarrow> put_entries idx i vs d (x, s) = d (x, s)"
  and put_entries_zero [simp]: "1 \<le> i \<Longrightarrow> put_entries idx i vs d (x, 0) = d (x, 0)"
  by (simp_all add: put_entries_def)

lemma dev_run_pdo:
  assumes "map_of (map_entries m) pdo = Some l" "length l \<le> 255" "d (a, 0) = Some [0]" "pdo \<noteq> a"
  shows "dev_run a d (pdo_writes m pdo) = Some (put_object pdo (map (\<lambda>e. le32 (packed_entry e)) l) d)"
proof -
  have "(put_entries pdo 1 vs (d((pdo, 0) \<mapsto> [0])))((pdo, 0) \<mapsto> b) = (put_entries pdo 1 vs d)((pdo, 0) \<mapsto> b)"
    for vs b by (auto simp: put_entries_def fun_eq_iff)
  moreover have "dev_run a (d((pdo, 0) \<mapsto> [0])) (entry_writes pdo 1 (map (\<lambda>e. le32 (packed_entry e)) l)) =
      Some (put_entries pdo 1 (map (\<lambda>e. le32 (packed_entry e)) l) (d((pdo, 0) \<mapsto> [0])))"
    using assms by (intro dev_run_entries) auto
  ultimately show ?thesis
    using assms by (simp add: pdo_writes_def Let_def dev_run_append put_object_def le8_0)
qed

text \<open>What every assigned PDO holds after the PDO phase, when later PDOs do not disturb earlier ones.\<close>

definition pdo_stored :: "PdoMap \<Rightarrow> dictionary \<Rightarrow> u16 \<Rightarrow> bool" where
  "pdo_stored m d pdo \<longleftrightarrow>
     (let l = the (map_of (map_entries m) pdo)
      in d (pdo, 0) = Some (le8 (of_nat (length l)))
         \<and> list_all (\<lambda>j. d (pdo, of_nat (Suc j)) = Some (le32 (packed_entry (l ! j)))) [0..<length l])"

lemma put_object_stored:
  assumes "map_of (map_entries m) pdo = Some l" "length l \<le> 255"
  shows "pdo_stored m (put_object pdo (map (\<lambda>e. le32 (packed_entry e)) l) d) pdo"
proof -
  have "unat (of_nat (Suc j) :: u8) = Suc j" if "j < length l" for j
    using that assms(2) by (intro unat_u8_of_nat) simp
  then show ?thesis
    using assms by (auto simp: pdo_stored_def put_object_def put_entries_def list_all_iff word_unat_eq_iff
        simp del: of_nat_Suc)
qed

lemma pdo_stored_cong: "(\<And>s. d' (pdo, s) = d (pdo, s)) \<Longrightarrow> pdo_stored m d' pdo = pdo_stored m d pdo"
  by (simp add: pdo_stored_def)

lemma put_object_other [simp]: "x \<noteq> idx \<Longrightarrow> put_object idx vs d (x, s) = d (x, s)"
  by (simp add: put_object_def)

lemma dev_run_pdos:
  assumes "\<And>pdo. pdo \<in> set pdos \<Longrightarrow> pdo \<noteq> a \<and> (\<exists>l. map_of (map_entries m) pdo = Some l \<and> length l \<le> 255)"
    and "d (a, 0) = Some [0]"
  shows "\<exists>d'. dev_run a d (concat (map (pdo_writes m) pdos)) = Some d' \<and> d' (a, 0) = Some [0]
       \<and> (\<forall>pdo. pdo \<in> set pdos \<or> pdo_stored m d pdo \<longrightarrow> pdo_stored m d' pdo)"
  using assms
proof (induction pdos arbitrary: d)
  case (Cons pdo pdos)
  obtain l where l: "pdo \<noteq> a" "map_of (map_entries m) pdo = Some l" "length l \<le> 255"
    using Cons.prems(1) [of pdo] by auto
  let ?d = "put_object pdo (map (\<lambda>e. le32 (packed_entry e)) l) d"
  have "pdo_stored m ?d q" if "q = pdo \<or> pdo_stored m d q" for q
    using that put_object_stored [OF l(2,3)] pdo_stored_cong [of ?d q d m] by (cases "q = pdo") auto
  moreover obtain d' where "dev_run a ?d (concat (map (pdo_writes m) pdos)) = Some d'" "d' (a, 0) = Some [0]"
      "\<forall>q. q \<in> set pdos \<or> pdo_stored m ?d q \<longrightarrow> pdo_stored m d' q"
    using Cons.IH [of ?d] Cons.prems l by auto
  ultimately show ?case
    using Cons.prems(2) l by (auto simp: dev_run_append dev_run_pdo)
qed auto


definition demo_map :: PdoMap where
  "demo_map = \<lparr>assign_index_override = 0, pdo_indices = [0x1702],
     map_entries = [(0x1702, [\<lparr>entry_index = 0x6040, entry_subindex = 0, bit_length = 16\<rparr>,
                              \<lparr>entry_index = 0x607A, entry_subindex = 0, bit_length = 32\<rparr>])]\<rparr>"


end
