(* ===== verification/Snapshot.thy ===== *)
theory Snapshot
  imports Prelude
begin

text \<open>
  The feedback snapshot of \<^verbatim>\<open>src/src/ethercat/pdo_cache.hpp\<close> and \<^verbatim>\<open>pdo_cache.cpp\<close>: a seqlock with one
  RT writer and non-RT readers. First the operations as the sequential code has them, then the same
  code cut at every access to shared memory, as a step relation that interleaves a writer and a
  reader arbitrarily. The interleaving is sequentially consistent, which is what the fences of the
  code are there to provide; weaker executions are outside the model. The ghost history records the
  published frames. The theorem of the component is that a read reported valid is a frame that was
  published, whole, and no older than the last one published when the read began.
\<close>

subsection \<open>Data\<close>

definition kMaxPdoBytes :: nat where
  "kMaxPdoBytes = 512"

record PdoSnapshot =
  snap_bytes :: "byte list"
  snap_size :: nat
  snap_wkc :: u16
  snap_cycle :: u64
  snap_valid :: bool
  snap_stale :: bool

definition is_live :: "PdoSnapshot \<Rightarrow> bool" where
  "is_live s \<longleftrightarrow> snap_cycle s > 0"

definition PdoSnapshot_empty :: PdoSnapshot where
  "PdoSnapshot_empty = \<lparr>snap_bytes = replicate kMaxPdoBytes 0, snap_size = 0, snap_wkc = 0,
     snap_cycle = 0, snap_valid = False, snap_stale = False\<rparr>"

record RxSnapshot =
  seq :: u64
  rx_size :: nat
  rx_cycle :: u64
  rx_bytes :: "byte list"
  rx_wkc :: u16

definition kMaxReadRetries :: nat where
  "kMaxReadRetries = 16"

definition RxSnapshot_new :: "nat \<Rightarrow> RxSnapshot" where
  "RxSnapshot_new payload_size =
     \<lparr>seq = 0, rx_size = min payload_size kMaxPdoBytes, rx_cycle = 0,
      rx_bytes = replicate kMaxPdoBytes 0, rx_wkc = 0\<rparr>"

subsection \<open>The sequential operations\<close>

definition payload_byte :: "byte list \<Rightarrow> nat \<Rightarrow> nat \<Rightarrow> byte" where
  "payload_byte payload sz i = (if i < min (length payload) sz then payload ! i else 0)"

definition next_odd :: "u64 \<Rightarrow> u64" where
  "next_odd v = (v + 1) OR 1"

definition RxSnapshot_publish :: "RxSnapshot \<Rightarrow> byte list \<Rightarrow> u16 \<Rightarrow> u64 \<Rightarrow> RxSnapshot" where
  "RxSnapshot_publish r payload working_counter cycle =
     r\<lparr>seq := next_odd (seq r) + 1,
       rx_bytes := map (payload_byte payload (rx_size r)) [0..<rx_size r] @ drop (rx_size r) (rx_bytes r),
       rx_wkc := working_counter, rx_cycle := cycle\<rparr>"

text \<open>
  A read with no writer running: the first attempt succeeds if the sequence number is even, otherwise
  all attempts fail.
\<close>

definition exhausted :: "byte list \<Rightarrow> u64 \<Rightarrow> PdoSnapshot" where
  "exhausted buf cycle = \<lparr>snap_bytes = buf, snap_size = 0, snap_wkc = 0, snap_cycle = cycle,
     snap_valid = False, snap_stale = True\<rparr>"

definition RxSnapshot_read :: "RxSnapshot \<Rightarrow> PdoSnapshot" where
  "RxSnapshot_read r =
     (if seq r AND 1 \<noteq> 0 then exhausted (replicate kMaxPdoBytes 0) (rx_cycle r)
      else \<lparr>snap_bytes = take (rx_size r) (rx_bytes r) @ drop (rx_size r) (replicate kMaxPdoBytes 0),
            snap_size = rx_size r, snap_wkc = rx_wkc r, snap_cycle = rx_cycle r,
            snap_valid = True, snap_stale = False\<rparr>)"

definition force_writing_for_test :: "RxSnapshot \<Rightarrow> RxSnapshot" where
  "force_writing_for_test r = r\<lparr>seq := seq r + 1\<rparr>"

text \<open>The per-slave cache adds the size check.\<close>

definition PdoCache_new :: "nat \<Rightarrow> ec_error + RxSnapshot" where
  "PdoCache_new rx_sz =
     (if rx_sz > kMaxPdoBytes then Inl (PdoMappingError ''slave feedback image exceeds kMaxPdoBytes'')
      else Inr (RxSnapshot_new rx_sz))"

subsection \<open>The interleaved operations\<close>

text \<open>Where the writer is in \<^verbatim>\<open>publish\<close>: the next shared access, with its local variables.\<close>

datatype writer =
    WIdle
  | WBytes u64 "byte list" u16 u64 nat
  | WCycle u64 u64
  | WCommit u64

datatype reader =
    RIdle
  | RSeq nat "byte list"
  | RBytes nat u64 nat "byte list"
  | RCyc nat u64 "byte list" u16
  | RCheck nat u64 "byte list" u16 u64
  | RFail "byte list"
  | RDone PdoSnapshot

fun writer_step :: "RxSnapshot \<Rightarrow> writer \<Rightarrow> RxSnapshot \<times> writer" where
  "writer_step r WIdle = (r, WIdle)"
| "writer_step r (WBytes od payload w c i) =
     (if i < rx_size r
      then (r\<lparr>rx_bytes := (rx_bytes r)[i := payload_byte payload (rx_size r) i]\<rparr>, WBytes od payload w c (Suc i))
      else (r\<lparr>rx_wkc := w\<rparr>, WCycle od c))"
| "writer_step r (WCycle od c) = (r\<lparr>rx_cycle := c\<rparr>, WCommit od)"
| "writer_step r (WCommit od) = (r\<lparr>seq := od + 1\<rparr>, WIdle)"

definition writer_start :: "RxSnapshot \<Rightarrow> byte list \<Rightarrow> u16 \<Rightarrow> u64 \<Rightarrow> RxSnapshot \<times> writer" where
  "writer_start r payload w c =
     (let od = next_odd (seq r) in (r\<lparr>seq := od\<rparr>, WBytes od payload w c 0))"

definition retry :: "nat \<Rightarrow> byte list \<Rightarrow> reader" where
  "retry attempt buf = (if Suc attempt < kMaxReadRetries then RSeq (Suc attempt) buf else RFail buf)"

fun reader_step :: "RxSnapshot \<Rightarrow> reader \<Rightarrow> reader" where
  "reader_step r RIdle = RIdle"
| "reader_step r (RSeq a buf) = (if seq r AND 1 \<noteq> 0 then retry a buf else RBytes a (seq r) 0 buf)"
| "reader_step r (RBytes a s0 i buf) =
     (if i < rx_size r then RBytes a s0 (Suc i) (buf[i := rx_bytes r ! i]) else RCyc a s0 buf (rx_wkc r))"
| "reader_step r (RCyc a s0 buf w) = RCheck a s0 buf w (rx_cycle r)"
| "reader_step r (RCheck a s0 buf w c) =
     (if s0 = seq r
      then RDone \<lparr>snap_bytes = buf, snap_size = rx_size r, snap_wkc = w, snap_cycle = c,
                  snap_valid = True, snap_stale = False\<rparr>
      else retry a buf)"
| "reader_step r (RFail buf) = RDone (exhausted buf (rx_cycle r))"
| "reader_step r (RDone s) = RDone s"

definition reader_start :: reader where
  "reader_start = RSeq 0 (replicate kMaxPdoBytes 0)"

text \<open>Ghost state: the frames published so far, and how many there were when the read began.\<close>

type_synonym frame = "byte list \<times> u16 \<times> u64"

definition frame_of :: "RxSnapshot \<Rightarrow> frame" where
  "frame_of r = (take (rx_size r) (rx_bytes r), rx_wkc r, rx_cycle r)"

record seqlock =
  shared :: RxSnapshot
  wr :: writer
  rd :: reader
  hist :: "frame list"
  rd_from :: nat

definition seqlock_init :: "nat \<Rightarrow> seqlock" where
  "seqlock_init n = \<lparr>shared = RxSnapshot_new n, wr = WIdle, rd = RIdle,
     hist = [frame_of (RxSnapshot_new n)], rd_from = 0\<rparr>"

fun is_commit :: "writer \<Rightarrow> bool" where
  "is_commit (WCommit _) = True"
| "is_commit _ = False"

inductive seqlock_step :: "seqlock \<Rightarrow> seqlock \<Rightarrow> bool" where
  start_publish:
    "wr s = WIdle \<Longrightarrow> writer_start (shared s) payload w c = (r, k) \<Longrightarrow>
     seqlock_step s (s\<lparr>shared := r, wr := k\<rparr>)"
| write_access:
    "wr s \<noteq> WIdle \<Longrightarrow> writer_step (shared s) (wr s) = (r, k) \<Longrightarrow>
     seqlock_step s (s\<lparr>shared := r, wr := k,
       hist := (if is_commit (wr s) then hist s @ [frame_of r] else hist s)\<rparr>)"
| start_read:
    "rd s = RIdle \<or> rd s = RDone out \<Longrightarrow>
     seqlock_step s (s\<lparr>rd := reader_start, rd_from := length (hist s) - 1\<rparr>)"
| read_access:
    "seqlock_step s (s\<lparr>rd := reader_step (shared s) (rd s)\<rparr>)"

inductive_cases seqlock_stepE: "seqlock_step s s'"

subsection \<open>The invariant\<close>

text \<open>
  The sequence number counts: twice the number of publications, plus one while one is in progress.
  The reader's copy agrees with the shared frame as long as the sequence number it started from is
  still the current one and no write is in progress.
\<close>

definition writer_inv :: "RxSnapshot \<Rightarrow> writer \<Rightarrow> frame list \<Rightarrow> bool" where
  "writer_inv r k h \<longleftrightarrow>
     h \<noteq> [] \<and> length (rx_bytes r) = kMaxPdoBytes \<and> rx_size r \<le> kMaxPdoBytes \<and>
     (case k of
        WIdle \<Rightarrow> seq r = of_nat (2 * (length h - 1)) \<and> frame_of r = last h
      | WBytes od p w c i \<Rightarrow> seq r = of_nat (2 * (length h - 1) + 1) \<and> od = seq r
      | WCycle od c \<Rightarrow> seq r = of_nat (2 * (length h - 1) + 1) \<and> od = seq r
      | WCommit od \<Rightarrow> seq r = of_nat (2 * (length h - 1) + 1) \<and> od = seq r)"

text \<open>The reader's copy so far, if its starting number is that of the current stable frame.\<close>

definition copy_inv ::
    "seqlock \<Rightarrow> u64 \<Rightarrow> (RxSnapshot \<Rightarrow> bool) \<Rightarrow> bool" where
  "copy_inv s s0 agrees \<longleftrightarrow>
     (\<exists>k. s0 = of_nat (2 * k) \<and> rd_from s \<le> k \<and> k < length (hist s)
        \<and> (k = length (hist s) - 1 \<and> wr s = WIdle \<longrightarrow> agrees (shared s)))"

definition same_prefix :: "byte list \<Rightarrow> nat \<Rightarrow> RxSnapshot \<Rightarrow> bool" where
  "same_prefix buf i r \<longleftrightarrow> (\<forall>j<i. buf ! j = rx_bytes r ! j)"

definition snap_frame :: "PdoSnapshot \<Rightarrow> frame" where
  "snap_frame o' = (take (snap_size o') (snap_bytes o'), snap_wkc o', snap_cycle o')"

definition reader_inv :: "seqlock \<Rightarrow> bool" where
  "reader_inv s \<longleftrightarrow> rd_from s < length (hist s) \<and>
     (case rd s of
        RIdle \<Rightarrow> True
      | RSeq a buf \<Rightarrow> length buf = kMaxPdoBytes
      | RBytes a s0 i buf \<Rightarrow> length buf = kMaxPdoBytes \<and> i \<le> rx_size (shared s) \<and> copy_inv s s0 (same_prefix buf i)
      | RCyc a s0 buf w \<Rightarrow> length buf = kMaxPdoBytes \<and>
          copy_inv s s0 (\<lambda>r. same_prefix buf (rx_size r) r \<and> w = rx_wkc r)
      | RCheck a s0 buf w c \<Rightarrow> length buf = kMaxPdoBytes \<and>
          copy_inv s s0 (\<lambda>r. same_prefix buf (rx_size r) r \<and> w = rx_wkc r \<and> c = rx_cycle r)
      | RFail buf \<Rightarrow> length buf = kMaxPdoBytes
      | RDone out \<Rightarrow> snap_valid out \<longrightarrow>
          (\<exists>k. rd_from s \<le> k \<and> k < length (hist s) \<and> snap_frame out = hist s ! k))"

definition no_wrap :: "seqlock \<Rightarrow> bool" where
  "no_wrap s \<longleftrightarrow> 2 * length (hist s) < 2 ^ 64"

definition seqlock_inv :: "seqlock \<Rightarrow> bool" where
  "seqlock_inv s \<longleftrightarrow> writer_inv (shared s) (wr s) (hist s) \<and> reader_inv s"

lemma next_odd_even: "next_odd (of_nat (2 * n)) = of_nat (2 * n + 1)"
proof -
  have "bit (of_nat (2 * n) + 1 :: u64) 0"
    by (simp add: bit_0)
  then have "(of_nat (2 * n) + 1 :: u64) OR 1 = of_nat (2 * n) + 1"
    by (intro bit_word_eqI) (auto simp: bit_simps)
  then show ?thesis by (simp add: next_odd_def add.commute)
qed

lemma odd_AND_1: "(of_nat (2 * n + 1) :: u64) AND 1 \<noteq> 0"
  by (simp add: and_one_eq mod_2_eq_odd)

lemma even_AND_1: "(of_nat (2 * n) :: u64) AND 1 = 0"
  by (simp add: and_one_eq mod_2_eq_odd)

lemma writer_step_inv:
  assumes "writer_inv r k h" "writer_step r k = (r', k')" "k \<noteq> WIdle"
  shows "writer_inv r' k' (if is_commit k then h @ [frame_of r'] else h)"
  using assms by (cases k; cases h) (auto simp: writer_inv_def algebra_simps split: if_splits)

lemma writer_start_inv:
  assumes "writer_inv r WIdle h" "writer_start r p w c = (r', k')"
  shows "writer_inv r' k' h"
  using assms next_odd_even [of "length h - 1"]
  by (auto simp: writer_inv_def writer_start_def Let_def)

lemma even_eq_iff:
  assumes "2 * m < 2 ^ 64" "2 * n + 1 < 2 ^ 64"
  shows "(of_nat (2 * m) :: u64) = of_nat (2 * n) \<longleftrightarrow> m = n"
    and "(of_nat (2 * m) :: u64) \<noteq> of_nat (2 * n + 1)"
proof -
  have u: "unat (of_nat a :: u64) = a" if "a < 2 ^ 64" for a
    using that by (simp add: unat_of_nat)
  then have inj: "(of_nat a :: u64) = of_nat b \<longleftrightarrow> a = b" if "a < 2 ^ 64" "b < 2 ^ 64" for a b
    using that by metis
  show "(of_nat (2 * m) :: u64) = of_nat (2 * n) \<longleftrightarrow> m = n"
    using assms inj [of "2 * m" "2 * n"] by simp
  have "2 * m \<noteq> 2 * n + 1" by presburger
  then show "(of_nat (2 * m) :: u64) \<noteq> of_nat (2 * n + 1)"
    using assms inj [of "2 * m" "2 * n + 1"] by simp
qed

text \<open>A successful check happens only while the frame the copy was taken from is still in place.\<close>

lemma copy_inv_check:
  assumes "copy_inv s s0 agrees" "writer_inv (shared s) (wr s) (hist s)" "no_wrap s" "s0 = seq (shared s)"
  shows "wr s = WIdle \<and> agrees (shared s) \<and> rd_from s \<le> length (hist s) - 1"
proof -
  obtain k where k: "s0 = of_nat (2 * k)" "rd_from s \<le> k" "k < length (hist s)"
      "k = length (hist s) - 1 \<and> wr s = WIdle \<longrightarrow> agrees (shared s)"
    using assms(1) by (auto simp: copy_inv_def)
  have b: "2 * k < 2 ^ 64" "2 * (length (hist s) - 1) + 1 < 2 ^ 64"
    using assms(3) k(3) by (simp_all add: no_wrap_def)
  have "wr s = WIdle"
    using assms(2,4) k(1) even_eq_iff(2) [OF b] by (auto simp: writer_inv_def split: writer.splits)
  moreover from this have "k = length (hist s) - 1"
    using assms(2,4) k(1) even_eq_iff(1) [OF b] by (auto simp: writer_inv_def)
  ultimately show ?thesis using k by auto
qed

text \<open>A writer step keeps the reader's invariant: it only makes the copy's starting number obsolete.\<close>

lemma copy_inv_writer:
  assumes "copy_inv s s0 agrees" "wr s' \<noteq> WIdle \<or> length (hist s) < length (hist s')"
    "rd_from s' = rd_from s" "length (hist s) \<le> length (hist s')"
  shows "copy_inv s' s0 agrees"
  using assms unfolding copy_inv_def by (elim exE) (rule exI, auto)

lemma reader_inv_writer:
  assumes "reader_inv s" "wr s' \<noteq> WIdle \<or> length (hist s) < length (hist s')"
    "rd_from s' = rd_from s" "rd s' = rd s" "rx_size (shared s') = rx_size (shared s)"
    "hist s' = hist s @ hs"
  shows "reader_inv s'"
proof -
  have c: "copy_inv s' s0 agrees" if "copy_inv s s0 agrees" for s0 agrees
    using copy_inv_writer [OF that assms(2,3)] assms(6) by simp
  show ?thesis
    using assms(1,3-6) c unfolding reader_inv_def
    by (auto split: reader.splits) (metis nth_append trans_less_add1)+
qed

lemma writer_step_frame:
  assumes "writer_step r k = (r', k')" "k \<noteq> WIdle"
  shows "rx_size r' = rx_size r" "k' \<noteq> WIdle \<or> is_commit k"
  using assms by (cases k; auto split: if_splits)+

lemma writer_start_frame:
  assumes "writer_start r p w c = (r', k')"
  shows "rx_size r' = rx_size r" "k' \<noteq> WIdle"
  using assms by (auto simp: writer_start_def Let_def)

lemma retry_inv: "length buf = kMaxPdoBytes \<Longrightarrow> reader_inv s \<Longrightarrow> reader_inv (s\<lparr>rd := retry a buf\<rparr>)"
  by (simp add: retry_def reader_inv_def)

lemma copy_inv_mono:
  assumes "copy_inv s s0 P" "\<And>r. r = shared s \<Longrightarrow> P r \<Longrightarrow> Q r"
  shows "copy_inv (s\<lparr>rd := k\<rparr>) s0 Q"
  using assms unfolding copy_inv_def by auto

lemma same_prefix_Suc:
  "same_prefix buf i r \<Longrightarrow> i < length buf \<Longrightarrow> same_prefix (buf[i := rx_bytes r ! i]) (Suc i) r"
  by (simp add: same_prefix_def less_Suc_eq nth_list_update)

lemma same_prefix_frame:
  assumes "same_prefix buf (rx_size r) r" "length buf = kMaxPdoBytes" "length (rx_bytes r) = kMaxPdoBytes"
    "rx_size r \<le> kMaxPdoBytes"
  shows "take (rx_size r) buf = take (rx_size r) (rx_bytes r)"
  using assms by (intro nth_equalityI) (simp_all add: same_prefix_def)

lemma read_start_copy:
  assumes "writer_inv (shared s) (wr s) (hist s)" "seq (shared s) AND 1 = 0" "rd_from s < length (hist s)"
  shows "copy_inv (s\<lparr>rd := k\<rparr>) (seq (shared s)) (same_prefix buf 0)"
proof -
  have "wr s = WIdle"
    using assms(1,2) odd_AND_1 [of "length (hist s) - 1"]
    by (auto simp: writer_inv_def split: writer.splits)
  with assms show ?thesis
    unfolding copy_inv_def writer_inv_def
    by (intro exI [of _ "length (hist s) - 1"]) (auto simp: same_prefix_def)
qed

lemma check_success:
  assumes c: "copy_inv s (seq (shared s)) (\<lambda>r. same_prefix buf (rx_size r) r \<and> w = rx_wkc r \<and> c = rx_cycle r)"
    and W: "writer_inv (shared s) (wr s) (hist s)" and "no_wrap s" "length buf = kMaxPdoBytes"
  shows "rd_from s \<le> length (hist s) - 1"
    "(take (rx_size (shared s)) buf, w, c) = hist s ! (length (hist s) - 1)" "0 < length (hist s)"
proof -
  have *: "wr s = WIdle" "same_prefix buf (rx_size (shared s)) (shared s)"
      "w = rx_wkc (shared s)" "c = rx_cycle (shared s)" and "rd_from s \<le> length (hist s) - 1"
    using copy_inv_check [OF c W assms(3) refl] by auto
  then show "rd_from s \<le> length (hist s) - 1" by simp
  show "(take (rx_size (shared s)) buf, w, c) = hist s ! (length (hist s) - 1)" "0 < length (hist s)"
    using W * same_prefix_frame [OF *(2)] assms(4)
    by (auto simp: writer_inv_def frame_of_def last_conv_nth)
qed

lemma reader_step_inv:
  assumes R: "reader_inv s" and W: "writer_inv (shared s) (wr s) (hist s)" and N: "no_wrap s"
  shows "reader_inv (s\<lparr>rd := reader_step (shared s) (rd s)\<rparr>)"
proof (cases "rd s")
  case (RSeq a buf)
  then show ?thesis
    using R retry_inv [of buf s] read_start_copy [OF W] by (auto simp: reader_inv_def)
next
  case (RBytes a s0 i buf)
  have sz: "rx_size (shared s) \<le> kMaxPdoBytes" using W by (simp add: writer_inv_def)
  have c: "copy_inv s s0 (same_prefix buf i)" "length buf = kMaxPdoBytes"
    using R RBytes by (simp_all add: reader_inv_def)
  have "copy_inv (s\<lparr>rd := k\<rparr>) s0 (same_prefix (buf[i := rx_bytes (shared s) ! i]) (Suc i))"
    if "i < rx_size (shared s)" for k
    by (rule copy_inv_mono [OF c(1)]) (use that sz c(2) in \<open>simp add: same_prefix_Suc\<close>)
  then show ?thesis
    using R RBytes by (auto simp: reader_inv_def intro: copy_inv_mono)
next
  case (RCyc a s0 buf w)
  then show ?thesis using R by (auto simp: reader_inv_def intro: copy_inv_mono)
next
  case (RCheck a s0 buf w c)
  show ?thesis
  proof (cases "s0 = seq (shared s)")
    case True
    with R RCheck have "copy_inv s (seq (shared s))
        (\<lambda>r. same_prefix buf (rx_size r) r \<and> w = rx_wkc r \<and> c = rx_cycle r)" "length buf = kMaxPdoBytes"
      by (simp_all add: reader_inv_def)
    note ok = check_success [OF this(1) W N this(2)]
    show ?thesis
      using R RCheck True ok
      by (auto simp: reader_inv_def snap_frame_def intro!: exI [of _ "length (hist s) - 1"])
  next
    case False
    then show ?thesis using R RCheck retry_inv [of buf s] by (auto simp: reader_inv_def)
  qed
qed (use R in \<open>auto simp: reader_inv_def exhausted_def\<close>)

lemma seqlock_step_inv:
  assumes "seqlock_step s s'" "seqlock_inv s" "no_wrap s"
  shows "seqlock_inv s'"
  using assms
proof (cases rule: seqlock_step.cases)
  case (start_publish payload w c r k)
  then show ?thesis
    using assms(2) writer_start_inv [of "shared s"] writer_start_frame [of "shared s"]
      reader_inv_writer [of s s' "[]"] by (auto simp: seqlock_inv_def)
next
  case (write_access r k)
  then show ?thesis
    using assms(2) writer_step_inv [of "shared s" "wr s"] writer_step_frame [of "shared s" "wr s"]
      reader_inv_writer [of s s' "if is_commit (wr s) then [frame_of r] else []"]
    by (auto simp: seqlock_inv_def)
next
  case (start_read out)
  then show ?thesis
    using assms(2) by (auto simp: seqlock_inv_def reader_inv_def reader_start_def writer_inv_def)
next
  case read_access
  then show ?thesis
    using assms(2,3) reader_step_inv [of s] by (auto simp: seqlock_inv_def)
qed

lemma seqlock_step_hist: "seqlock_step s s' \<Longrightarrow> length (hist s) \<le> length (hist s')"
  by (auto elim!: seqlock_stepE)

lemma seqlock_init_inv: "seqlock_inv (seqlock_init n)"
  by (simp add: seqlock_inv_def seqlock_init_def writer_inv_def reader_inv_def RxSnapshot_new_def)

lemma seqlock_reachable_inv:
  "seqlock_step\<^sup>*\<^sup>* (seqlock_init n) s \<Longrightarrow> no_wrap s \<Longrightarrow> seqlock_inv s"
proof (induction rule: rtranclp_induct)
  case base
  show ?case by (rule seqlock_init_inv)
next
  case (step s s')
  then have "no_wrap s" using seqlock_step_hist [of s s'] by (simp add: no_wrap_def)
  with step show ?case using seqlock_step_inv by blast
qed

subsection \<open>Properties\<close>

text \<open>
  C4. No torn reads. In every interleaving of the writer with a reader, at the granularity of single
  shared accesses, a read that ends with \<^verbatim>\<open>valid\<close> returns, as bytes, working counter and cycle
  together, one of the frames that were published (or the initial zero frame), and not one older
  than the frame that was current when the read began. The bound is that the 64-bit sequence number
  has not wrapped.
\<close>

theorem read_valid_is_published:
  assumes "seqlock_step\<^sup>*\<^sup>* (seqlock_init n) s" "no_wrap s" "rd s = RDone out" "snap_valid out"
  shows "\<exists>k. rd_from s \<le> k \<and> k < length (hist s)
           \<and> (take (snap_size out) (snap_bytes out), snap_wkc out, snap_cycle out) = hist s ! k"
  using seqlock_reachable_inv [OF assms(1,2)] assms(3,4)
  by (auto simp: seqlock_inv_def reader_inv_def snap_frame_def)

text \<open>
  Running \<^verbatim>\<open>publish\<close> or \<^verbatim>\<open>read\<close> alone, access by access, is the sequential operation.
\<close>

fun iterate :: "nat \<Rightarrow> ('a \<Rightarrow> 'a) \<Rightarrow> 'a \<Rightarrow> 'a" where
  "iterate 0 f x = x"
| "iterate (Suc n) f x = iterate n f (f x)"

lemma iterate_add: "iterate (m + n) f x = iterate n f (iterate m f x)"
  by (induction m arbitrary: x) simp_all

definition store_bytes :: "RxSnapshot \<Rightarrow> byte list \<Rightarrow> nat \<Rightarrow> RxSnapshot" where
  "store_bytes r p i = r\<lparr>rx_bytes := map (payload_byte p (rx_size r)) [0..<i] @ drop i (rx_bytes r)\<rparr>"

lemma iterate_bytes:
  assumes "n \<le> rx_size r" "rx_size r \<le> length (rx_bytes r)"
  shows "iterate n (\<lambda>(r, k). writer_step r k) (r, WBytes od p w c 0) = (store_bytes r p n, WBytes od p w c n)"
  using assms
proof (induction n)
  case (Suc n)
  have upd: "(map f [0..<n] @ drop n xs)[n := f n] = map f [0..<n] @ f n # drop (Suc n) xs"
    if "n < length xs" for f and xs :: "byte list"
    using that by (simp add: list_update_append Cons_nth_drop_Suc [symmetric])
  have "iterate (Suc n) (\<lambda>(r, k). writer_step r k) (r, WBytes od p w c 0) =
      (case (store_bytes r p n, WBytes od p w c n) of (r, k) \<Rightarrow> writer_step r k)"
    using iterate_add [of n 1 "\<lambda>(r, k). writer_step r k" "(r, WBytes od p w c 0)"] Suc by simp
  then show ?case
    using Suc.prems upd by (simp add: store_bytes_def)
qed (simp add: store_bytes_def)

text \<open>
  C38. The interleaved publication refines the sequential one: started on any state and run to its end
  without interference, the sequence of single stores leaves exactly the state \<^verbatim>\<open>publish\<close> computes:
  the payload clamped to the image size and zero-filled, the metadata, and an even sequence number.
\<close>

theorem publish_steps_refine:
  assumes "rx_size r \<le> length (rx_bytes r)"
  shows "iterate (rx_size r + 3) (\<lambda>(r, k). writer_step r k) (writer_start r payload w c) =
           (RxSnapshot_publish r payload w c, WIdle)
       \<and> seq (RxSnapshot_publish r payload w c) AND 1 = 0"
proof -
  let ?r = "r\<lparr>seq := next_odd (seq r)\<rparr>"
  have "iterate (rx_size r + 3) (\<lambda>(r, k). writer_step r k) (?r, WBytes (next_odd (seq r)) payload w c 0) =
      iterate 3 (\<lambda>(r, k). writer_step r k)
        (store_bytes ?r payload (rx_size r), WBytes (next_odd (seq r)) payload w c (rx_size r))"
    using iterate_bytes [of "rx_size r" ?r] assms by (simp add: iterate_add)
  then have "iterate (rx_size r + 3) (\<lambda>(r, k). writer_step r k) (writer_start r payload w c) =
      (RxSnapshot_publish r payload w c, WIdle)"
    by (simp add: writer_start_def Let_def numeral_3_eq_3 store_bytes_def RxSnapshot_publish_def)
  moreover have "odd (next_odd v)" for v
    by (simp add: next_odd_def even_or_iff)
  ultimately show ?thesis
    by (simp add: RxSnapshot_publish_def and_one_eq mod_2_eq_odd)
qed

theorem publish_steps_refine_witness:
  "iterate 5 (\<lambda>(r, k). writer_step r k) (writer_start (RxSnapshot_new 2) [1, 2, 3] 3 7) =
     (RxSnapshot_publish (RxSnapshot_new 2) [1, 2, 3] 3 7, WIdle)"
  using publish_steps_refine [of "RxSnapshot_new 2" "[1, 2, 3]" 3 7]
  by (simp add: RxSnapshot_new_def kMaxPdoBytes_def)

text \<open>A concrete run: a whole read of a one-byte image after its creation.\<close>

definition demo_read :: "nat \<Rightarrow> seqlock" where
  "demo_read n = iterate n (\<lambda>s. s\<lparr>rd := reader_step (shared s) (rd s)\<rparr>)
     ((seqlock_init 1)\<lparr>rd := reader_start, rd_from := 0\<rparr>)"

lemma iterate_reads_reachable:
  "seqlock_step\<^sup>*\<^sup>* s0 s \<Longrightarrow> seqlock_step\<^sup>*\<^sup>* s0 (iterate n (\<lambda>s. s\<lparr>rd := reader_step (shared s) (rd s)\<rparr>) s)"
proof (induction n arbitrary: s)
  case (Suc n)
  from rtranclp.rtrancl_into_rtrancl [OF Suc.prems read_access] show ?case by (simp add: Suc.IH)
qed simp

lemma demo_read_hist: "hist (demo_read n) = hist (seqlock_init 1)"
proof -
  have "hist (iterate n (\<lambda>s. s\<lparr>rd := reader_step (shared s) (rd s)\<rparr>) s) = hist s" for s :: seqlock
    by (induction n arbitrary: s) simp_all
  then show ?thesis by (simp add: demo_read_def)
qed

lemma demo_read_reachable: "seqlock_step\<^sup>*\<^sup>* (seqlock_init 1) (demo_read n)"
proof -
  have "seqlock_step (seqlock_init 1) ((seqlock_init 1)\<lparr>rd := reader_start, rd_from := length (hist (seqlock_init 1)) - 1\<rparr>)"
    by (rule start_read) (simp add: seqlock_init_def)
  then have "seqlock_step (seqlock_init 1) ((seqlock_init 1)\<lparr>rd := reader_start, rd_from := 0\<rparr>)"
    by (simp add: seqlock_init_def)
  then show ?thesis
    unfolding demo_read_def by (intro iterate_reads_reachable) blast
qed

definition demo_snapshot :: PdoSnapshot where
  "demo_snapshot = \<lparr>snap_bytes = replicate kMaxPdoBytes 0, snap_size = 1, snap_wkc = 0, snap_cycle = 0,
     snap_valid = True, snap_stale = False\<rparr>"

theorem read_valid_is_published_witness:
  "rd (demo_read 5) = RDone demo_snapshot \<and> no_wrap (demo_read 5)
   \<and> (\<exists>k. rd_from (demo_read 5) \<le> k \<and> k < length (hist (demo_read 5))
         \<and> (take (snap_size demo_snapshot) (snap_bytes demo_snapshot), 0, 0) = hist (demo_read 5) ! k)"
proof -
  have k: "min (Suc 0) kMaxPdoBytes = Suc 0" "0 < kMaxPdoBytes" by (simp_all add: kMaxPdoBytes_def)
  have u: "(replicate kMaxPdoBytes 0)[0 := 0] = replicate kMaxPdoBytes (0 :: byte)"
    by (rule nth_equalityI) (simp_all add: nth_list_update)
  have "no_wrap (demo_read 5)"
    by (simp add: no_wrap_def demo_read_hist seqlock_init_def)
  moreover have "demo_read (Suc (Suc (Suc (Suc (Suc 0))))) = (demo_read 0)\<lparr>rd := RDone demo_snapshot\<rparr>"
    by (simp add: demo_read_def seqlock_init_def RxSnapshot_new_def reader_start_def k u demo_snapshot_def)
  then have "rd (demo_read 5) = RDone demo_snapshot" by (simp add: eval_nat_numeral)
  ultimately show ?thesis
    using read_valid_is_published [OF demo_read_reachable, of 5 demo_snapshot]
    by (simp add: demo_snapshot_def)
qed

end
