(* ===== verification/Master.thy ===== *)
theory Master
  imports PdoMapping Snapshot
begin

text \<open>
  The bus master, \<^verbatim>\<open>src/src/ethercat/master.hpp\<close> and \<^verbatim>\<open>master.cpp\<close>: configuration checks, the bus
  configuration sequence and the field tables, the bring-up state machine, and the cyclic exchange
  with its fault latch. The record \<open>Master\<close> has the fields of the class; the atomics among them are
  plain fields, since the RT thread is their only writer.
\<close>

subsection \<open>State\<close>

definition kNsPerSec_master :: nat where
  "kNsPerSec_master = 1000000000"

definition field_key :: "u16 \<Rightarrow> u8 \<Rightarrow> u32" where
  "field_key index sub = push_bit 8 (ucast index) OR ucast sub"

record MappedField =
  mf_byte_offset :: nat
  mf_bit_length :: u16

type_synonym field_table = "u32 \<rightharpoonup> MappedField"

record SlaveRuntime =
  rt_slave_id :: u16
  rt_io :: SlaveIo
  rx_fields :: field_table
  tx_fields :: field_table
  rt_cache :: RxSnapshot

datatype BringupPhase = Settle | AwaitOp | BringupDone | BringupAborted
datatype BringupStatus = StGating | StAwaitingOp | StOperational | StAborted

record WkcStats =
  ws_expected :: int
  ws_last :: int
  ws_total_cycles :: u64
  ws_bad_cycles :: u64

record 'w Master =
  config :: MasterConfig
  backend :: "'w Impl"
  runtimes :: "SlaveRuntime list"
  bringup_phase :: BringupPhase
  bringup_settle_count :: u32
  bringup_await_count :: u32
  bringup_op_hold_streak :: u32
  bringup_al_code :: u16
  m_op_hold_confirm_cycles :: u32
  m_op_nudge_interval_cycles :: u32
  m_op_await_bound_cycles :: u32
  dc_enabled :: bool
  expected_wkc :: int
  m_cycle :: u64
  consecutive_wkc_errors :: u32
  settle_remaining :: u32
  working_counter :: int
  last_wkc :: int
  fault_wkc :: int
  fault_latched :: bool
  operational :: bool
  total_cycles :: u64
  bad_cycles :: u64

definition on_backend :: "('w Impl, 'a) em \<Rightarrow> ('w Master, 'a) em" where
  "on_backend m = (\<lambda>s. case m (backend s) of (r, b) \<Rightarrow> (r, s\<lparr>backend := b\<rparr>))"

lemma on_backend_apply [em_simps]:
  "on_backend m s = (fst (m (backend s)), s\<lparr>backend := snd (m (backend s))\<rparr>)"
  by (simp add: on_backend_def split_beta)

definition lift_pure :: "ec_error + 'a \<Rightarrow> ('s, 'a) em" where
  "lift_pure r = (case r of Inl e \<Rightarrow> em_throw e | Inr x \<Rightarrow> em_return x)"

subsection \<open>Construction\<close>

text \<open>The rates around the configured one whose truncated cycle is a multiple of the granularity.\<close>

definition rate_ok :: "nat \<Rightarrow> nat \<Rightarrow> bool" where
  "rate_ok g r \<longleftrightarrow> (kNsPerSec_master div r) mod g = 0"

definition lower_rate :: "nat \<Rightarrow> nat \<Rightarrow> nat" where
  "lower_rate g rate = (case find (rate_ok g) (rev [1..<Suc rate]) of None \<Rightarrow> 0 | Some r \<Rightarrow> r)"

definition higher_rate :: "nat \<Rightarrow> nat \<Rightarrow> nat" where
  "higher_rate g rate = (case find (rate_ok g) [rate..<1001] of None \<Rightarrow> 0 | Some r \<Rightarrow> r)"

definition nearest_rates :: "nat \<Rightarrow> nat \<Rightarrow> string" where
  "nearest_rates g rate =
     (let lower = lower_rate g rate; higher = higher_rate g rate;
          nearest = (if lower \<noteq> 0 then '' '' @ to_string_nat lower @ '' Hz'' else '''')
                  @ (if higher \<noteq> 0 then (if lower \<noteq> 0 then '' /'' else '''') @ '' '' @ to_string_nat higher @ '' Hz''
                     else '''')
      in if nearest = '''' then '' none in 1..1000 Hz'' else nearest)"

definition granularity_ok :: "nat \<Rightarrow> SlaveConfig \<Rightarrow> bool" where
  "granularity_ok cycle_ns sc \<longleftrightarrow>
     sync_cycle_granularity_ns sc = 0 \<or> cycle_ns mod unat (sync_cycle_granularity_ns sc) = 0"

definition check_granularity :: "MasterConfig \<Rightarrow> ec_error + unit" where
  "check_granularity cfg =
     (let rate = unat (target_loop_rate_hz cfg); cycle_ns = kNsPerSec_master div rate in
      case find (\<lambda>sc. \<not> granularity_ok cycle_ns sc) (slaves cfg) of
        None \<Rightarrow> Inr ()
      | Some sc \<Rightarrow> Inl (Error (''SYNC0 cycle is not a multiple of the granularity. Nearest valid rates:''
                    @ nearest_rates (unat (sync_cycle_granularity_ns sc)) rate)))"

definition await_bound :: "MasterConfig \<Rightarrow> u32" where
  "await_bound cfg =
     (let await_cycles = unat (op_await_timeout_ms cfg) * unat (target_loop_rate_hz cfg) div 1000
      in of_nat (max 1 (min await_cycles (2 ^ 32 - 1))))"

definition Master_new :: "'w ec_context \<Rightarrow> MasterConfig \<Rightarrow> ec_error + 'w Master" where
  "Master_new c cfg =
     (case check (ifname cfg = []) (Error ''Master: empty interface name'')
          (check (slaves cfg = []) (Error ''Master: no slaves configured'')
          (check (target_loop_rate_hz cfg = 0 \<or> target_loop_rate_hz cfg > 1000)
                 (Error ''Master: target_loop_rate_hz out of range (1..1000)'')
          (if use_distributed_clocks cfg then check_granularity cfg else Inr ()))) of
        Inl e \<Rightarrow> Inl e
      | Inr _ \<Rightarrow> Inr
         \<lparr>config = cfg, backend = SoemBackend_new c, runtimes = [], bringup_phase = Settle,
          bringup_settle_count = 0, bringup_await_count = 0, bringup_op_hold_streak = 0, bringup_al_code = 0,
          m_op_hold_confirm_cycles = max (op_hold_confirm_cycles cfg) 1,
          m_op_nudge_interval_cycles = max (op_nudge_interval_cycles cfg) 1,
          m_op_await_bound_cycles = await_bound cfg, dc_enabled = False, expected_wkc = 0, m_cycle = 0,
          consecutive_wkc_errors = 0, settle_remaining = 0, working_counter = 0, last_wkc = 0, fault_wkc = 0,
          fault_latched = False, operational = False, total_cycles = 0, bad_cycles = 0\<rparr>)"

definition Master_init :: "'w soem \<Rightarrow> ('w Master, unit) em" where
  "Master_init S =
     em_bind (em_gets config) (\<lambda>cfg.
     em_bind (on_backend (SoemBackend_open S (ifname cfg))) (\<lambda>count.
     if count \<noteq> length (slaves cfg)
     then em_throw (Error ''EtherCAT bus: slave count does not match the config'')
     else em_return ()))"

subsection \<open>Field tables\<close>

fun table_entries :: "nat \<Rightarrow> field_table \<Rightarrow> PdoEntry list \<Rightarrow> ec_error + (nat \<times> field_table)" where
  "table_entries b t [] = Inr (b, t)"
| "table_entries b t (e # es) =
     (if entry_index e \<noteq> 0 then
        if b mod 8 \<noteq> 0 then Inl (PdoMappingError ''mapped object is not byte-aligned'')
        else if unat (bit_length e) mod 8 \<noteq> 0
        then Inl (PdoMappingError ''mapped object width is not a whole number of bytes'')
        else table_entries (b + unat (bit_length e))
               (t(field_key (entry_index e) (entry_subindex e) \<mapsto>
                    \<lparr>mf_byte_offset = b div 8, mf_bit_length = ucast (bit_length e)\<rparr>)) es
      else table_entries (b + unat (bit_length e)) t es)"

fun table_pdos :: "PdoMap \<Rightarrow> nat \<Rightarrow> field_table \<Rightarrow> u16 list \<Rightarrow> ec_error + (nat \<times> field_table)" where
  "table_pdos m b t [] = Inr (b, t)"
| "table_pdos m b t (pdo # pdos) =
     (case map_of (map_entries m) pdo of
        None \<Rightarrow> Inl (PdoMappingError ''PDO has no entry list while building field table'')
      | Some es \<Rightarrow> (case table_entries b t es of Inl e \<Rightarrow> Inl e | Inr (b', t') \<Rightarrow> table_pdos m b' t' pdos))"

definition build_field_table :: "PdoMap \<Rightarrow> ec_error + field_table" where
  "build_field_table m =
     (case table_pdos m 0 Map.empty (pdo_indices m) of Inl e \<Rightarrow> Inl e | Inr (_, t) \<Rightarrow> Inr t)"

definition resolve_field :: "field_table \<Rightarrow> u16 \<Rightarrow> u8 \<Rightarrow> nat \<Rightarrow> ec_error + FieldLocation" where
  "resolve_field table index sub want_width =
     (case table (field_key index sub) of
        None \<Rightarrow> Inl (PdoMappingError ''object is not in the map'')
      | Some f \<Rightarrow>
          if unat (mf_bit_length f) div 8 \<noteq> want_width then Inl (Error ''width mismatch'')
          else Inr \<lparr>byte_offset = mf_byte_offset f\<rparr>)"

subsection \<open>Configuration of the bus\<close>

definition upd_last :: "(SlaveRuntime \<Rightarrow> SlaveRuntime) \<Rightarrow> 'w Master \<Rightarrow> 'w Master" where
  "upd_last f m = m\<lparr>runtimes := butlast (runtimes m) @ [f (last (runtimes m))]\<rparr>"

text \<open>The per-slave part: the size check, the runtime entry with its cache, its spans and tables.\<close>

definition configure_slave :: "SlaveConfig \<Rightarrow> ('w Master, unit) em" where
  "configure_slave sc =
     em_bind (on_backend (SoemBackend_slave_info (slave_id sc))) (\<lambda>info.
     em_bind (lift_pure (PdoMap_byte_size (rxpdo sc))) (\<lambda>rx_bytes.
     em_bind (lift_pure (PdoMap_byte_size (txpdo sc))) (\<lambda>tx_bytes.
     if output_bytes info \<noteq> rx_bytes \<or> input_bytes info \<noteq> tx_bytes
     then em_throw (PdoMappingError ''applied image differs from the configured one (remap did not take)'')
     else
     em_bind (lift_pure (PdoCache_new (input_bytes info))) (\<lambda>cache.
     em_seq (em_modify (\<lambda>m. m\<lparr>runtimes := runtimes m @
              [\<lparr>rt_slave_id = slave_id sc, rt_io = SoemBackend_slave_io (slave_id sc) (backend m),
                rx_fields = Map.empty, tx_fields = Map.empty, rt_cache = cache\<rparr>]\<rparr>))
     (em_bind (lift_pure (build_field_table (rxpdo sc))) (\<lambda>rx.
     em_seq (em_modify (upd_last (\<lambda>rt. rt\<lparr>rx_fields := rx\<rparr>)))
     (em_bind (lift_pure (build_field_table (txpdo sc))) (\<lambda>tx.
      em_modify (upd_last (\<lambda>rt. rt\<lparr>tx_fields := tx\<rparr>))))))))))"

definition configure_reset :: "'w Master \<Rightarrow> 'w Master" where
  "configure_reset m = m\<lparr>dc_enabled := use_distributed_clocks (config m), bringup_phase := Settle,
     bringup_settle_count := 0, bringup_await_count := 0, bringup_op_hold_streak := 0, bringup_al_code := 0,
     fault_latched := False, consecutive_wkc_errors := 0, settle_remaining := 0, total_cycles := 0,
     bad_cycles := 0, operational := False\<rparr>"

definition Master_configure :: "bool \<Rightarrow> 'w soem \<Rightarrow> ('w Master, unit) em" where
  "Master_configure dbg S =
     em_bind (em_gets config) (\<lambda>cfg.
     let cycle_ns = of_nat (kNsPerSec_master div unat (target_loop_rate_hz cfg)) :: u32 in
     em_seq (on_backend (SoemBackend_request_state S 0 EcatPreOp))
     (em_seq (em_for (slaves cfg) (\<lambda>sc.
        em_seq (on_backend (apply_pdo_map dbg S (slave_id sc) (rxpdo sc) Rx))
               (on_backend (apply_pdo_map dbg S (slave_id sc) (txpdo sc) Tx))))
     (em_seq (em_when (use_distributed_clocks cfg)
        (em_modify (\<lambda>m. m\<lparr>backend := SoemBackend_arm_dc_sync S cycle_ns (dc_sync0_shift_ns cfg) (backend m)\<rparr>)))
     (em_seq (on_backend (SoemBackend_map_process_data S))
     (em_seq (em_modify (\<lambda>m. m\<lparr>expected_wkc := SoemBackend_expected_wkc (backend m), runtimes := []\<rparr>))
     (em_seq (em_for (slaves cfg) configure_slave)
     (em_seq (em_when (use_distributed_clocks cfg) (on_backend (SoemBackend_configure_dc_configdc S)))
     (em_seq (on_backend (SoemBackend_request_state S 0 EcatSafeOp))
     (em_modify configure_reset)))))))))"

subsection \<open>Bring-up\<close>

definition settle_target :: "'w Master \<Rightarrow> u32" where
  "settle_target m =
     (if dc_enabled m \<and> dc_op_gate_cycles (config m) \<noteq> 0 then dc_op_gate_cycles (config m) else 1)"

definition bringup_settle :: "'w soem \<Rightarrow> 'w Master \<Rightarrow> BringupStatus \<times> 'w Master" where
  "bringup_settle S m =
     (let m1 = m\<lparr>bringup_settle_count := bringup_settle_count m + 1\<rparr>
      in (StGating,
          if bringup_settle_count m1 \<ge> settle_target m1
          then m1\<lparr>backend := SoemBackend_set_state S 0 EcatOp (backend m1), bringup_await_count := 0,
                  bringup_op_hold_streak := 0, bringup_phase := AwaitOp\<rparr>
          else m1))"

definition await_observe :: "'w soem \<Rightarrow> int \<Rightarrow> bool \<Rightarrow> bool \<Rightarrow> 'w Master \<Rightarrow> 'w Master" where
  "await_observe S wkc drive_sync_faulted drive_present m =
     (let m1 = m\<lparr>bringup_await_count := bringup_await_count m + 1\<rparr>;
          al = SoemBackend_al_status_code 1 (backend m1);
          m2 = (if al \<noteq> 0 then m1\<lparr>bringup_al_code := al\<rparr> else m1);
          m3 = (if bringup_await_count m2 mod m_op_nudge_interval_cycles m2 = 0
                then m2\<lparr>backend := SoemBackend_reack_op S 0 (backend m2)\<rparr> else m2)
      in m3\<lparr>bringup_op_hold_streak :=
            (if wkc = expected_wkc m3 \<and> \<not> drive_sync_faulted \<and> drive_present
             then bringup_op_hold_streak m3 + 1 else 0)\<rparr>)"

definition bringup_await :: "'w soem \<Rightarrow> int \<Rightarrow> bool \<Rightarrow> bool \<Rightarrow> 'w Master \<Rightarrow> BringupStatus \<times> 'w Master" where
  "bringup_await S wkc drive_sync_faulted drive_present m =
     (let m1 = await_observe S wkc drive_sync_faulted drive_present m
      in if bringup_op_hold_streak m1 \<ge> m_op_hold_confirm_cycles m1
         then (StOperational,
               m1\<lparr>operational := True,
                  settle_remaining := (if dc_enabled m1 then dc_settle_cycles (config m1) else 0),
                  fault_latched := False, consecutive_wkc_errors := 0, bringup_phase := BringupDone\<rparr>)
         else if bringup_await_count m1 \<ge> m_op_await_bound_cycles m1
         then (StAborted, m1\<lparr>bringup_phase := BringupAborted\<rparr>)
         else (StAwaitingOp, m1))"

definition Master_bringup_step :: "'w soem \<Rightarrow> bool \<Rightarrow> bool \<Rightarrow> 'w Master \<Rightarrow> BringupStatus \<times> 'w Master" where
  "Master_bringup_step S drive_sync_faulted drive_present m =
     (case SoemBackend_exchange S (backend m) of
        (wkc, b) \<Rightarrow>
          let m1 = m\<lparr>backend := b, last_wkc := wkc\<rparr> in
          (case bringup_phase m1 of
             Settle \<Rightarrow> bringup_settle S m1
           | AwaitOp \<Rightarrow> bringup_await S wkc drive_sync_faulted drive_present m1
           | BringupDone \<Rightarrow> (StOperational, m1)
           | BringupAborted \<Rightarrow> (StAborted, m1)))"

subsection \<open>The cyclic exchange\<close>

definition wkc_bad :: "'w Master \<Rightarrow> int \<Rightarrow> bool" where
  "wkc_bad m wkc \<longleftrightarrow> wkc < 0 \<or> wkc < expected_wkc m"

definition account_wkc :: "'w Master \<Rightarrow> int \<Rightarrow> 'w Master" where
  "account_wkc m wkc =
     (let m1 = m\<lparr>last_wkc := wkc, total_cycles := total_cycles m + 1,
                 bad_cycles := (if wkc_bad m wkc then bad_cycles m + 1 else bad_cycles m)\<rparr>;
          in_grace = settle_remaining m1 > 0;
          m2 = (if in_grace
                then m1\<lparr>settle_remaining := settle_remaining m1 - 1, consecutive_wkc_errors := 0\<rparr> else m1)
      in if wkc_bad m2 wkc
         then if in_grace then m2
              else let m3 = m2\<lparr>consecutive_wkc_errors := consecutive_wkc_errors m2 + 1\<rparr>
                   in if consecutive_wkc_errors m3 \<ge> max_consecutive_wkc_errors (config m3)
                      then m3\<lparr>fault_wkc := wkc, fault_latched := True, operational := False\<rparr> else m3
         else m2\<lparr>consecutive_wkc_errors := 0, working_counter := wkc\<rparr>)"

definition publish_inputs :: "int \<Rightarrow> 'w Master \<Rightarrow> 'w Master" where
  "publish_inputs wkc m =
     (let cyc = m_cycle m + 1
      in m\<lparr>m_cycle := cyc,
           runtimes := map (\<lambda>rt. rt\<lparr>rt_cache := RxSnapshot_publish (rt_cache rt) (io_inputs (rt_io rt) (backend m))
                                     (word_of_int (if wkc < 0 then 0 else wkc)) cyc\<rparr>) (runtimes m)\<rparr>)"

definition Master_process :: "'w soem \<Rightarrow> 'w Master \<Rightarrow> 'w Master" where
  "Master_process S m =
     (case SoemBackend_exchange S (backend m) of
        (wkc, b) \<Rightarrow> publish_inputs wkc (account_wkc (m\<lparr>backend := b\<rparr>) wkc))"

definition Master_close :: "'w soem \<Rightarrow> 'w Master \<Rightarrow> 'w Master" where
  "Master_close S m = m\<lparr>operational := False, backend := SoemBackend_close S (backend m)\<rparr>"

subsection \<open>Access to a slave\<close>

definition find_runtime :: "u16 \<Rightarrow> 'w Master \<Rightarrow> SlaveRuntime option" where
  "find_runtime slave m = find (\<lambda>rt. rt_slave_id rt = slave) (runtimes m)"

definition Master_outputs :: "u16 \<Rightarrow> 'w Master \<Rightarrow> byte list" where
  "Master_outputs slave m =
     (case find_runtime slave m of None \<Rightarrow> [] | Some rt \<Rightarrow> io_outputs (rt_io rt) (backend m))"

text \<open>A write through the span \<^verbatim>\<open>outputs\<close> returns, from its first byte on.\<close>

definition Master_write_outputs :: "u16 \<Rightarrow> byte list \<Rightarrow> 'w Master \<Rightarrow> 'w Master" where
  "Master_write_outputs slave bytes m =
     (case find_runtime slave m of
        None \<Rightarrow> m
      | Some rt \<Rightarrow> m\<lparr>backend := io_write_outputs (rt_io rt) bytes (backend m)\<rparr>)"

definition Master_input_image :: "u16 \<Rightarrow> 'w Master \<Rightarrow> byte list" where
  "Master_input_image slave m =
     (case find_runtime slave m of None \<Rightarrow> [] | Some rt \<Rightarrow> io_inputs (rt_io rt) (backend m))"

definition Master_read_inputs :: "u16 \<Rightarrow> 'w Master \<Rightarrow> PdoSnapshot" where
  "Master_read_inputs slave m =
     (case find_runtime slave m of None \<Rightarrow> PdoSnapshot_empty | Some rt \<Rightarrow> RxSnapshot_read (rt_cache rt))"

definition runtime_for :: "u16 \<Rightarrow> 'w Master \<Rightarrow> ec_error + SlaveRuntime" where
  "runtime_for slave m =
     (case find_runtime slave m of None \<Rightarrow> Inl (Error ''Master: unknown slave'') | Some rt \<Rightarrow> Inr rt)"

definition bind_sum :: "'e + 'a \<Rightarrow> ('a \<Rightarrow> 'e + 'b) \<Rightarrow> 'e + 'b" where
  "bind_sum r f = (case r of Inl e \<Rightarrow> Inl e | Inr x \<Rightarrow> f x)"

definition find_field :: "field_table \<Rightarrow> u16 \<Rightarrow> u8 \<Rightarrow> string \<Rightarrow> ec_error + FieldLocation" where
  "find_field t index sub msg =
     (case t (field_key index sub) of
        None \<Rightarrow> Inl (PdoMappingError msg) | Some f \<Rightarrow> Inr \<lparr>byte_offset = mf_byte_offset f\<rparr>)"

definition Master_rx_field :: "'w Master \<Rightarrow> u16 \<Rightarrow> u16 \<Rightarrow> u8 \<Rightarrow> ec_error + FieldLocation" where
  "Master_rx_field m slave index sub =
     bind_sum (runtime_for slave m) (\<lambda>rt. find_field (rx_fields rt) index sub ''object not in the RxPDO (command) map'')"

definition Master_tx_field :: "'w Master \<Rightarrow> u16 \<Rightarrow> u16 \<Rightarrow> u8 \<Rightarrow> ec_error + FieldLocation" where
  "Master_tx_field m slave index sub =
     bind_sum (runtime_for slave m) (\<lambda>rt. find_field (tx_fields rt) index sub ''object not in the TxPDO (feedback) map'')"

definition resolve_rx :: "'w Master \<Rightarrow> Field \<Rightarrow> u16 \<Rightarrow> ec_error + FieldLocation" where
  "resolve_rx m F slave =
     bind_sum (runtime_for slave m) (\<lambda>rt. resolve_field (rx_fields rt) (fd_index F) (fd_sub F) (fd_size F))"

definition resolve_tx :: "'w Master \<Rightarrow> Field \<Rightarrow> u16 \<Rightarrow> ec_error + FieldLocation" where
  "resolve_tx m F slave =
     bind_sum (runtime_for slave m) (\<lambda>rt. resolve_field (tx_fields rt) (fd_index F) (fd_sub F) (fd_size F))"

definition optional_field :: "ec_error + FieldLocation \<Rightarrow> ec_error + FieldLocation option" where
  "optional_field r =
     (case r of Inr loc \<Rightarrow> Inr (Some loc) | Inl (PdoMappingError _) \<Rightarrow> Inr None | Inl e \<Rightarrow> Inl e)"

definition try_resolve_rx :: "'w Master \<Rightarrow> Field \<Rightarrow> u16 \<Rightarrow> ec_error + FieldLocation option" where
  "try_resolve_rx m F slave = optional_field (resolve_rx m F slave)"

definition try_resolve_tx :: "'w Master \<Rightarrow> Field \<Rightarrow> u16 \<Rightarrow> ec_error + FieldLocation option" where
  "try_resolve_tx m F slave = optional_field (resolve_tx m F slave)"

definition Master_wkc_stats :: "'w Master \<Rightarrow> WkcStats" where
  "Master_wkc_stats m = \<lparr>ws_expected = expected_wkc m, ws_last = last_wkc m,
     ws_total_cycles = total_cycles m, ws_bad_cycles = bad_cycles m\<rparr>"

definition Master_dc_time :: "'w Master \<Rightarrow> int" where
  "Master_dc_time m = SoemBackend_dc_time (backend m)"

definition Master_last_error :: "'w Master \<Rightarrow> string" where
  "Master_last_error m =
     (if \<not> fault_latched m then [] else ''EtherCAT working-counter fault on '' @ ifname (config m))"

definition Master_sdo_write :: "'w soem \<Rightarrow> u16 \<Rightarrow> u16 \<Rightarrow> u8 \<Rightarrow> byte list \<Rightarrow> ('w Master, unit) em" where
  "Master_sdo_write S slave index sub data = on_backend (SoemBackend_sdo_write S slave index sub data)"

definition Master_sdo_read :: "'w soem \<Rightarrow> u16 \<Rightarrow> u16 \<Rightarrow> u8 \<Rightarrow> nat \<Rightarrow> ('w Master, nat \<times> byte list) em" where
  "Master_sdo_read S slave index sub out_size = on_backend (SoemBackend_sdo_read S slave index sub out_size)"

definition Master_refresh_slave_state :: "'w soem \<Rightarrow> u16 \<Rightarrow> 'w Master \<Rightarrow> EcatState \<times> 'w Master" where
  "Master_refresh_slave_state S slave m =
     (case SoemBackend_refresh_slave_state S slave (backend m) of (st, b) \<Rightarrow> (st, m\<lparr>backend := b\<rparr>))"

subsection \<open>The fault latch\<close>

text \<open>
  The cyclic bookkeeping over a sequence of working counters. \<open>trail\<close> is the length of the run of bad
  cycles at the end of the sequence, counted after the first \<open>g\<close> cycles only (the grace period).
\<close>

definition bad_wkc :: "int \<Rightarrow> int \<Rightarrow> bool" where
  "bad_wkc e w \<longleftrightarrow> w < 0 \<or> w < e"

fun rtrail :: "nat \<Rightarrow> int \<Rightarrow> int list \<Rightarrow> nat" where
  "rtrail g e [] = 0"
| "rtrail g e (w # rs) = (if length rs < g then 0 else if bad_wkc e w then Suc (rtrail g e rs) else 0)"

definition trail :: "nat \<Rightarrow> int \<Rightarrow> int list \<Rightarrow> nat" where
  "trail g e ws = rtrail g e (rev ws)"

lemma trail_simps [simp]:
  "trail g e [] = 0"
  "trail g e (ws @ [w]) = (if length ws < g then 0 else if bad_wkc e w then Suc (trail g e ws) else 0)"
  by (simp_all add: trail_def)

lemma account_frame [frame_simps]:
  "config (account_wkc m w) = config m"
  "expected_wkc (account_wkc m w) = expected_wkc m"
  "runtimes (account_wkc m w) = runtimes m"
  "backend (account_wkc m w) = backend m"
  "bringup_phase (account_wkc m w) = bringup_phase m"
  by (simp_all add: account_wkc_def Let_def)

lemma account_settle: "unat (settle_remaining (account_wkc m w)) = unat (settle_remaining m) - 1"
  by (auto simp: account_wkc_def Let_def unat_minus_one_pos word_less_nat_alt)

lemma account_step:
  assumes "unat (settle_remaining m) = g - k" "\<not> fault_latched m" "unat (consecutive_wkc_errors m) = t"
    "t < N" "N = unat (max_consecutive_wkc_errors (config m))" "e = expected_wkc m"
  shows "unat (settle_remaining (account_wkc m w)) = g - Suc k"
    "fault_latched (account_wkc m w) \<longleftrightarrow>
       N \<le> (if k < g then 0 else if bad_wkc e w then Suc t else 0)"
    "\<not> fault_latched (account_wkc m w) \<Longrightarrow>
       unat (consecutive_wkc_errors (account_wkc m w)) =
         (if k < g then 0 else if bad_wkc e w then Suc t else 0)"
proof -
  have grace: "0 < settle_remaining m \<longleftrightarrow> k < g"
    using assms(1) by (simp add: word_less_nat_alt)
  have N: "N < 2 ^ 32" using assms(5) unsigned_less [of "max_consecutive_wkc_errors (config m)"] by simp
  have suc: "unat (consecutive_wkc_errors m + 1) = Suc t"
    using assms(3,4) N by (intro trans [OF unat_plus_one]) simp_all
  show "unat (settle_remaining (account_wkc m w)) = g - Suc k"
    using assms(1) by (simp add: account_settle)
  show "fault_latched (account_wkc m w) \<longleftrightarrow>
      N \<le> (if k < g then 0 else if bad_wkc e w then Suc t else 0)"
    using assms grace suc
    by (auto simp: account_wkc_def Let_def wkc_bad_def bad_wkc_def word_le_nat_alt)
  show "\<not> fault_latched (account_wkc m w) \<Longrightarrow>
      unat (consecutive_wkc_errors (account_wkc m w)) =
        (if k < g then 0 else if bad_wkc e w then Suc t else 0)"
    using assms grace suc
    by (auto simp: account_wkc_def Let_def wkc_bad_def bad_wkc_def word_le_nat_alt split: if_splits)
qed

lemma account_run:
  fixes m ws
  defines "g \<equiv> unat (settle_remaining m)" and "e \<equiv> expected_wkc m"
    and "N \<equiv> unat (max_consecutive_wkc_errors (config m))" and "m' \<equiv> foldl account_wkc m ws"
  assumes "consecutive_wkc_errors m = 0" "\<not> fault_latched m" "0 < N"
  shows "config m' = config m \<and> expected_wkc m' = e \<and> unat (settle_remaining m') = g - length ws
       \<and> (fault_latched m' \<longleftrightarrow> (\<exists>k\<le>length ws. N \<le> trail g e (take k ws)))
       \<and> (\<not> fault_latched m' \<longrightarrow> unat (consecutive_wkc_errors m') = trail g e ws)"
  unfolding m'_def
proof (induction ws rule: rev_induct)
  case Nil
  then show ?case using assms by (simp add: g_def)
next
  case (snoc w ws)
  let ?m = "foldl account_wkc m ws"
  let ?t = "if length ws < g then 0 else if bad_wkc e w then Suc (trail g e ws) else 0"
  have "(\<exists>k\<le>Suc n. P k) \<longleftrightarrow> (\<exists>k\<le>n. P k) \<or> P (Suc n)" for P n
    by (auto simp: le_Suc_eq)
  then have ex: "(\<exists>k\<le>length (ws @ [w]). N \<le> trail g e (take k (ws @ [w]))) \<longleftrightarrow>
      (\<exists>k\<le>length ws. N \<le> trail g e (take k ws)) \<or> N \<le> ?t"
    by (simp cong: conj_cong)
  show ?case
  proof (cases "fault_latched ?m")
    case True
    have "fault_latched (account_wkc ?m w)"
      using True by (simp add: account_wkc_def Let_def)
    moreover have "unat (settle_remaining (account_wkc ?m w)) = g - Suc (length ws)"
      using snoc by (simp add: account_settle)
    ultimately show ?thesis
      using snoc True ex by (simp add: frame_simps)
  next
    case False
    then have t: "trail g e ws < N" using snoc by auto
    have no: "\<not> (\<exists>k\<le>length ws. N \<le> trail g e (take k ws))" using snoc False by simp
    have c: "config ?m = config m" "e = expected_wkc ?m" "N = unat (max_consecutive_wkc_errors (config ?m))"
      using snoc by (simp_all add: N_def)
    have s: "unat (settle_remaining ?m) = g - length ws" "unat (consecutive_wkc_errors ?m) = trail g e ws"
      using snoc False by simp_all
    note st = account_step [OF s(1) False s(2) t c(3,2), of w]
    show ?thesis
      unfolding ex foldl_append using st c(1) c(2) [symmetric] no by (simp add: frame_simps) blast
  qed
qed

lemma trail_ge_iff:
  "n \<le> trail g e ws \<longleftrightarrow> n = 0 \<or> (g + n \<le> length ws \<and> (\<forall>j<n. bad_wkc e (ws ! (length ws - n + j))))"
proof (induction ws arbitrary: n rule: rev_induct)
  case (snoc w ws)
  show ?case
  proof (cases n)
    case (Suc k)
    have "(\<forall>j<Suc k. bad_wkc e ((ws @ [w]) ! (length ws - k + j))) \<longleftrightarrow>
        bad_wkc e w \<and> (\<forall>j<k. bad_wkc e (ws ! (length ws - k + j)))" if "k \<le> length ws"
      using that by (auto simp: less_Suc_eq nth_append)
    then show ?thesis using snoc [of k] Suc by auto
  qed simp
qed auto

text \<open>
  C15. The working-counter fault latch. Starting from a clean counter with \<open>g\<close> grace cycles left, after
  any sequence of exchanges the fault is latched exactly if somewhere after the grace period there
  were the configured number of consecutive bad cycles (a working counter negative or short of the
  expected one). A shorter disturbance, or any disturbance inside the grace period, never latches.
\<close>

theorem fault_latch_iff:
  assumes "consecutive_wkc_errors m = 0" "fault_latched m = False" "0 < max_consecutive_wkc_errors (config m)"
    "N = unat (max_consecutive_wkc_errors (config m))"
  shows "fault_latched (foldl account_wkc m ws) \<longleftrightarrow>
    (\<exists>i. unat (settle_remaining m) \<le> i \<and> i + N \<le> length ws
       \<and> (\<forall>j<N. ws ! (i + j) < 0 \<or> ws ! (i + j) < expected_wkc m))"
proof -
  let ?g = "unat (settle_remaining m)" and ?e = "expected_wkc m"
  have N: "0 < N" using assms(3,4) by (simp add: word_less_nat_alt)
  have "fault_latched (foldl account_wkc m ws) \<longleftrightarrow> (\<exists>k\<le>length ws. N \<le> trail ?g ?e (take k ws))"
    using account_run [of m ws] assms N by simp
  also have "\<dots> \<longleftrightarrow> (\<exists>i. ?g \<le> i \<and> i + N \<le> length ws \<and> (\<forall>j<N. bad_wkc ?e (ws ! (i + j))))"
  proof
    assume "\<exists>k\<le>length ws. N \<le> trail ?g ?e (take k ws)"
    then obtain k where k: "k \<le> length ws" "N \<le> trail ?g ?e (take k ws)" by blast
    then have "?g + N \<le> k" "\<forall>j<N. bad_wkc ?e (take k ws ! (k - N + j))"
      using N by (auto simp: trail_ge_iff min_absorb2)
    with k(1) show "\<exists>i. ?g \<le> i \<and> i + N \<le> length ws \<and> (\<forall>j<N. bad_wkc ?e (ws ! (i + j)))"
      by (intro exI [of _ "k - N"]) auto
  next
    assume "\<exists>i. ?g \<le> i \<and> i + N \<le> length ws \<and> (\<forall>j<N. bad_wkc ?e (ws ! (i + j)))"
    then obtain i where "?g \<le> i" "i + N \<le> length ws" "\<forall>j<N. bad_wkc ?e (ws ! (i + j))" by auto
    then show "\<exists>k\<le>length ws. N \<le> trail ?g ?e (take k ws)"
      by (intro exI [of _ "i + N"]) (simp add: trail_ge_iff min_absorb2)
  qed
  finally show ?thesis by (simp add: bad_wkc_def)
qed

definition demo_config :: MasterConfig where
  "demo_config = MasterConfig_default\<lparr>ifname := ''eth0'', max_consecutive_wkc_errors := 2,
     op_hold_confirm_cycles := 2, op_await_timeout_ms := 3,
     slaves := [\<lparr>slave_id = 1, rxpdo = demo_map, txpdo = demo_map, sync_cycle_granularity_ns = 0\<rparr>]\<rparr>"

definition demo_master :: "ec_errort list Master" where
  "demo_master = (case Master_new (demo_context []) demo_config of Inr m \<Rightarrow> m\<lparr>expected_wkc := 3\<rparr>)"

lemma demo_master_new:
  "Master_new (demo_context []) demo_config = Inr (demo_master\<lparr>expected_wkc := 0\<rparr>)"
  "config demo_master = demo_config" "settle_remaining demo_master = 0" "expected_wkc demo_master = 3"
  "consecutive_wkc_errors demo_master = 0" "fault_latched demo_master = False"
  by (simp_all add: demo_master_def Master_new_def demo_config_def MasterConfig_default_def check_def)

theorem fault_latch_iff_witness:
  "fault_latched (foldl account_wkc demo_master [3, 0, 3, 1, -1])
   \<and> \<not> fault_latched (foldl account_wkc demo_master [3, 0, 3, 1])"
proof -
  have N: "0 < max_consecutive_wkc_errors (config demo_master)"
    "2 = unat (max_consecutive_wkc_errors (config demo_master))"
    by (simp_all add: demo_master_new demo_config_def)
  note latch = fault_latch_iff [OF demo_master_new(5,6) N]
  have "fault_latched (foldl account_wkc demo_master [3, 0, 3, 1, -1])"
    unfolding latch by (rule exI [of _ 3]) (simp add: demo_master_new numeral_2_eq_2 less_Suc_eq)
  moreover have "\<not> fault_latched (foldl account_wkc demo_master [3, 0, 3, 1])"
    unfolding latch
    by (auto simp: demo_master_new numeral_2_eq_2 less_Suc_eq le_Suc_eq all_conj_distrib nth_Cons' split: if_splits)
  ultimately show ?thesis by simp
qed

subsection \<open>Properties of the bring-up\<close>

definition bringup_cycle :: "'w soem \<Rightarrow> 'w Master \<Rightarrow> bool \<times> bool \<Rightarrow> 'w Master" where
  "bringup_cycle S m i = snd (Master_bringup_step S (fst i) (snd i) m)"

text \<open>What the phases' own code leaves unchanged and sets, layer by layer.\<close>

lemma await_observe_sel [frame_simps]:
  "config (await_observe S w f p m) = config m"
  "dc_enabled (await_observe S w f p m) = dc_enabled m"
  "expected_wkc (await_observe S w f p m) = expected_wkc m"
  "last_wkc (await_observe S w f p m) = last_wkc m"
  "bringup_phase (await_observe S w f p m) = bringup_phase m"
  "bringup_settle_count (await_observe S w f p m) = bringup_settle_count m"
  "bringup_await_count (await_observe S w f p m) = bringup_await_count m + 1"
  "m_op_hold_confirm_cycles (await_observe S w f p m) = m_op_hold_confirm_cycles m"
  "m_op_nudge_interval_cycles (await_observe S w f p m) = m_op_nudge_interval_cycles m"
  "m_op_await_bound_cycles (await_observe S w f p m) = m_op_await_bound_cycles m"
  "bringup_op_hold_streak (await_observe S w f p m) =
     (if w = expected_wkc m \<and> \<not> f \<and> p then bringup_op_hold_streak m + 1 else 0)"
  "backend (await_observe S w f p m) =
     (if (bringup_await_count m + 1) mod m_op_nudge_interval_cycles m = 0
      then SoemBackend_reack_op S 0 (backend m) else backend m)"
  by (simp_all add: await_observe_def Let_def)

lemma bringup_await_sel [frame_simps]:
  "config (snd (bringup_await S w f p m)) = config m"
  "dc_enabled (snd (bringup_await S w f p m)) = dc_enabled m"
  "expected_wkc (snd (bringup_await S w f p m)) = expected_wkc m"
  "last_wkc (snd (bringup_await S w f p m)) = last_wkc m"
  "bringup_settle_count (snd (bringup_await S w f p m)) = bringup_settle_count m"
  "m_op_hold_confirm_cycles (snd (bringup_await S w f p m)) = m_op_hold_confirm_cycles m"
  "m_op_nudge_interval_cycles (snd (bringup_await S w f p m)) = m_op_nudge_interval_cycles m"
  "m_op_await_bound_cycles (snd (bringup_await S w f p m)) = m_op_await_bound_cycles m"
  "backend (snd (bringup_await S w f p m)) = backend (await_observe S w f p m)"
  "bringup_await_count (snd (bringup_await S w f p m)) = bringup_await_count m + 1"
  "bringup_op_hold_streak (snd (bringup_await S w f p m)) = bringup_op_hold_streak (await_observe S w f p m)"
  "bringup_phase (snd (bringup_await S w f p m)) =
     (if bringup_op_hold_streak (await_observe S w f p m) \<ge> m_op_hold_confirm_cycles m then BringupDone
      else if bringup_await_count m + 1 \<ge> m_op_await_bound_cycles m then BringupAborted else bringup_phase m)"
  by (simp_all add: bringup_await_def Let_def await_observe_sel(1-10))

lemma settle_target_cong:
  "config m = config m' \<Longrightarrow> dc_enabled m = dc_enabled m' \<Longrightarrow> settle_target m = settle_target m'"
  by (simp add: settle_target_def)

lemma settle_target_wire [simp]: "settle_target (m\<lparr>backend := b, last_wkc := w\<rparr>) = settle_target m"
  by (rule settle_target_cong) simp_all

lemma settle_target_count [simp]: "settle_target (m\<lparr>bringup_settle_count := c\<rparr>) = settle_target m"
  by (rule settle_target_cong) simp_all

lemma bringup_settle_sel [frame_simps]:
  "config (snd (bringup_settle S m)) = config m"
  "dc_enabled (snd (bringup_settle S m)) = dc_enabled m"
  "expected_wkc (snd (bringup_settle S m)) = expected_wkc m"
  "last_wkc (snd (bringup_settle S m)) = last_wkc m"
  "bringup_settle_count (snd (bringup_settle S m)) = bringup_settle_count m + 1"
  "m_op_hold_confirm_cycles (snd (bringup_settle S m)) = m_op_hold_confirm_cycles m"
  "m_op_nudge_interval_cycles (snd (bringup_settle S m)) = m_op_nudge_interval_cycles m"
  "m_op_await_bound_cycles (snd (bringup_settle S m)) = m_op_await_bound_cycles m"
  "backend (snd (bringup_settle S m)) =
     (if settle_target m \<le> bringup_settle_count m + 1
      then SoemBackend_set_state S 0 EcatOp (backend m) else backend m)"
  "bringup_phase (snd (bringup_settle S m)) =
     (if settle_target m \<le> bringup_settle_count m + 1 then AwaitOp else bringup_phase m)"
  "settle_target m \<le> bringup_settle_count m + 1 \<Longrightarrow> bringup_await_count (snd (bringup_settle S m)) = 0"
  "settle_target m \<le> bringup_settle_count m + 1 \<Longrightarrow> bringup_op_hold_streak (snd (bringup_settle S m)) = 0"
  by (simp_all add: bringup_settle_def Let_def)

lemma bringup_cycle_phase:
  "bringup_cycle S m i =
     (let wkc = fst (SoemBackend_exchange S (backend m));
          m1 = m\<lparr>backend := snd (SoemBackend_exchange S (backend m)), last_wkc := wkc\<rparr> in
      if bringup_phase m = Settle then snd (bringup_settle S m1)
      else if bringup_phase m = AwaitOp then snd (bringup_await S wkc (fst i) (snd i) m1) else m1)"
  by (cases "bringup_phase m")
    (simp_all add: bringup_cycle_def Master_bringup_step_def Let_def split_beta)

lemma bringup_frame [frame_simps]:
  "config (bringup_cycle S m i) = config m"
  "dc_enabled (bringup_cycle S m i) = dc_enabled m"
  "expected_wkc (bringup_cycle S m i) = expected_wkc m"
  "m_op_hold_confirm_cycles (bringup_cycle S m i) = m_op_hold_confirm_cycles m"
  "m_op_nudge_interval_cycles (bringup_cycle S m i) = m_op_nudge_interval_cycles m"
  "m_op_await_bound_cycles (bringup_cycle S m i) = m_op_await_bound_cycles m"
  "last_wkc (bringup_cycle S m i) = fst (SoemBackend_exchange S (backend m))"
  by (simp_all add: bringup_cycle_phase Let_def frame_simps)

lemma bringup_frame_settle_target [frame_simps]: "settle_target (bringup_cycle S m i) = settle_target m"
  by (rule settle_target_cong) (simp_all add: bringup_frame)

text \<open>What a cycle does in each phase.\<close>

lemma bringup_cycle_Settle:
  assumes "bringup_phase m = Settle"
  shows "bringup_phase (bringup_cycle S m i) =
           (if bringup_settle_count m + 1 \<ge> settle_target m then AwaitOp else Settle)"
    "bringup_settle_count (bringup_cycle S m i) = bringup_settle_count m + 1"
    "bringup_settle_count m + 1 \<ge> settle_target m \<Longrightarrow>
       bringup_await_count (bringup_cycle S m i) = 0 \<and> bringup_op_hold_streak (bringup_cycle S m i) = 0"
  using assms by (simp_all add: bringup_cycle_phase Let_def bringup_settle_sel)

definition bringup_good :: "'w soem \<Rightarrow> 'w Master \<Rightarrow> bool \<times> bool \<Rightarrow> bool" where
  "bringup_good S m i \<longleftrightarrow> fst (SoemBackend_exchange S (backend m)) = expected_wkc m \<and> \<not> fst i \<and> snd i"

definition next_streak :: "'w soem \<Rightarrow> 'w Master \<Rightarrow> bool \<times> bool \<Rightarrow> u32" where
  "next_streak S m i = (if bringup_good S m i then bringup_op_hold_streak m + 1 else 0)"

lemma bringup_cycle_AwaitOp:
  assumes "bringup_phase m = AwaitOp"
  shows "bringup_phase (bringup_cycle S m i) =
           (if next_streak S m i \<ge> m_op_hold_confirm_cycles m then BringupDone
            else if bringup_await_count m + 1 \<ge> m_op_await_bound_cycles m then BringupAborted else AwaitOp)"
    "bringup_await_count (bringup_cycle S m i) = bringup_await_count m + 1"
    "bringup_op_hold_streak (bringup_cycle S m i) = next_streak S m i"
  using assms
  by (simp_all add: bringup_cycle_phase Let_def bringup_await_sel await_observe_sel(11) next_streak_def bringup_good_def)

lemma bringup_cycle_over:
  "bringup_phase m = BringupDone \<Longrightarrow> bringup_phase (bringup_cycle S m i) = BringupDone"
  "bringup_phase m = BringupAborted \<Longrightarrow> bringup_phase (bringup_cycle S m i) = BringupAborted"
  by (simp_all add: bringup_cycle_phase Let_def)

definition bringup_inv :: "'w Master \<Rightarrow> bool" where
  "bringup_inv m \<longleftrightarrow> 0 < m_op_await_bound_cycles m \<and>
     (case bringup_phase m of
        Settle \<Rightarrow> bringup_settle_count m < settle_target m
      | AwaitOp \<Rightarrow> bringup_await_count m < m_op_await_bound_cycles m
      | _ \<Rightarrow> True)"

definition bringup_over :: "'w Master \<Rightarrow> bool" where
  "bringup_over m \<longleftrightarrow> bringup_phase m = BringupDone \<or> bringup_phase m = BringupAborted"

definition bringup_bound :: "'w Master \<Rightarrow> nat" where
  "bringup_bound m =
     (case bringup_phase m of
        Settle \<Rightarrow> unat (settle_target m) - unat (bringup_settle_count m) + unat (m_op_await_bound_cycles m)
      | AwaitOp \<Rightarrow> unat (m_op_await_bound_cycles m) - unat (bringup_await_count m)
      | _ \<Rightarrow> 0)"

lemma unat_inc_less: "(a :: u32) < b \<Longrightarrow> unat (a + 1) = Suc (unat a)"
proof -
  assume "a < b"
  then have "Suc (unat a) \<le> unat b" by (simp add: word_less_nat_alt)
  also have "unat b < 2 ^ 32" using unsigned_less [of b] by simp
  finally show ?thesis by (intro unat_plus_one) simp
qed

lemma bringup_inv_step:
  assumes "bringup_inv m" shows "bringup_inv (bringup_cycle S m i)"
  using assms
  by (cases "bringup_phase m")
    (auto simp: bringup_inv_def frame_simps bringup_cycle_Settle bringup_cycle_AwaitOp bringup_cycle_over not_le)

lemma bringup_bound_step:
  assumes "bringup_inv m" "\<not> bringup_over m"
  shows "bringup_bound (bringup_cycle S m i) < bringup_bound m"
proof (cases "bringup_phase m")
  case Settle
  then have lt: "bringup_settle_count m < settle_target m" using assms by (simp add: bringup_inv_def)
  then show ?thesis
    using Settle unat_inc_less [OF lt]
    by (auto simp: bringup_bound_def bringup_cycle_Settle frame_simps word_less_nat_alt)
next
  case AwaitOp
  then have lt: "bringup_await_count m < m_op_await_bound_cycles m" using assms by (simp add: bringup_inv_def)
  then show ?thesis
    using AwaitOp unat_inc_less [OF lt]
    by (auto simp: bringup_bound_def bringup_cycle_AwaitOp frame_simps word_less_nat_alt)
qed (use assms in \<open>simp_all add: bringup_over_def\<close>)

interpretation bringup: cyclic_progress "bringup_cycle S" bringup_inv "\<lambda>_. True" bringup_over bringup_bound
  for S
proof
  fix m i
  show "bringup_inv m \<Longrightarrow> bringup_inv (bringup_cycle S m i)" by (rule bringup_inv_step)
  show "bringup_inv m \<Longrightarrow> \<not> bringup_over m \<Longrightarrow> bringup_bound (bringup_cycle S m i) < bringup_bound m"
    by (rule bringup_bound_step)
  show "bringup_over m \<Longrightarrow> bringup_over (bringup_cycle S m i)"
    by (auto simp: bringup_over_def bringup_cycle_over)
qed

text \<open>
  Bring-up ends. From a configured master, whatever the bus and the drives report, the bring-up
  is Operational or Aborted after at most the settle cycles plus the await bound, and one step later
  it still is: it never hangs and never restarts by itself.
\<close>

theorem bringup_terminates:
  assumes "bringup_phase m = Settle" "bringup_settle_count m = 0" "0 < m_op_await_bound_cycles m"
    "unat (settle_target m) + unat (m_op_await_bound_cycles m) \<le> length is"
  shows "bringup_phase (foldl (bringup_cycle S) m is) \<in> {BringupDone, BringupAborted}"
proof -
  have "0 < settle_target m" by (simp add: settle_target_def word_gt_0)
  then have "bringup_inv m" using assms by (simp add: bringup_inv_def)
  moreover have "is \<noteq> []" using assms(3,4) by (auto simp: word_less_nat_alt)
  ultimately show ?thesis
    using bringup.run_reaches_done [of "is" m S] assms by (auto simp: bringup_bound_def bringup_over_def list_all_iff)
qed

lemma await_bound_positive: "0 < await_bound cfg"
proof -
  let ?n = "max 1 (min (unat (op_await_timeout_ms cfg) * unat (target_loop_rate_hz cfg) div 1000) (2 ^ 32 - 1))"
  have "unat (of_nat ?n :: u32) = ?n" by (simp add: unat_of_nat)
  then show ?thesis
    by (simp add: await_bound_def Let_def word_less_nat_alt)
qed

text \<open>The cycles of a run that count toward the hold: the state before cycle \<open>j\<close> and its inputs.\<close>

definition good_at :: "'w soem \<Rightarrow> 'w Master \<Rightarrow> (bool \<times> bool) list \<Rightarrow> nat \<Rightarrow> bool" where
  "good_at S m is j \<longleftrightarrow> bringup_good S (foldl (bringup_cycle S) m (take j is)) (is ! j)"

lemma good_at_append: "j < length is \<Longrightarrow> good_at S m (is @ [i]) j = good_at S m is j"
  by (simp add: good_at_def nth_append)

lemma bringup_run_frame [frame_simps]:
  "m_op_hold_confirm_cycles (foldl (bringup_cycle S) m is) = m_op_hold_confirm_cycles m"
  by (induction "is" arbitrary: m) (simp_all add: frame_simps)

definition held :: "'w soem \<Rightarrow> 'w Master \<Rightarrow> (bool \<times> bool) list \<Rightarrow> nat \<Rightarrow> nat \<Rightarrow> bool" where
  "held S m is n h \<longleftrightarrow> h \<le> n \<and> n \<le> length is \<and> (\<forall>j. n - h \<le> j \<and> j < n \<longrightarrow> good_at S m is j)"

lemma held_append: "held S m is n h \<Longrightarrow> held S m (is @ [i]) n h"
  by (auto simp: held_def good_at_append)

lemma held_extend:
  assumes "held S m is (length is) h" "bringup_good S (foldl (bringup_cycle S) m is) i"
  shows "held S m (is @ [i]) (Suc (length is)) (Suc h)"
proof -
  have "good_at S m (is @ [i]) (length is)" using assms(2) by (simp add: good_at_def)
  then show ?thesis using assms(1) by (auto simp: held_def good_at_append less_Suc_eq)
qed

lemma held_zero: "n \<le> length is \<Longrightarrow> held S m is n 0"
  by (auto simp: held_def)

text \<open>During the await phase the streak counter is the number of good cycles just seen.\<close>

lemma bringup_run_held:
  fixes m S "is"
  defines "H \<equiv> m_op_hold_confirm_cycles m" and "m' \<equiv> foldl (bringup_cycle S) m is"
  assumes "bringup_phase m = Settle" "0 < H"
  shows "(bringup_phase m' = AwaitOp \<longrightarrow> bringup_op_hold_streak m' < H
            \<and> held S m is (length is) (unat (bringup_op_hold_streak m')))
       \<and> (bringup_phase m' = BringupDone \<longrightarrow> (\<exists>n. held S m is n (unat H)))"
  unfolding m'_def
proof (induction "is" rule: rev_induct)
  case Nil
  then show ?case using assms by simp
next
  case (snoc i "is")
  let ?m = "foldl (bringup_cycle S) m is"
  have H: "m_op_hold_confirm_cycles ?m = H" by (simp add: frame_simps H_def)
  show ?case
  proof (cases "bringup_phase ?m")
    case Settle
    then show ?thesis
      using assms(4) bringup_cycle_Settle [OF Settle] by (auto intro: held_zero split: if_splits)
  next
    case AwaitOp
    then have st: "bringup_op_hold_streak ?m < H"
      "held S m is (length is) (unat (bringup_op_hold_streak ?m))" using snoc by simp_all
    have held: "held S m (is @ [i]) (Suc (length is)) (unat (next_streak S ?m i))"
      using held_extend [OF st(2)] unat_inc_less [OF st(1)] by (auto simp: next_streak_def intro: held_zero)
    have le: "next_streak S ?m i \<le> H"
      using unat_inc_less [OF st(1)] st(1)
      by (simp add: next_streak_def word_le_nat_alt word_less_nat_alt)
    show ?thesis
    proof (cases "H \<le> next_streak S ?m i")
      case True
      with le have "next_streak S ?m i = H" by simp
      with held show ?thesis using bringup_cycle_AwaitOp [OF AwaitOp, of S i] H by auto
    next
      case False
      with held show ?thesis
        using bringup_cycle_AwaitOp [OF AwaitOp, of S i] H by (auto simp: not_le)
    qed
  next
    case BringupDone
    then obtain n where "held S m is n (unat H)" using snoc by auto
    then show ?thesis using bringup_cycle_over(1) [OF BringupDone, of S i] by (auto intro: held_append)
  next
    case BringupAborted
    then show ?thesis using bringup_cycle_over(2) [OF BringupAborted, of S i] by simp
  qed
qed

text \<open>
  C18. Operational is never declared on less than the configured evidence. If bring-up is Operational
  after some cycles, then there were that many consecutive cycles, all before that point, each with
  the full working counter, no sync fault reported and the drives present.
\<close>

theorem operational_needs_held_streak:
  assumes "bringup_phase m = Settle" "0 < m_op_hold_confirm_cycles m"
    "bringup_phase (foldl (bringup_cycle S) m is) = BringupDone"
  shows "\<exists>n. unat (m_op_hold_confirm_cycles m) \<le> n \<and> n \<le> length is
       \<and> (\<forall>j. n - unat (m_op_hold_confirm_cycles m) \<le> j \<and> j < n \<longrightarrow>
            (case is ! j of (drive_sync_faulted, drive_present) \<Rightarrow>
               fst (SoemBackend_exchange S (backend (foldl (bringup_cycle S) m (take j is)))) =
                 expected_wkc (foldl (bringup_cycle S) m (take j is))
               \<and> drive_sync_faulted = False \<and> drive_present))"
  using bringup_run_held [OF assms(1,2), of S "is"] assms(3)
  by (auto simp: held_def good_at_def bringup_good_def split_beta)

theorem operational_needs_held_streak_witness:
  "bringup_phase (foldl (bringup_cycle demo_soem) demo_master (replicate 4 (False, True))) = BringupDone
   \<and> (\<exists>n. 2 \<le> n \<and> n \<le> (4 :: nat))"
proof -
  let ?is = "replicate 4 (False, True)" and ?c = "\<lambda>m. bringup_cycle demo_soem m (False, True)"
  have good: "bringup_good demo_soem m (False, True) \<longleftrightarrow> expected_wkc m = 3" for m
    by (auto simp: bringup_good_def SoemBackend_exchange_def demo_soem_def)
  have m0: "bringup_phase demo_master = Settle" "m_op_hold_confirm_cycles demo_master = 2"
    "bringup_settle_count demo_master = 0" "settle_target demo_master = 1" "m_op_await_bound_cycles demo_master = 3"
    by (simp_all add: demo_master_def Master_new_def demo_config_def MasterConfig_default_def check_def
        await_bound_def settle_target_def)
  note sim = good next_streak_def frame_simps m0 demo_master_new word_le_nat_alt
  have m1: "bringup_phase (?c demo_master) = AwaitOp" "bringup_await_count (?c demo_master) = 0"
    "bringup_op_hold_streak (?c demo_master) = 0"
    using bringup_cycle_Settle [OF m0(1)] by (simp_all add: sim)
  have m2: "bringup_phase (?c (?c demo_master)) = AwaitOp" "bringup_op_hold_streak (?c (?c demo_master)) = 1"
    using bringup_cycle_AwaitOp [OF m1(1)] by (simp_all add: sim m1)
  have m3: "bringup_phase (?c (?c (?c demo_master))) = BringupDone"
    using bringup_cycle_AwaitOp [OF m2(1)] by (simp add: sim m2)
  have "bringup_phase (foldl (bringup_cycle demo_soem) demo_master ?is) = BringupDone"
    using bringup_cycle_over(1) [OF m3] by (simp add: numeral_eq_Suc)
  then show ?thesis
    using operational_needs_held_streak [of demo_master demo_soem ?is] m0 by auto
qed

text \<open>
  What one bring-up cycle does to the bus. It exchanges process data exactly once, in every phase;
  besides that it requests OP on the cycle that leaves the settle phase, which is entered only by
  configuring and never again, so OP is requested once; and in the await phase it sends the recovery
  nudge exactly every \<^verbatim>\<open>op_nudge_interval_cycles\<close> cycles. Nothing else is written.
\<close>

theorem bringup_bus_effect:
  "backend (bringup_cycle S m i) =
     (let b = snd (SoemBackend_exchange S (backend m)) in
      if bringup_phase m = Settle \<and> settle_target m \<le> bringup_settle_count m + 1
      then SoemBackend_set_state S 0 EcatOp b
      else if bringup_phase m = AwaitOp \<and> (bringup_await_count m + 1) mod m_op_nudge_interval_cycles m = 0
      then SoemBackend_reack_op S 0 b
      else b)
   \<and> (bringup_phase (bringup_cycle S m i) = Settle) =
       (bringup_phase m = Settle \<and> bringup_settle_count m + 1 < settle_target m)"
  by (cases "bringup_phase m")
    (simp_all add: bringup_cycle_phase Let_def not_less frame_simps flip: not_le)

subsection \<open>Properties of the field tables\<close>

text \<open>A table of fields that lie, byte-aligned and whole, below a bit offset.\<close>

definition table_below :: "nat \<Rightarrow> field_table \<Rightarrow> bool" where
  "table_below b t \<longleftrightarrow>
     (\<forall>k f. t k = Some f \<longrightarrow> unat (mf_bit_length f) mod 8 = 0 \<and> 8 * mf_byte_offset f + unat (mf_bit_length f) \<le> b)"

text \<open>Two fields of different objects do not overlap.\<close>

definition table_disjoint :: "field_table \<Rightarrow> bool" where
  "table_disjoint t \<longleftrightarrow>
     (\<forall>k1 k2 f1 f2. t k1 = Some f1 \<and> t k2 = Some f2 \<and> k1 \<noteq> k2 \<longrightarrow>
        8 * mf_byte_offset f1 + unat (mf_bit_length f1) \<le> 8 * mf_byte_offset f2
        \<or> 8 * mf_byte_offset f2 + unat (mf_bit_length f2) \<le> 8 * mf_byte_offset f1)"

lemma unat_ucast_bits: "unat (ucast (x :: u8) :: u16) = unat x"
proof -
  have "unat x < 2 ^ LENGTH(8)" by (rule unsigned_less)
  then show ?thesis by (simp add: unsigned_ucast_eq take_bit_nat_eq_self)
qed

lemma table_below_mono: "table_below b t \<Longrightarrow> b \<le> b' \<Longrightarrow> table_below b' t"
  by (fastforce simp: table_below_def)

lemma table_insert:
  assumes "table_below b t" "table_disjoint t" "b mod 8 = 0" "n mod 8 = 0" "unat (mf_bit_length f) = n"
    "mf_byte_offset f = b div 8"
  shows "table_below (b + n) (t(k \<mapsto> f))" "table_disjoint (t(k \<mapsto> f))"
proof -
  have b: "8 * (b div 8) = b" using assms(3) by presburger
  show "table_below (b + n) (t(k \<mapsto> f))"
    using assms b table_below_mono [OF assms(1), of "b + n"] by (simp add: table_below_def)
  show "table_disjoint (t(k \<mapsto> f))"
    unfolding table_disjoint_def
  proof (intro allI impI)
    fix k1 k2 f1 f2
    assume "(t(k \<mapsto> f)) k1 = Some f1 \<and> (t(k \<mapsto> f)) k2 = Some f2 \<and> k1 \<noteq> k2"
    moreover have "8 * mf_byte_offset f' + unat (mf_bit_length f') \<le> 8 * mf_byte_offset f"
      if "t k' = Some f'" for k' f'
      using assms(1,6) b that by (simp add: table_below_def)
    moreover have "8 * mf_byte_offset f1 + unat (mf_bit_length f1) \<le> 8 * mf_byte_offset f2
        \<or> 8 * mf_byte_offset f2 + unat (mf_bit_length f2) \<le> 8 * mf_byte_offset f1"
      if "t k1 = Some f1" "t k2 = Some f2" "k1 \<noteq> k2"
      using assms(2) that by (simp add: table_disjoint_def)
    ultimately show "8 * mf_byte_offset f1 + unat (mf_bit_length f1) \<le> 8 * mf_byte_offset f2
        \<or> 8 * mf_byte_offset f2 + unat (mf_bit_length f2) \<le> 8 * mf_byte_offset f1"
      by (metis fun_upd_apply option.inject)
  qed
qed

lemma table_entries_ok:
  assumes "table_entries b t es = Inr (b', t')" "table_below b t" "table_disjoint t"
  shows "b' = b + entry_bits es \<and> table_below b' t' \<and> table_disjoint t'"
  using assms
proof (induction es arbitrary: b t)
  case Nil
  then show ?case by (simp add: entry_bits_def)
next
  case (Cons e es)
  show ?case
  proof (cases "entry_index e = 0")
    case True
    then show ?thesis
      using Cons.IH [of "b + unat (bit_length e)" t] Cons.prems table_below_mono [of b t "b + unat (bit_length e)"]
      by (auto simp: entry_bits_def)
  next
    case False
    define t1 where "t1 = t(field_key (entry_index e) (entry_subindex e) \<mapsto>
        \<lparr>mf_byte_offset = b div 8, mf_bit_length = ucast (bit_length e)\<rparr>)"
    have al: "b mod 8 = 0" "unat (bit_length e) mod 8 = 0"
      and rest: "table_entries (b + unat (bit_length e)) t1 es = Inr (b', t')"
      using False Cons.prems by (auto simp: t1_def split: if_splits)
    have "table_below (b + unat (bit_length e)) t1" "table_disjoint t1"
      unfolding t1_def using Cons.prems al by (auto intro!: table_insert simp: unat_ucast_bits)
    then show ?thesis using Cons.IH [OF rest] by (auto simp: entry_bits_def)
  qed
qed

definition pdo_bits :: "PdoMap \<Rightarrow> nat" where
  "pdo_bits m = sum_list (map (\<lambda>pdo. entry_bits (the (map_of (map_entries m) pdo))) (pdo_indices m))"

lemma table_pdos_ok:
  assumes "table_pdos m b t pdos = Inr (b', t')" "table_below b t" "table_disjoint t"
  shows "b' = b + sum_list (map (\<lambda>pdo. entry_bits (the (map_of (map_entries m) pdo))) pdos)
       \<and> table_below b' t' \<and> table_disjoint t'"
  using assms
proof (induction pdos arbitrary: b t)
  case (Cons pdo pdos)
  obtain es b1 t1 where es: "map_of (map_entries m) pdo = Some es" "table_entries b t es = Inr (b1, t1)"
      "table_pdos m b1 t1 pdos = Inr (b', t')"
    using Cons.prems(1) by (auto split: option.splits sum.splits)
  with table_entries_ok [OF es(2)] Cons.IH [OF es(3)] Cons.prems show ?case by auto
qed simp

lemma build_field_table_ok:
  assumes "build_field_table m = Inr t"
  shows "table_below (pdo_bits m) t \<and> table_disjoint t"
proof -
  obtain b where "table_pdos m 0 Map.empty (pdo_indices m) = Inr (b, t)"
    using assms by (auto simp: build_field_table_def split: sum.splits)
  moreover have "table_below 0 Map.empty" "table_disjoint Map.empty"
    by (simp_all add: table_below_def table_disjoint_def)
  ultimately show ?thesis using table_pdos_ok by (fastforce simp: pdo_bits_def)
qed

text \<open>A map whose PDO list names each of its entry lists once, so that the byte size is the image's size.\<close>

definition PdoMap_consistent :: "PdoMap \<Rightarrow> bool" where
  "PdoMap_consistent m \<longleftrightarrow> distinct (pdo_indices m) \<and> distinct (map fst (map_entries m))
     \<and> set (pdo_indices m) = fst ` set (map_entries m)"

lemma pdo_bits_byte_size:
  assumes "PdoMap_consistent m" "PdoMap_byte_size m = Inr n"
  shows "pdo_bits m = 8 * n"
proof -
  let ?f = "\<lambda>pdo. entry_bits (the (map_of (map_entries m) pdo))"
  have "sum_list (map (entry_bits \<circ> snd) (map_entries m)) = sum_list (map (?f \<circ> fst) (map_entries m))"
    using assms(1) by (intro arg_cong [where f = sum_list] map_cong) (auto simp: PdoMap_consistent_def)
  also have "\<dots> = sum_list (map ?f (map fst (map_entries m)))" by simp
  also have "\<dots> = sum ?f (set (pdo_indices m))"
    using assms(1) by (subst sum_list_distinct_conv_sum_set) (auto simp: PdoMap_consistent_def)
  also have "\<dots> = pdo_bits m"
    using assms(1) unfolding pdo_bits_def PdoMap_consistent_def
    by (subst sum_list_distinct_conv_sum_set) auto
  finally show ?thesis
    using assms(2) by (auto simp: PdoMap_byte_size_def Let_def split: if_splits)
qed

lemma resolve_field_in_image:
  assumes "build_field_table m = Inr t" "PdoMap_consistent m" "PdoMap_byte_size m = Inr n"
    "resolve_field t index sub w = Inr loc"
  shows "byte_offset loc + w \<le> n"
proof -
  obtain f where f: "t (field_key index sub) = Some f" "w = unat (mf_bit_length f) div 8" "byte_offset loc = mf_byte_offset f"
    using assms(4) by (auto simp: resolve_field_def split: option.splits if_splits)
  have "8 * mf_byte_offset f + unat (mf_bit_length f) \<le> 8 * n" "unat (mf_bit_length f) mod 8 = 0"
    using build_field_table_ok [OF assms(1)] pdo_bits_byte_size [OF assms(2,3)] f(1)
    by (auto simp: table_below_def)
  then show ?thesis using f by linarith
qed

lemma field_key_inj: "field_key i s = field_key i' s' \<longleftrightarrow> i = i' \<and> s = s'"
proof
  assume eq: "field_key i s = field_key i' s'"
  have hi: "bit s (8 + n) = False" for s :: u8 and n
    using bit_imp_le_length [of s "8 + n"] by auto
  have "ucast (field_key i s) = s" "ucast (drop_bit 8 (field_key i s)) = i" for i s
    by (auto intro!: bit_word_eqI simp: field_key_def bit_simps hi)
  then show "i = i' \<and> s = s'" using eq by metis
qed simp

lemma resolve_field_disjoint:
  assumes "build_field_table m = Inr t" "(i1, s1) \<noteq> (i2, s2)"
    "resolve_field t i1 s1 w1 = Inr loc1" "resolve_field t i2 s2 w2 = Inr loc2"
  shows "byte_offset loc1 + w1 \<le> byte_offset loc2 \<or> byte_offset loc2 + w2 \<le> byte_offset loc1"
proof -
  obtain f1 f2 where f: "t (field_key i1 s1) = Some f1" "w1 = unat (mf_bit_length f1) div 8" "byte_offset loc1 = mf_byte_offset f1"
      "t (field_key i2 s2) = Some f2" "w2 = unat (mf_bit_length f2) div 8" "byte_offset loc2 = mf_byte_offset f2"
    using assms(3,4) by (auto simp: resolve_field_def split: option.splits if_splits)
  have d: "8 * mf_byte_offset f1 + unat (mf_bit_length f1) \<le> 8 * mf_byte_offset f2
      \<or> 8 * mf_byte_offset f2 + unat (mf_bit_length f2) \<le> 8 * mf_byte_offset f1"
    using build_field_table_ok [OF assms(1)] f(1,4) assms(2)
    unfolding table_disjoint_def by (metis field_key_inj prod.inject)
  have "unat (mf_bit_length f1) mod 8 = 0" "unat (mf_bit_length f2) mod 8 = 0"
    using build_field_table_ok [OF assms(1)] f(1,4) by (auto simp: table_below_def)
  with d f show ?thesis by linarith
qed

lemma lift_pure_Inr_iff [simp]: "lift_pure r s = (Inr x, t) \<longleftrightarrow> r = Inr x \<and> t = s"
  by (auto simp: lift_pure_def split: sum.splits)

lemma slave_info_Inr_iff:
  "on_backend (SoemBackend_slave_info slave) m = (Inr info, m') \<longleftrightarrow>
     m' = m \<and> in_range_slave (backend m) slave \<and>
     info = (let s = slavelist (ctx (backend m)) (unat slave)
            in \<lparr>position = slave, vendor_id = eep_man s, product_code = eep_id s,
                revision = eep_rev s, info_name = ec_name s,
                input_bytes = Ibytes s, output_bytes = Obytes s\<rparr>)"
  by (auto simp: on_backend_apply SoemBackend_slave_info_def em_bind_apply Let_def)


definition demo_open_master :: "ec_errort list Master" where
  "demo_open_master = demo_master\<lparr>backend := (SoemBackend_new (demo_context []))\<lparr>slave_count := 1\<rparr>\<rparr>"


subsection \<open>Properties of the constructor\<close>

text \<open>
  The constructor accepts exactly the valid configurations: a named interface, at least one slave,
  a loop rate in 1..1000 Hz and, with distributed clocks, a cycle that is a multiple of every declared
  granularity. An accepted master starts with positive bring-up bounds.
\<close>

theorem Master_new_accepts_iff:
  "(case Master_new c cfg of
      Inl _ \<Rightarrow> False
    | Inr m \<Rightarrow> config m = cfg \<and> 0 < m_op_hold_confirm_cycles m \<and> 0 < m_op_nudge_interval_cycles m
        \<and> 0 < m_op_await_bound_cycles m \<and> bringup_phase m = Settle) \<longleftrightarrow>
   ifname cfg \<noteq> [] \<and> slaves cfg \<noteq> [] \<and> 1 \<le> target_loop_rate_hz cfg \<and> target_loop_rate_hz cfg \<le> 1000
   \<and> (use_distributed_clocks cfg = False
      \<or> list_all (granularity_ok (1000000000 div unat (target_loop_rate_hz cfg))) (slaves cfg))"
proof -
  have g: "check_granularity cfg = Inr () \<longleftrightarrow>
      list_all (granularity_ok (1000000000 div unat (target_loop_rate_hz cfg))) (slaves cfg)"
    by (auto simp: check_granularity_def kNsPerSec_master_def Let_def find_None_iff find_Some_iff list_all_iff
        split: option.splits dest: nth_mem)
  have one: "1 \<le> target_loop_rate_hz cfg \<longleftrightarrow> target_loop_rate_hz cfg \<noteq> 0"
    by (metis linorder_not_less word_less_1)
  have pos: "0 < max (x :: u32) 1" for x by (simp add: less_max_iff_disj word_gt_0)
  show ?thesis
    unfolding one g [symmetric]
    by (auto simp: Master_new_def check_def pos await_bound_positive not_less split: if_splits sum.splits)
qed

lemma lower_rate_Max: "lower_rate g rate = Max (insert 0 {r \<in> {1..rate}. rate_ok g r})"
proof (induction rate)
  case 0
  then show ?case by (simp add: lower_rate_def)
next
  case (Suc n)
  have rev: "rev [1..<Suc (Suc n)] = Suc n # rev [1..<Suc n]" by simp
  show ?case
  proof (cases "rate_ok g (Suc n)")
    case True
    then have "Max (insert 0 {r \<in> {1..Suc n}. rate_ok g r}) = Suc n"
      by (intro Max_eqI) auto
    with True show ?thesis unfolding lower_rate_def rev by simp
  next
    case False
    then have "{r \<in> {1..Suc n}. rate_ok g r} = {r \<in> {1..n}. rate_ok g r}" by (auto simp: le_Suc_eq)
    with False Suc show ?thesis unfolding lower_rate_def rev by simp
  qed
qed

lemma find_upt_Min:
  assumes "find P [a..<b] = Some r" shows "Min {r \<in> {a..<b}. P r} = r"
proof -
  obtain i where i: "i < b - a" "P (a + i)" "r = a + i" "\<forall>j<i. \<not> P (a + j)"
    using assms by (auto simp: find_Some_iff)
  have "r \<le> y" if "a \<le> y" "P y" for y
    using i(3,4) that by (metis le_add_diff_inverse nat_add_left_cancel_less not_less)
  with i show ?thesis by (intro Min_eqI) auto
qed

text \<open>
  The rates suggested by the rejection message are the nearest valid ones: the largest rate at or
  below the configured one, and the smallest at or above it up to 1000 Hz, whose truncated cycle is a
  multiple of the granularity; zero stands for none.
\<close>

theorem suggested_rates_nearest:
  "lower_rate g rate = Max (insert 0 {r \<in> {1..rate}. rate_ok g r})
   \<and> higher_rate g rate =
       (if {r \<in> {rate..1000}. rate_ok g r} = {} then 0 else Min {r \<in> {rate..1000}. rate_ok g r})"
proof -
  have iv: "{rate..<1001} = {rate..1000}" by auto
  have "find (rate_ok g) [rate..<1001] = None \<longleftrightarrow> {r \<in> {rate..1000}. rate_ok g r} = {}"
    by (auto simp: find_None_iff)
  then show ?thesis
    using find_upt_Min [of "rate_ok g" rate 1001] iv
    by (auto simp: lower_rate_Max higher_rate_def split: option.splits)
qed

end
