(* ===== verification/Units.thy ===== *)
theory Units
  imports Prelude Complex_Main
begin

text \<open>
  Floating-point values and the unit conversions of the servo layer, \<^verbatim>\<open>src/src/ethercat/util.hpp\<close> and
  \<^verbatim>\<open>src/src/viam/lib/motion_profile.cpp\<close>.

  A \<^verbatim>\<open>double\<close> is a real number, an infinity or NaN. The arithmetic follows IEEE 754 on the special
  values and is exact on the finite ones: rounding, overflow to infinity and the sign of zero are not
  modelled. Comparisons with NaN are false, as in the code.
\<close>

subsection \<open>Doubles\<close>

datatype double = Fin real | PosInf | NegInf | NaN

fun isfinite :: "double \<Rightarrow> bool" where
  "isfinite (Fin _) = True"
| "isfinite _ = False"

fun dlt :: "double \<Rightarrow> double \<Rightarrow> bool" where
  "dlt (Fin a) (Fin b) = (a < b)"
| "dlt NaN _ = False"
| "dlt _ NaN = False"
| "dlt PosInf _ = False"
| "dlt _ NegInf = False"
| "dlt _ _ = True"

fun deq :: "double \<Rightarrow> double \<Rightarrow> bool" where
  "deq (Fin a) (Fin b) = (a = b)"
| "deq NaN _ = False"
| "deq PosInf PosInf = True"
| "deq NegInf NegInf = True"
| "deq _ _ = False"

definition dle :: "double \<Rightarrow> double \<Rightarrow> bool" where
  "dle a b \<longleftrightarrow> dlt a b \<or> deq a b"

fun dneg :: "double \<Rightarrow> double" where
  "dneg (Fin a) = Fin (- a)"
| "dneg PosInf = NegInf"
| "dneg NegInf = PosInf"
| "dneg NaN = NaN"

definition dabs :: "double \<Rightarrow> double" where
  "dabs a = (case a of Fin x \<Rightarrow> Fin \<bar>x\<bar> | PosInf \<Rightarrow> PosInf | NegInf \<Rightarrow> PosInf | NaN \<Rightarrow> NaN)"

fun inf_sign :: "bool \<Rightarrow> double" where
  "inf_sign True = PosInf"
| "inf_sign False = NegInf"

fun dmul :: "double \<Rightarrow> double \<Rightarrow> double" where
  "dmul (Fin a) (Fin b) = Fin (a * b)"
| "dmul NaN _ = NaN"
| "dmul _ NaN = NaN"
| "dmul (Fin a) b = (if a = 0 then NaN else inf_sign ((b = PosInf) = (0 < a)))"
| "dmul a (Fin b) = (if b = 0 then NaN else inf_sign ((a = PosInf) = (0 < b)))"
| "dmul a b = inf_sign (a = b)"

text \<open>Division, with the zero divisor taken as the positive zero.\<close>

fun ddiv :: "double \<Rightarrow> double \<Rightarrow> double" where
  "ddiv (Fin a) (Fin b) = (if b \<noteq> 0 then Fin (a / b) else if a = 0 then NaN else inf_sign (0 < a))"
| "ddiv NaN _ = NaN"
| "ddiv _ NaN = NaN"
| "ddiv (Fin a) _ = Fin 0"
| "ddiv a (Fin b) = inf_sign ((a = PosInf) = (0 \<le> b))"
| "ddiv _ _ = NaN"

definition double_of_i32 :: "i32 \<Rightarrow> double" where
  "double_of_i32 w = Fin (real_of_int (sint w))"

definition double_of_u32 :: "u32 \<Rightarrow> double" where
  "double_of_u32 w = Fin (real_of_int (uint w))"

text \<open>\<^verbatim>\<open>std::llround\<close>: to the nearest integer, halves away from zero.\<close>

definition llround :: "real \<Rightarrow> int" where
  "llround x = (if 0 \<le> x then \<lfloor>x + 1 / 2\<rfloor> else - \<lfloor>- x + 1 / 2\<rfloor>)"

subsection \<open>Unit conversions\<close>

definition i32_max :: i32 where "i32_max = 0x7FFFFFFF"
definition i32_min :: i32 where "i32_min = 0x80000000"

definition clamp_to_i32 :: "double \<Rightarrow> i32" where
  "clamp_to_i32 v =
     (if \<not> dlt (Fin (- 2147483648)) v then i32_min
      else if dle (Fin 2147483647) v then i32_max
      else case v of Fin x \<Rightarrow> word_of_int (llround x) | _ \<Rightarrow> 0)"

definition revs_to_counts :: "double \<Rightarrow> double \<Rightarrow> double \<Rightarrow> i32" where
  "revs_to_counts revs counts_per_rev gear_ratio = clamp_to_i32 (dmul (dmul revs counts_per_rev) gear_ratio)"

definition counts_to_revs :: "i32 \<Rightarrow> double \<Rightarrow> double \<Rightarrow> double" where
  "counts_to_revs counts counts_per_rev gear_ratio =
     (let denom = dmul counts_per_rev gear_ratio
      in if \<not> deq denom (Fin 0) then ddiv (double_of_i32 counts) denom else Fin 0)"

definition rpm_to_device_velocity :: "double \<Rightarrow> double \<Rightarrow> double \<Rightarrow> i32" where
  "rpm_to_device_velocity rpm counts_per_rev gear_ratio =
     clamp_to_i32 (dmul (dmul (ddiv rpm (Fin 60)) counts_per_rev) gear_ratio)"

definition device_velocity_to_rpm :: "i32 \<Rightarrow> double \<Rightarrow> double \<Rightarrow> double" where
  "device_velocity_to_rpm dev counts_per_rev gear_ratio =
     (let denom = dmul counts_per_rev gear_ratio
      in if \<not> deq denom (Fin 0) then dmul (ddiv (double_of_i32 dev) denom) (Fin 60) else Fin 0)"

text \<open>\<^verbatim>\<open>std::clamp\<close> on ordered bounds: NaN compares false and passes through.\<close>

definition clamp_rpm :: "double \<Rightarrow> double \<Rightarrow> double" where
  "clamp_rpm rpm max_rpm =
     (let bound = (if dlt (Fin 0) max_rpm then max_rpm else Fin 0)
      in if dlt rpm (dneg bound) then dneg bound else if dlt bound rpm then bound else rpm)"

subsection \<open>Properties\<close>

lemma llround_of_int [simp]: "llround (real_of_int n) = n"
proof -
  have "\<lfloor>real_of_int k + 1 / 2\<rfloor> = k" for k by linarith
  from this [of n] this [of "- n"] show ?thesis by (auto simp: llround_def)
qed

lemma llround_signed [simp]: "llround (signed (w :: i32)) = sint w"
  using llround_of_int [of "sint w"] by (simp only: of_int_sint)

lemma llround_near: "\<bar>real_of_int (llround x) - x\<bar> \<le> 1 / 2"
proof (cases "0 \<le> x")
  case True
  then have "llround x = \<lfloor>x + 1 / 2\<rfloor>" by (simp add: llround_def)
  then show ?thesis by linarith
next
  case False
  then have "llround x = - \<lfloor>- x + 1 / 2\<rfloor>" by (simp add: llround_def)
  then show ?thesis by linarith
qed

lemma i32_range: "- 2147483648 \<le> sint (w :: i32)" "sint (w :: i32) \<le> 2147483647"
  using sint_range_size [of w] by (simp_all add: word_size)

lemma sint_i32_of_int:
  "- 2147483648 \<le> n \<Longrightarrow> n \<le> 2147483647 \<Longrightarrow> sint (word_of_int n :: i32) = n"
  by (simp add: signed_take_bit_int_eq_self sint_sbintrunc')

lemma sint_i32_ends: "sint i32_max = 2147483647" "sint i32_min = - 2147483648"
  by (simp_all add: i32_max_def i32_min_def)

text \<open>The value as a number is the nearest integer, saturated at the ends of the range; NaN is the least.\<close>

lemma sint_clamp_to_i32_Fin:
  "sint (clamp_to_i32 (Fin x)) = max (- 2147483648) (min 2147483647 (llround x))"
proof -
  have near: "real_of_int (llround x) \<le> x + 1 / 2" "x - 1 / 2 \<le> real_of_int (llround x)"
    using llround_near [of x] by linarith+
  consider "x \<le> - 2147483648" | "2147483647 \<le> x" | "- 2147483648 < x" "x < 2147483647" by linarith
  then show ?thesis
  proof cases
    case 1
    with near have "llround x \<le> - 2147483648" by linarith
    with 1 show ?thesis by (simp add: clamp_to_i32_def sint_i32_ends)
  next
    case 2
    with near have "2147483647 \<le> llround x" by linarith
    with 2 show ?thesis by (simp add: clamp_to_i32_def sint_i32_ends dle_def)
  next
    case 3
    with near have "- 2147483648 \<le> llround x" "llround x \<le> 2147483647" by linarith+
    with 3 show ?thesis by (simp add: clamp_to_i32_def dle_def sint_i32_of_int)
  qed
qed

lemma clamp_to_i32_special:
  "clamp_to_i32 PosInf = i32_max" "clamp_to_i32 NegInf = i32_min" "clamp_to_i32 NaN = i32_min"
  by (simp_all add: clamp_to_i32_def dle_def)

lemma clamp_to_i32_double_of_i32 [simp]: "clamp_to_i32 (Fin (signed (w :: i32))) = w"
proof -
  have "sint (clamp_to_i32 (Fin (signed w))) = sint w"
    using i32_range [of w] by (simp add: sint_clamp_to_i32_Fin)
  then show ?thesis by (simp add: signed_word_eqI)
qed

lemma revs_of_counts:
  "cpr * g \<noteq> 0 \<Longrightarrow> revs_to_counts (counts_to_revs c (Fin cpr) (Fin g)) (Fin cpr) (Fin g) = c"
proof -
  assume "cpr * g \<noteq> 0"
  then have nz: "cpr \<noteq> 0" "g \<noteq> 0" by auto
  then have "real_of_int (sint c) / (cpr * g) * cpr * g = real_of_int (sint c)" by simp
  then show ?thesis
    using nz by (simp add: revs_to_counts_def counts_to_revs_def Let_def double_of_i32_def
        del: times_divide_eq_left times_divide_eq_right)
qed



end
