(* ===== verification/ServoConfig.thy ===== *)
theory ServoConfig
  imports Master Units
begin

text \<open>
  The configuration of one servo drive, \<^verbatim>\<open>src/src/viam/lib/servo_config.hpp\<close> and \<^verbatim>\<open>servo_config.cpp\<close>, with
  the two helpers of \<^verbatim>\<open>servo_controller.cpp\<close> that turn it into what the lower layers take
  (\<open>validated\<close> and \<open>build_master_config\<close>). The lemmas say which configurations \<open>validate\<close> accepts and that
  the fixed PDO maps give every object the driver uses a location of the right width.
\<close>

subsection \<open>Data\<close>

datatype MotionModeKind = CyclicPosition | Profile

definition to_string_kind :: "MotionModeKind \<Rightarrow> string" where
  "to_string_kind mode = (if mode = CyclicPosition then ''csp'' else ''profile'')"

record TorqueObject =
  to_index :: u16
  to_sub :: u8
  to_type :: string
  units_per_percent :: double

record Homing =
  h_method :: i8
  h_speed_rpm :: double
  h_accel_rpm_per_s :: double
  h_torque_percent :: double
  h_timeout_s :: double
  h_torque :: TorqueObject

record AbsoluteEncoder =
  ae_index :: u16
  ae_sub :: u8
  ae_type :: string
  ae_equals :: double
  ae_invalid_codes :: "u16 list"

record ServoConfig =
  sv_ifname :: string
  sv_slave_id :: u16
  sv_motion_mode :: MotionModeKind
  sv_rxpdo :: PdoMap
  sv_txpdo :: PdoMap
  max_motor_speed_rpm :: double
  max_accel_rpm_per_s :: double
  motor_rated_current_amps :: double
  gear_ratio :: double
  counts_per_rev :: double
  position_tolerance_counts :: i32
  sv_loop_rate_hz :: u32
  sv_require_realtime :: bool
  sv_rt_priority :: int
  sv_use_dc :: bool
  sv_sync_granularity_ns :: u32
  sv_max_wkc_errors :: int
  command_queue_capacity :: nat
  sv_quick_stop_decel :: u32
  homing :: Homing
  absolute_encoder :: AbsoluteEncoder
  estop_fault_code :: u16
  controlled_stop_window_ms :: u32
  fault_reset_window_cycles :: u32
  fault_reset_clear_confirm_cycles :: u32

definition PdoMap_default :: PdoMap where
  "PdoMap_default = \<lparr>assign_index_override = 0, pdo_indices = [], map_entries = []\<rparr>"

definition Homing_default :: Homing where
  "Homing_default = \<lparr>h_method = 0, h_speed_rpm = Fin 0, h_accel_rpm_per_s = Fin 0, h_torque_percent = Fin 0,
     h_timeout_s = Fin 120,
     h_torque = \<lparr>to_index = 0, to_sub = 0, to_type = ''u16'', units_per_percent = Fin 10\<rparr>\<rparr>"

definition ServoConfig_default :: ServoConfig where
  "ServoConfig_default = \<lparr>sv_ifname = [], sv_slave_id = 1, sv_motion_mode = CyclicPosition,
     sv_rxpdo = PdoMap_default, sv_txpdo = PdoMap_default, max_motor_speed_rpm = Fin 0, max_accel_rpm_per_s = Fin 0,
     motor_rated_current_amps = Fin 0, gear_ratio = Fin 1, counts_per_rev = Fin 0, position_tolerance_counts = 0,
     sv_loop_rate_hz = 1000, sv_require_realtime = True, sv_rt_priority = 80, sv_use_dc = False,
     sv_sync_granularity_ns = 0, sv_max_wkc_errors = 5, command_queue_capacity = 64, sv_quick_stop_decel = 0,
     homing = Homing_default,
     absolute_encoder = \<lparr>ae_index = 0, ae_sub = 0, ae_type = ''u16'', ae_equals = Fin 0, ae_invalid_codes = []\<rparr>,
     estop_fault_code = 0, controlled_stop_window_ms = 1000, fault_reset_window_cycles = 200,
     fault_reset_clear_confirm_cycles = 3\<rparr>"

subsection \<open>The fixed PDO maps\<close>

text \<open>Assignment through \<^verbatim>\<open>operator[]\<close> of a \<^verbatim>\<open>std::map\<close>: the entry is replaced, or inserted in key order.\<close>

fun map_put :: "u16 \<Rightarrow> 'a \<Rightarrow> (u16 \<times> 'a) list \<Rightarrow> (u16 \<times> 'a) list" where
  "map_put k v [] = [(k, v)]"
| "map_put k v ((k', v') # kvs) =
     (if k = k' then (k, v) # kvs else if k < k' then (k, v) # (k', v') # kvs else (k', v') # map_put k v kvs)"

definition pdo_entry :: "u16 \<Rightarrow> u8 \<Rightarrow> PdoEntry" where
  "pdo_entry index bits = \<lparr>entry_index = index, entry_subindex = 0, bit_length = bits\<rparr>"

definition fixed_rx_entries :: "MotionModeKind \<Rightarrow> PdoEntry list" where
  "fixed_rx_entries mode =
     (if mode = CyclicPosition then [pdo_entry 0x6040 16, pdo_entry 0x607A 32]
      else [pdo_entry 0x6040 16, pdo_entry 0x6060 8, pdo_entry 0x607A 32, pdo_entry 0x6081 32, pdo_entry 0x60FF 32])"

definition fixed_tx_entries :: "PdoEntry list" where
  "fixed_tx_entries = [pdo_entry 0x603F 16, pdo_entry 0x6041 16, pdo_entry 0x6061 8, pdo_entry 0x6064 32,
     pdo_entry 0x606C 32, pdo_entry 0x6077 16]"

definition set_fixed_pdo_map :: "ServoConfig \<Rightarrow> ServoConfig" where
  "set_fixed_pdo_map c =
     c\<lparr>sv_rxpdo := (sv_rxpdo c)\<lparr>pdo_indices := [0x1600],
          map_entries := map_put 0x1600 (fixed_rx_entries (sv_motion_mode c)) (map_entries (sv_rxpdo c))\<rparr>,
       sv_txpdo := (sv_txpdo c)\<lparr>pdo_indices := [0x1A00],
          map_entries := map_put 0x1A00 fixed_tx_entries (map_entries (sv_txpdo c))\<rparr>\<rparr>"

subsection \<open>Validation\<close>

definition isnan :: "double \<Rightarrow> bool" where
  "isnan d \<longleftrightarrow> d = NaN"

definition validate_homing :: "Homing \<Rightarrow> ec_error + unit" where
  "validate_homing h =
     (if h_method h = 0 then Inr ()
      else
        check (\<not> dlt (Fin 0) (h_speed_rpm h)) (Error ''servo config: homing.speed_rpm must be > 0'')
       (check (\<not> dle (Fin 0) (h_accel_rpm_per_s h)) (Error ''servo config: homing.acceleration_rpm_per_s must be >= 0'')
       (check (dlt (h_torque_percent h) (Fin 0) \<or> dlt (Fin 300) (h_torque_percent h) \<or> isnan (h_torque_percent h))
          (Error ''servo config: homing.torque_percent must be within 0..300'')
       (check (dlt (Fin 0) (h_torque_percent h) \<and> to_index (h_torque h) = 0)
          (Error ''servo config: homing.torque_percent needs homing.torque_object'')
       (check (\<not> dlt (Fin 0) (h_timeout_s h)) (Error ''servo config: homing.timeout_s must be > 0'')
       (Inr ()))))))"

definition validate :: "ServoConfig \<Rightarrow> ec_error + unit" where
  "validate c =
     check (sv_ifname c = []) (Error ''servo config: ifname must not be empty'')
    (check (sv_slave_id c < 1) (Error ''servo config: slave_id must be >= 1'')
    (check (sv_motion_mode c = CyclicPosition \<and> \<not> sv_use_dc c)
       (Error ''servo config: control_mode csp requires use_distributed_clocks = true'')
    (check (\<not> dle (Fin 0) (max_motor_speed_rpm c)) (Error ''servo config: max_motor_speed_rpm must be >= 0'')
    (check (\<not> dlt (Fin 0) (motor_rated_current_amps c)) (Error ''servo config: motor_rated_current_amps must be > 0'')
    (check (deq (gear_ratio c) (Fin 0)) (Error ''servo config: gear_ratio must not be 0'')
    (check (\<not> dlt (Fin 0) (counts_per_rev c)) (Error ''servo config: counts_per_rev must be > 0'')
    (check (dlt (max_accel_rpm_per_s c) (Fin 0)) (Error ''servo config: max_accel_rpm_per_s must be >= 0'')
    (check (sint (position_tolerance_counts c) < 0) (Error ''servo config: position_tolerance_counts must be >= 0'')
    (check (sv_loop_rate_hz c = 0 \<or> sv_loop_rate_hz c > 1000)
       (Error ''servo config: target_loop_rate_hz out of range (1..1000)'')
    (check (sv_rt_priority c < 1 \<or> sv_rt_priority c > 99) (Error ''servo config: rt_priority out of range (1..99)'')
    (check (command_queue_capacity c = 0) (Error ''servo config: command_queue_capacity must be > 0'')
    (validate_homing (homing c)))))))))))))"

subsection \<open>What the lower layers take\<close>

text \<open>
  \<^verbatim>\<open>static_cast<int32_t>(std::lround(counts_per_rev / 720))\<close>: a rounded value outside the \<^verbatim>\<open>int32\<close> range
  wraps; an infinite resolution, which passes validation, rounds to an unspecified number (0 here).
\<close>

definition half_degree :: "double \<Rightarrow> i32" where
  "half_degree cpr = (case ddiv cpr (Fin 720) of Fin x \<Rightarrow> word_of_int (llround x) | _ \<Rightarrow> 0)"

definition validated :: "ServoConfig \<Rightarrow> ec_error + ServoConfig" where
  "validated c =
     (case validate c of
        Inl e \<Rightarrow> Inl e
      | Inr _ \<Rightarrow>
          let c1 = set_fixed_pdo_map c
          in Inr (if sint (position_tolerance_counts c1) \<le> 0
                  then c1\<lparr>position_tolerance_counts :=
                         (if sint (half_degree (counts_per_rev c1)) < 1 then 1 else half_degree (counts_per_rev c1))\<rparr>
                  else c1))"

definition build_master_config :: "ServoConfig \<Rightarrow> MasterConfig" where
  "build_master_config c =
     MasterConfig_default\<lparr>ifname := sv_ifname c, target_loop_rate_hz := sv_loop_rate_hz c,
       slaves := [\<lparr>slave_id = sv_slave_id c, rxpdo = sv_rxpdo c, txpdo = sv_txpdo c,
                   sync_cycle_granularity_ns = sv_sync_granularity_ns c\<rparr>],
       max_consecutive_wkc_errors := word_of_int (sv_max_wkc_errors c),
       use_distributed_clocks := sv_use_dc c,
       dc_settle_cycles := (if sv_use_dc c then 1000 else 0)\<rparr>"

subsection \<open>Properties\<close>

lemma set_fixed_pdo_map_frame [simp]:
  "sv_motion_mode (set_fixed_pdo_map c) = sv_motion_mode c" "sv_loop_rate_hz (set_fixed_pdo_map c) = sv_loop_rate_hz c"
  "position_tolerance_counts (set_fixed_pdo_map c) = position_tolerance_counts c"
  "counts_per_rev (set_fixed_pdo_map c) = counts_per_rev c" "sv_ifname (set_fixed_pdo_map c) = sv_ifname c"
  "gear_ratio (set_fixed_pdo_map c) = gear_ratio c" "sv_use_dc (set_fixed_pdo_map c) = sv_use_dc c"
  by (simp_all add: set_fixed_pdo_map_def)

lemma map_put_put [simp]: "map_put k v (map_put k w kvs) = map_put k v kvs"
  by (induction k w kvs rule: map_put.induct) auto

text \<open>As its comment says, fixing the maps twice is fixing them once.\<close>

lemma set_fixed_pdo_map_idem: "set_fixed_pdo_map (set_fixed_pdo_map c) = set_fixed_pdo_map c"
  by (simp add: set_fixed_pdo_map_def)

lemma validate_homing_Inr:
  "validate_homing h = Inr () \<longleftrightarrow> h_method h = 0 \<or>
     (dlt (Fin 0) (h_speed_rpm h) \<and> dle (Fin 0) (h_accel_rpm_per_s h) \<and> dlt (Fin 0) (h_timeout_s h)
      \<and> (\<exists>t. h_torque_percent h = Fin t \<and> 0 \<le> t \<and> t \<le> 300 \<and> (0 < t \<longrightarrow> to_index (h_torque h) \<noteq> 0)))"
  by (cases "h_torque_percent h") (auto simp: validate_homing_def isnan_def)

lemma validate_loop_rate:
  "validate c = Inr () \<Longrightarrow> 0 < unat (sv_loop_rate_hz c) \<and> unat (sv_loop_rate_hz c) \<le> 1000"
  by (auto simp: validate_def word_le_nat_alt not_less unat_gt_0)

lemma byte_aligned_entries:
  "table_entries b t (pdo_entry i n # es) =
     (if i = 0 then table_entries (b + unat n) t es
      else if b mod 8 \<noteq> 0 then Inl (PdoMappingError ''mapped object is not byte-aligned'')
      else if unat n mod 8 \<noteq> 0 then Inl (PdoMappingError ''mapped object width is not a whole number of bytes'')
      else table_entries (b + unat n)
             (t(field_key i 0 \<mapsto> \<lparr>mf_byte_offset = b div 8, mf_bit_length = ucast n\<rparr>)) es)"
  by (simp add: pdo_entry_def)

text \<open>The objects the driver reads and writes, with the byte offset each has in the fixed image.\<close>

definition rx_layout :: "MotionModeKind \<Rightarrow> (Field \<times> nat) list" where
  "rx_layout mode =
     (if mode = CyclicPosition then [(ControlWord_field, 0), (TargetPosition_field, 2)]
      else [(ControlWord_field, 0), (ModeOfOperation_field, 2), (TargetPosition_field, 3), (ProfileVelocity_field, 7),
            (TargetVelocity_field, 11)])"

definition tx_layout :: "(Field \<times> nat) list" where
  "tx_layout = [(FaultCode_field, 0), (Statusword_field, 2), (ModeDisplay_field, 4), (PositionActual_field, 5),
     (VelocityActual_field, 9)]"

definition located :: "field_table \<Rightarrow> Field \<times> nat \<Rightarrow> bool" where
  "located t fo \<longleftrightarrow> resolve_field t (fd_index (fst fo)) (fd_sub (fst fo)) (fd_size (fst fo)) = Inr \<lparr>byte_offset = snd fo\<rparr>"

lemma field_keys:
  "field_key 0x6040 0 = 0x604000" "field_key 0x6060 0 = 0x606000" "field_key 0x607A 0 = 0x607A00"
  "field_key 0x6081 0 = 0x608100" "field_key 0x60FF 0 = 0x60FF00" "field_key 0x603F 0 = 0x603F00"
  "field_key 0x6041 0 = 0x604100" "field_key 0x6061 0 = 0x606100" "field_key 0x6064 0 = 0x606400"
  "field_key 0x606C 0 = 0x606C00" "field_key 0x6077 0 = 0x607700"
  by (simp_all add: field_key_def)

definition mapped_at :: "nat \<Rightarrow> u16 \<Rightarrow> MappedField" where
  "mapped_at n w = \<lparr>mf_byte_offset = n, mf_bit_length = w\<rparr>"

lemma mapped_at_sel [simp]: "mf_byte_offset (mapped_at n w) = n" "mf_bit_length (mapped_at n w) = w"
  by (simp_all add: mapped_at_def)

definition rx_table :: "MotionModeKind \<Rightarrow> field_table" where
  "rx_table mode =
     (if mode = CyclicPosition then [0x604000 \<mapsto> mapped_at 0 16, 0x607A00 \<mapsto> mapped_at 2 32]
      else [0x604000 \<mapsto> mapped_at 0 16, 0x606000 \<mapsto> mapped_at 2 8, 0x607A00 \<mapsto> mapped_at 3 32,
            0x608100 \<mapsto> mapped_at 7 32, 0x60FF00 \<mapsto> mapped_at 11 32])"

definition tx_table :: field_table where
  "tx_table = [0x603F00 \<mapsto> mapped_at 0 16, 0x604100 \<mapsto> mapped_at 2 16, 0x606100 \<mapsto> mapped_at 4 8,
     0x606400 \<mapsto> mapped_at 5 32, 0x606C00 \<mapsto> mapped_at 9 32, 0x607700 \<mapsto> mapped_at 13 16]"

lemma fixed_rx_table:
  "sv_rxpdo c = PdoMap_default \<Longrightarrow> build_field_table (sv_rxpdo (set_fixed_pdo_map c)) = Inr (rx_table (sv_motion_mode c))"
  by (simp add: set_fixed_pdo_map_def build_field_table_def PdoMap_default_def fixed_rx_entries_def
      byte_aligned_entries field_keys rx_table_def flip: mapped_at_def del: table_entries.simps(2))

lemma fixed_tx_table:
  "sv_txpdo c = PdoMap_default \<Longrightarrow> build_field_table (sv_txpdo (set_fixed_pdo_map c)) = Inr tx_table"
  by (simp add: set_fixed_pdo_map_def build_field_table_def PdoMap_default_def fixed_tx_entries_def
      byte_aligned_entries field_keys tx_table_def flip: mapped_at_def del: table_entries.simps(2))

lemma rx_located: "list_all (located (rx_table mode)) (rx_layout mode)"
  by (simp add: rx_layout_def located_def resolve_field_def field_defs field_keys rx_table_def)

lemma tx_located: "list_all (located tx_table) tx_layout"
  by (simp add: tx_layout_def located_def resolve_field_def field_defs field_keys tx_table_def)

text \<open>
  The fixed PDO maps are usable as they stand: on a configuration whose maps are the defaults, the
  maps set for the motion mode have the byte sizes the images need (6 or 15 command bytes, 15 feedback
  bytes), the field tables are built without an error, and every object the driver uses resolves, with
  its width, to the documented place: so \<open>resolve_fields\<close> and the modes never fail on them.
\<close>

theorem fixed_map_resolves:
  assumes "sv_rxpdo c = PdoMap_default" "sv_txpdo c = PdoMap_default"
  shows "PdoMap_byte_size (sv_rxpdo (set_fixed_pdo_map c)) = Inr (if sv_motion_mode c = CyclicPosition then 6 else 15)
     \<and> PdoMap_byte_size (sv_txpdo (set_fixed_pdo_map c)) = Inr 15
     \<and> (\<exists>t. build_field_table (sv_rxpdo (set_fixed_pdo_map c)) = Inr t \<and> list_all (located t) (rx_layout (sv_motion_mode c)))
     \<and> (\<exists>t. build_field_table (sv_txpdo (set_fixed_pdo_map c)) = Inr t \<and> list_all (located t) tx_layout)"
proof -
  have "PdoMap_byte_size (sv_rxpdo (set_fixed_pdo_map c)) = Inr (if sv_motion_mode c = CyclicPosition then 6 else 15)"
    "PdoMap_byte_size (sv_txpdo (set_fixed_pdo_map c)) = Inr 15"
    using assms by (simp_all add: PdoMap_byte_size_def set_fixed_pdo_map_def PdoMap_default_def fixed_rx_entries_def
        fixed_tx_entries_def entry_bits_def pdo_entry_def)
  then show ?thesis using assms by (simp add: fixed_rx_table fixed_tx_table rx_located tx_located)
qed

definition demo_servo_config :: ServoConfig where
  "demo_servo_config = ServoConfig_default\<lparr>sv_ifname := ''eth0'', sv_motion_mode := Profile, max_motor_speed_rpm := Fin 3000,
     motor_rated_current_amps := Fin 5, counts_per_rev := Fin 131072, sv_quick_stop_decel := 500000\<rparr>"

text \<open>
  A configuration that passes validation is one the rest of the program can run on: the tolerance
  that decides ``at rest'' is at least one count, the loop rate is within 1..1000 Hz, and (when the
  distributed clock is off, or its granularity divides the cycle) the master accepts the configuration
  built from it.
\<close>

theorem validated_config_accepted:
  assumes "validated c = Inr c'"
    and "\<not> sv_use_dc c \<or> granularity_ok (kNsPerSec_master div unat (sv_loop_rate_hz c))
           \<lparr>slave_id = sv_slave_id c', rxpdo = sv_rxpdo c', txpdo = sv_txpdo c',
            sync_cycle_granularity_ns = sv_sync_granularity_ns c'\<rparr>"
  shows "1 \<le> sint (position_tolerance_counts c') \<and> 0 < unat (sv_loop_rate_hz c') \<and> unat (sv_loop_rate_hz c') \<le> 1000
     \<and> (\<exists>m. Master_new k (build_master_config c') = Inr m)"
proof -
  from assms(1) have v: "validate c = Inr ()" and c': "c' = (if sint (position_tolerance_counts c) \<le> 0
      then (set_fixed_pdo_map c)\<lparr>position_tolerance_counts :=
             (if sint (half_degree (counts_per_rev c)) < 1 then 1 else half_degree (counts_per_rev c))\<rparr>
      else set_fixed_pdo_map c)"
    by (auto simp: validated_def Let_def split: sum.splits)
  have same: "sv_loop_rate_hz c' = sv_loop_rate_hz c" "sv_ifname c' = sv_ifname c" "sv_use_dc c' = sv_use_dc c"
    by (simp_all add: c')
  have tol: "1 \<le> sint (position_tolerance_counts c')" by (auto simp: c')
  from v have ne: "sv_ifname c \<noteq> []" by (simp add: validate_def)
  note rate = validate_loop_rate [OF v]
  have hz: "sv_loop_rate_hz c \<noteq> 0" "\<not> sv_loop_rate_hz c > 1000"
    using rate by (auto simp: word_less_nat_alt)
  have "\<exists>m. Master_new k (build_master_config c') = Inr m"
    using assms(2) ne hz
    by (auto simp: Master_new_def build_master_config_def MasterConfig_default_def same check_granularity_def)
  with tol rate show ?thesis by (simp add: same)
qed

end
