(* ===== verification/CycleContext.thy ===== *)
theory CycleContext
  imports Master
begin

text \<open>
  The surfaces the runner hands to a control, \<^verbatim>\<open>src/src/ethercat/runner.hpp\<close>: \<^verbatim>\<open>CycleContext\<close> on the RT
  path (typed access to the copied images, the stop channel, the bus health), and \<^verbatim>\<open>ConfigContext\<close>
  before it (field resolution and SDOs bound to one slave).

  The context's images are the valid prefixes of its fixed 512-byte buffers. The context of the code
  reaches the runner's state through a pointer; here it carries the values a hook can read and
  records whether the hook asked to stop, which the runner applies when the hook returns.
\<close>

datatype StopReason = NoReason | Requested | BusFault | BringupAbortedReason | RtSetupFailed | Wedged

fun to_string_reason :: "StopReason \<Rightarrow> string" where
  "to_string_reason NoReason = ''None''"
| "to_string_reason Requested = ''Requested''"
| "to_string_reason BusFault = ''BusFault''"
| "to_string_reason BringupAbortedReason = ''BringupAborted''"
| "to_string_reason RtSetupFailed = ''RtSetupFailed''"
| "to_string_reason Wedged = ''Wedged''"

record CycleContext =
  cc_inputs :: "byte list"
  cc_outputs :: "byte list"
  cc_cycle :: u64
  cc_dc_time :: int
  cc_stopping :: bool
  cc_wkc :: WkcStats
  cc_fault :: bool
  cc_stop_requested :: bool

definition ctx_load :: "CycleContext \<Rightarrow> FieldLocation \<Rightarrow> 'a::len word" where
  "ctx_load c loc = load_at (cc_inputs c) loc"

definition ctx_store :: "FieldLocation \<Rightarrow> 'a::len word \<Rightarrow> CycleContext \<Rightarrow> CycleContext" where
  "ctx_store loc v c = c\<lparr>cc_outputs := store_at (cc_outputs c) loc v\<rparr>"

definition ctx_request_stop :: "CycleContext \<Rightarrow> CycleContext" where
  "ctx_request_stop c = c\<lparr>cc_stop_requested := True\<rparr>"

text \<open>A guarded store at an optional location.\<close>

definition ctx_store_opt :: "FieldLocation option \<Rightarrow> 'a::len word \<Rightarrow> CycleContext \<Rightarrow> CycleContext" where
  "ctx_store_opt l v c = (case l of None \<Rightarrow> c | Some loc \<Rightarrow> ctx_store loc v c)"

lemma ctx_store_frame [simp]:
  "cc_inputs (ctx_store loc v c) = cc_inputs c"
  "cc_stopping (ctx_store loc v c) = cc_stopping c"
  "cc_cycle (ctx_store loc v c) = cc_cycle c"
  "cc_dc_time (ctx_store loc v c) = cc_dc_time c"
  "cc_fault (ctx_store loc v c) = cc_fault c"
  "cc_wkc (ctx_store loc v c) = cc_wkc c"
  "cc_stop_requested (ctx_store loc v c) = cc_stop_requested c"
  by (simp_all add: ctx_store_def)

lemma ctx_store_opt_frame [simp]:
  "cc_inputs (ctx_store_opt l v c) = cc_inputs c"
  "cc_stopping (ctx_store_opt l v c) = cc_stopping c"
  "cc_stop_requested (ctx_store_opt l v c) = cc_stop_requested c"
  "cc_fault (ctx_store_opt l v c) = cc_fault c"
  by (simp_all add: ctx_store_opt_def split: option.splits)

lemma ctx_request_stop_frame [simp]:
  "cc_inputs (ctx_request_stop c) = cc_inputs c"
  "cc_outputs (ctx_request_stop c) = cc_outputs c"
  "cc_stopping (ctx_request_stop c) = cc_stopping c"
  by (simp_all add: ctx_request_stop_def)

lemma ctx_store_length [simp]:
  "byte_offset loc + LENGTH('a) div 8 \<le> length (cc_outputs c) \<Longrightarrow>
   length (cc_outputs (ctx_store loc (v :: 'a::len word) c)) = length (cc_outputs c)"
proof -
  have len: "length (store_le xs v) = length xs" for xs :: "byte list"
  proof -
    have "length (fold (\<lambda>i f. f[i := g i]) is xs) = length xs" for g :: "nat \<Rightarrow> byte" and "is"
      by (induction "is" arbitrary: xs) simp_all
    then show ?thesis by (simp add: store_le_def)
  qed
  assume "byte_offset loc + LENGTH('a) div 8 \<le> length (cc_outputs c)"
  then show ?thesis by (simp add: ctx_store_def store_at_def len)
qed

subsection \<open>The configuration surface\<close>

definition cfg_resolve_rx :: "u16 \<Rightarrow> Field \<Rightarrow> ('w Master, FieldLocation) em" where
  "cfg_resolve_rx slave F = (\<lambda>m. (resolve_rx m F slave, m))"

definition cfg_resolve_tx :: "u16 \<Rightarrow> Field \<Rightarrow> ('w Master, FieldLocation) em" where
  "cfg_resolve_tx slave F = (\<lambda>m. (resolve_tx m F slave, m))"

definition cfg_try_resolve_rx :: "u16 \<Rightarrow> Field \<Rightarrow> ('w Master, FieldLocation option) em" where
  "cfg_try_resolve_rx slave F = (\<lambda>m. (try_resolve_rx m F slave, m))"

definition cfg_try_resolve_tx :: "u16 \<Rightarrow> Field \<Rightarrow> ('w Master, FieldLocation option) em" where
  "cfg_try_resolve_tx slave F = (\<lambda>m. (try_resolve_tx m F slave, m))"

definition cfg_sdo_write :: "'w soem \<Rightarrow> u16 \<Rightarrow> u16 \<Rightarrow> u8 \<Rightarrow> byte list \<Rightarrow> ('w Master, unit) em" where
  "cfg_sdo_write S slave index sub data = Master_sdo_write S slave index sub data"

definition cfg_sdo_read :: "'w soem \<Rightarrow> u16 \<Rightarrow> u16 \<Rightarrow> u8 \<Rightarrow> nat \<Rightarrow> ('w Master, nat \<times> byte list) em" where
  "cfg_sdo_read S slave index sub out_size = Master_sdo_read S slave index sub out_size"

end
