(* ===== verification/Cia402.thy ===== *)
theory Cia402
  imports Prelude
begin

text \<open>
  The CiA402 data model: \<^verbatim>\<open>src/src/ethercat/cia402.hpp\<close> and \<^verbatim>\<open>cia402.cpp\<close>. Modes of operation,
  drive states, the statusword view \<open>Status\<close> with its decoder, the controlword encoders and the
  stateless goal-seeking helper \<open>Cia402Fsm_step\<close>. The lemmas characterise the decoder by its
  mask table (in any test order), state which controlwords each state can receive, and lift the
  one-step table to the enable ladder.
\<close>

subsection \<open>Modes and states\<close>

text \<open>
  \<open>Cia402Mode\<close> is a scoped enum over \<open>int8_t\<close> and can hold every value of that type (the code
  casts a mode echo to it), so a mode is its wire value.
\<close>

type_synonym Cia402Mode = i8

definition Mode_None :: Cia402Mode where "Mode_None = 0"
definition ProfilePosition :: Cia402Mode where "ProfilePosition = 1"
definition ProfileVelocity :: Cia402Mode where "ProfileVelocity = 3"
definition CyclicSyncPosition :: Cia402Mode where "CyclicSyncPosition = 8"
definition Mode_Homing :: Cia402Mode where "Mode_Homing = 6"

lemmas mode_defs =
  Mode_None_def ProfilePosition_def ProfileVelocity_def CyclicSyncPosition_def Mode_Homing_def

datatype Cia402State =
    NotReadyToSwitchOn
  | SwitchOnDisabled
  | ReadyToSwitchOn
  | SwitchedOn
  | OperationEnabled
  | QuickStopActive
  | FaultReactionActive
  | Fault

fun to_string_state :: "Cia402State \<Rightarrow> string" where
  "to_string_state NotReadyToSwitchOn = ''NotReadyToSwitchOn''"
| "to_string_state SwitchOnDisabled = ''SwitchOnDisabled''"
| "to_string_state ReadyToSwitchOn = ''ReadyToSwitchOn''"
| "to_string_state SwitchedOn = ''SwitchedOn''"
| "to_string_state OperationEnabled = ''OperationEnabled''"
| "to_string_state QuickStopActive = ''QuickStopActive''"
| "to_string_state FaultReactionActive = ''FaultReactionActive''"
| "to_string_state Fault = ''Fault''"

definition to_string_mode :: "Cia402Mode \<Rightarrow> string" where
  "to_string_mode m =
     (if m = Mode_None then ''None''
      else if m = ProfilePosition then ''ProfilePosition''
      else if m = ProfileVelocity then ''ProfileVelocity''
      else if m = CyclicSyncPosition then ''CyclicSyncPosition''
      else if m = Mode_Homing then ''Homing''
      else ''Unknown'')"

subsection \<open>Statusword\<close>

record Status =
  sw_raw :: u16

definition Status_bit :: "Status \<Rightarrow> nat \<Rightarrow> bool" where
  "Status_bit st n \<longleftrightarrow> sw_raw st AND push_bit n 1 \<noteq> 0"

definition ready_to_switch_on :: "Status \<Rightarrow> bool" where "ready_to_switch_on st = Status_bit st 0"
definition switched_on :: "Status \<Rightarrow> bool" where "switched_on st = Status_bit st 1"
definition operation_enabled :: "Status \<Rightarrow> bool" where "operation_enabled st = Status_bit st 2"
definition status_fault :: "Status \<Rightarrow> bool" where "status_fault st = Status_bit st 3"
definition voltage_enabled :: "Status \<Rightarrow> bool" where "voltage_enabled st = Status_bit st 4"
definition status_quick_stop :: "Status \<Rightarrow> bool" where "status_quick_stop st = Status_bit st 5"
definition switch_on_disabled :: "Status \<Rightarrow> bool" where "switch_on_disabled st = Status_bit st 6"
definition status_warning :: "Status \<Rightarrow> bool" where "status_warning st = Status_bit st 7"
definition remote :: "Status \<Rightarrow> bool" where "remote st = Status_bit st 9"
definition internal_limit_active :: "Status \<Rightarrow> bool" where
  "internal_limit_active st = Status_bit st 11"
definition target_reached :: "Status \<Rightarrow> bool" where "target_reached st = Status_bit st 10"
definition setpoint_acknowledged :: "Status \<Rightarrow> bool" where
  "setpoint_acknowledged st = Status_bit st 12"
definition following_error :: "Status \<Rightarrow> bool" where "following_error st = Status_bit st 13"
definition homing_attained :: "Status \<Rightarrow> bool" where "homing_attained st = Status_bit st 12"
definition homing_error :: "Status \<Rightarrow> bool" where "homing_error st = Status_bit st 13"

lemmas status_bit_defs =
  ready_to_switch_on_def switched_on_def operation_enabled_def status_fault_def voltage_enabled_def
  status_quick_stop_def switch_on_disabled_def status_warning_def remote_def
  internal_limit_active_def target_reached_def setpoint_acknowledged_def following_error_def
  homing_attained_def homing_error_def

definition kStateMaskLow :: u32 where "kStateMaskLow = 0x4F"
definition kStateMaskFull :: u32 where "kStateMaskFull = 0x6F"

definition Status_decode :: "Status \<Rightarrow> Cia402State" where
  "Status_decode st =
     (let s = (ucast (sw_raw st) :: u32) in
      if s AND kStateMaskLow = 0x00 then NotReadyToSwitchOn
      else if s AND kStateMaskLow = 0x40 then SwitchOnDisabled
      else if s AND kStateMaskFull = 0x21 then ReadyToSwitchOn
      else if s AND kStateMaskFull = 0x23 then SwitchedOn
      else if s AND kStateMaskFull = 0x27 then OperationEnabled
      else if s AND kStateMaskFull = 0x07 then QuickStopActive
      else if s AND kStateMaskLow = 0x0F then FaultReactionActive
      else if s AND kStateMaskLow = 0x08 then Fault
      else Fault)"

subsection \<open>Controlword\<close>

definition kNewSetpointBit :: u16 where "kNewSetpointBit = 0x0010"
definition kRelativeBit :: u16 where "kRelativeBit = 0x0040"
definition kFaultResetBit :: u16 where "kFaultResetBit = 0x0080"
definition kHaltBit :: u16 where "kHaltBit = 0x0100"

definition shutdown :: u16 where "shutdown = 0x0006"
definition switch_on :: u16 where "switch_on = 0x0007"
definition enable_operation :: u16 where "enable_operation = 0x000F"
definition disable_voltage :: u16 where "disable_voltage = 0x0000"
definition quick_stop :: u16 where "quick_stop = 0x0002"
definition fault_reset :: u16 where "fault_reset = kFaultResetBit"

definition with_halt :: "u16 \<Rightarrow> bool \<Rightarrow> u16" where
  "with_halt base halt = (if halt then base OR kHaltBit else base AND NOT kHaltBit)"

definition with_new_setpoint :: "u16 \<Rightarrow> bool \<Rightarrow> u16" where
  "with_new_setpoint base new_setpoint =
     (if new_setpoint then base OR kNewSetpointBit else base AND NOT kNewSetpointBit)"

lemmas cw_bit_defs = kNewSetpointBit_def kRelativeBit_def kFaultResetBit_def kHaltBit_def

lemmas cw_defs =
  shutdown_def switch_on_def enable_operation_def disable_voltage_def quick_stop_def
  fault_reset_def

subsection \<open>The goal-seeking helper\<close>

fun ladder_step :: "Cia402State \<Rightarrow> u16" where
  "ladder_step SwitchOnDisabled = shutdown"
| "ladder_step ReadyToSwitchOn = switch_on"
| "ladder_step SwitchedOn = enable_operation"
| "ladder_step OperationEnabled = enable_operation"
| "ladder_step QuickStopActive = enable_operation"
| "ladder_step NotReadyToSwitchOn = disable_voltage"
| "ladder_step FaultReactionActive = disable_voltage"
| "ladder_step Fault = disable_voltage"

definition Cia402Fsm_step :: "Status \<Rightarrow> Cia402State \<Rightarrow> u16" where
  "Cia402Fsm_step current goal =
     (let state = Status_decode current in
      if state = Fault then fault_reset
      else if state = FaultReactionActive then disable_voltage
      else (case goal of
          SwitchOnDisabled \<Rightarrow> disable_voltage
        | ReadyToSwitchOn \<Rightarrow> shutdown
        | QuickStopActive \<Rightarrow> quick_stop
        | SwitchedOn \<Rightarrow> (if state = SwitchOnDisabled then shutdown else switch_on)
        | _ \<Rightarrow> ladder_step state))"

subsection \<open>Statusword bits\<close>

lemma Status_bit_iff: "Status_bit st n \<longleftrightarrow> bit (sw_raw st) n"
  by (simp add: Status_bit_def bit_iff_and_push_bit_not_eq_0)

subsection \<open>The decoder as the DS402 mask table\<close>

text \<open>The state coding of the standard: for each state the mask and the pattern under it.\<close>

fun ds402_mask :: "Cia402State \<Rightarrow> u32" where
  "ds402_mask NotReadyToSwitchOn = 0x4F"
| "ds402_mask SwitchOnDisabled = 0x4F"
| "ds402_mask ReadyToSwitchOn = 0x6F"
| "ds402_mask SwitchedOn = 0x6F"
| "ds402_mask OperationEnabled = 0x6F"
| "ds402_mask QuickStopActive = 0x6F"
| "ds402_mask FaultReactionActive = 0x4F"
| "ds402_mask Fault = 0x4F"

fun ds402_pattern :: "Cia402State \<Rightarrow> u32" where
  "ds402_pattern NotReadyToSwitchOn = 0x00"
| "ds402_pattern SwitchOnDisabled = 0x40"
| "ds402_pattern ReadyToSwitchOn = 0x21"
| "ds402_pattern SwitchedOn = 0x23"
| "ds402_pattern OperationEnabled = 0x27"
| "ds402_pattern QuickStopActive = 0x07"
| "ds402_pattern FaultReactionActive = 0x0F"
| "ds402_pattern Fault = 0x08"

definition ds402_matches :: "Status \<Rightarrow> Cia402State \<Rightarrow> bool" where
  "ds402_matches st s \<longleftrightarrow> (ucast (sw_raw st) :: u32) AND ds402_mask s = ds402_pattern s"

lemma ds402_matches_full:
  "ds402_matches st s \<longleftrightarrow>
   ((ucast (sw_raw st) :: u32) AND 0x6F) AND ds402_mask s = ds402_pattern s"
  by (cases s) (simp_all add: ds402_matches_def and.assoc)

lemma ds402_exclusive:
  assumes "ds402_matches st a" "ds402_matches st b"
  shows "a = b"
proof -
  let ?v = "(ucast (sw_raw st) :: u32) AND 0x6F"
  have low: "?v AND 0x4F = (ucast (sw_raw st) :: u32) AND 0x4F"
    by (simp add: and.assoc)
  show ?thesis
    using assms
    by (cases a; cases b) (auto simp: ds402_matches_def simp flip: low)
qed

lemma Status_decode_matches:
  "Status_decode st =
     (if ds402_matches st NotReadyToSwitchOn then NotReadyToSwitchOn
      else if ds402_matches st SwitchOnDisabled then SwitchOnDisabled
      else if ds402_matches st ReadyToSwitchOn then ReadyToSwitchOn
      else if ds402_matches st SwitchedOn then SwitchedOn
      else if ds402_matches st OperationEnabled then OperationEnabled
      else if ds402_matches st QuickStopActive then QuickStopActive
      else if ds402_matches st FaultReactionActive then FaultReactionActive
      else Fault)"
  by (simp add: Status_decode_def ds402_matches_def Let_def kStateMaskLow_def kStateMaskFull_def)

lemma ds402_unmatched_iff:
  "(\<forall>x. \<not> ds402_matches st x) \<longleftrightarrow>
   \<not> (ds402_matches st NotReadyToSwitchOn \<or> ds402_matches st SwitchOnDisabled \<or>
      ds402_matches st ReadyToSwitchOn \<or> ds402_matches st SwitchedOn \<or>
      ds402_matches st OperationEnabled \<or> ds402_matches st QuickStopActive \<or>
      ds402_matches st FaultReactionActive \<or> ds402_matches st Fault)"
  by (metis Cia402State.exhaust)

text \<open>
  The decoder is the DS402 mask table, in any test order: it answers a state exactly when the
  statusword matches that state's pattern, and a word that matches no pattern decodes to Fault, so
  an ill-formed word is never reported as operational.
\<close>

theorem Status_decode_table:
  "Status_decode st = s \<longleftrightarrow>
   ds402_matches st s \<or> s = Fault \<and> (\<forall>x. \<not> ds402_matches st x)"
proof (cases "\<exists>x. ds402_matches st x")
  case True
  then obtain x where x: "ds402_matches st x" by blast
  then have only: "ds402_matches st y \<longleftrightarrow> y = x" for y
    by (blast dest: ds402_exclusive)
  have "Status_decode st = x"
    by (cases x) (simp_all add: Status_decode_matches only)
  with only x show ?thesis by auto
next
  case False
  then have "Status_decode st = Fault" by (simp add: Status_decode_matches)
  with False show ?thesis by auto
qed

lemma decode_OperationEnabled_bit: "Status_decode st = OperationEnabled \<Longrightarrow> operation_enabled st"
proof -
  assume "Status_decode st = OperationEnabled"
  then have "(ucast (sw_raw st) :: u32) AND 0x6F = 0x27"
    by (auto simp: Status_decode_matches ds402_matches_def split: if_splits)
  then have "bit ((ucast (sw_raw st) :: u32) AND 0x6F) 2" by simp
  then show ?thesis
    by (simp add: operation_enabled_def Status_bit_iff bit_and_iff bit_ucast_iff)
qed

lemma decode_Fault_reaction_bit: "Status_decode st = FaultReactionActive \<Longrightarrow> status_fault st"
proof -
  assume "Status_decode st = FaultReactionActive"
  then have "(ucast (sw_raw st) :: u32) AND 0x4F = 0x0F"
    by (auto simp: Status_decode_matches ds402_matches_def split: if_splits)
  then have "bit ((ucast (sw_raw st) :: u32) AND 0x4F) 3" by simp
  then show ?thesis
    by (simp add: status_fault_def Status_bit_iff bit_and_iff bit_ucast_iff)
qed

subsection \<open>The goal-seeking helper\<close>

lemmas Cia402Fsm_step_simps = Cia402Fsm_step_def Let_def

lemma fsm_enable_iff:
  "Cia402Fsm_step st goal = enable_operation \<longleftrightarrow>
   Status_decode st \<in> {SwitchedOn, OperationEnabled, QuickStopActive} \<and>
   goal \<in> {NotReadyToSwitchOn, OperationEnabled, FaultReactionActive, Fault}"
  by (cases "Status_decode st"; cases goal)
    (simp_all add: Cia402Fsm_step_simps cw_defs cw_bit_defs)

text \<open>
  The helper writes the enable-operation controlword from the switched-on states only, and only
  when the goal asks for the enable ladder: a drive that is not yet switched on, is disabled,
  faulted or in its fault reaction is never told to energise.
\<close>

theorem Cia402Fsm_step_energize:
  "Cia402Fsm_step st goal = enable_operation \<longleftrightarrow>
   Status_decode st \<in> {SwitchedOn, OperationEnabled, QuickStopActive} \<and>
   goal \<in> {NotReadyToSwitchOn, OperationEnabled, FaultReactionActive, Fault}"
  by (rule fsm_enable_iff)

lemma Cia402Fsm_step_no_mode_bits:
  "\<not> bit (Cia402Fsm_step st goal) 4 \<and> \<not> bit (Cia402Fsm_step st goal) 8"
  by (cases "Status_decode st"; cases goal)
    (simp_all add: Cia402Fsm_step_simps cw_defs cw_bit_defs)

subsection \<open>The enable ladder\<close>

text \<open>
  The drive's side of the ladder, as documented by CiA402: shutdown takes Switch-on-disabled to
  Ready-to-switch-on (transition 2), switch-on takes that to Switched-on (3), enable-operation takes
  that to Operation-enabled (4) and holds it there. \<open>respond\<close> is the drive, \<open>sw\<close> the statusword it
  publishes in a state.
\<close>

definition follows_ds402 :: "(Cia402State \<Rightarrow> u16 \<Rightarrow> Cia402State) \<Rightarrow> bool" where
  "follows_ds402 respond \<longleftrightarrow>
     respond SwitchOnDisabled shutdown = ReadyToSwitchOn \<and>
     respond ReadyToSwitchOn switch_on = SwitchedOn \<and>
     respond SwitchedOn enable_operation = OperationEnabled \<and>
     respond OperationEnabled enable_operation = OperationEnabled"

definition enable_cycle ::
  "(Cia402State \<Rightarrow> u16 \<Rightarrow> Cia402State) \<Rightarrow> (Cia402State \<Rightarrow> Status) \<Rightarrow> Cia402State \<Rightarrow> Cia402State" where
  "enable_cycle respond sw s = respond s (Cia402Fsm_step (sw s) OperationEnabled)"

lemma enable_cycle_climbs:
  assumes "follows_ds402 respond" and "\<And>s. Status_decode (sw s) = s"
  shows "enable_cycle respond sw SwitchOnDisabled = ReadyToSwitchOn"
    and "enable_cycle respond sw ReadyToSwitchOn = SwitchedOn"
    and "enable_cycle respond sw SwitchedOn = OperationEnabled"
    and "enable_cycle respond sw OperationEnabled = OperationEnabled"
  using assms by (simp_all add: enable_cycle_def Cia402Fsm_step_simps follows_ds402_def)

text \<open>
  The enable ladder completes: driven by the helper toward Operation-enabled, a drive that
  follows the documented transitions reaches Operation-enabled within three cycles from any state
  of the ladder, and stays there.
\<close>

theorem enable_ladder_reaches_operational:
  assumes "follows_ds402 respond" and "\<And>s. Status_decode (sw s) = s"
    and "s \<in> {SwitchOnDisabled, ReadyToSwitchOn, SwitchedOn, OperationEnabled}"
    and "3 \<le> n"
  shows "(enable_cycle respond sw ^^ n) s = OperationEnabled"
proof -
  note climb = enable_cycle_climbs [OF assms(1,2)]
  have stay: "(enable_cycle respond sw ^^ k) OperationEnabled = OperationEnabled" for k
    by (induction k) (simp_all add: climb)
  have "(enable_cycle respond sw ^^ 3) s = OperationEnabled"
    using assms(3) by (auto simp: numeral_3_eq_3 climb)
  moreover obtain k where "n = k + 3" using assms(4) by (metis add.commute le_Suc_ex)
  ultimately show ?thesis by (simp only: funpow_add comp_apply stay)
qed

definition demo_respond :: "Cia402State \<Rightarrow> u16 \<Rightarrow> Cia402State" where
  "demo_respond s cw =
     (if s = SwitchOnDisabled \<and> cw = 6 then ReadyToSwitchOn
      else if s = ReadyToSwitchOn \<and> cw = 7 then SwitchedOn
      else if s = SwitchedOn \<and> cw = 15 then OperationEnabled
      else s)"

fun demo_sw :: "Cia402State \<Rightarrow> Status" where
  "demo_sw NotReadyToSwitchOn = \<lparr>sw_raw = 0x0200\<rparr>"
| "demo_sw SwitchOnDisabled = \<lparr>sw_raw = 0x0240\<rparr>"
| "demo_sw ReadyToSwitchOn = \<lparr>sw_raw = 0x0221\<rparr>"
| "demo_sw SwitchedOn = \<lparr>sw_raw = 0x0223\<rparr>"
| "demo_sw OperationEnabled = \<lparr>sw_raw = 0x0237\<rparr>"
| "demo_sw QuickStopActive = \<lparr>sw_raw = 0x0217\<rparr>"
| "demo_sw FaultReactionActive = \<lparr>sw_raw = 0x021F\<rparr>"
| "demo_sw Fault = \<lparr>sw_raw = 0x0218\<rparr>"

lemma demo_sw_decode: "Status_decode (demo_sw s) = s"
  by (cases s) (simp_all add: Status_decode_def kStateMaskLow_def kStateMaskFull_def)

end
