(* ===== verification/Sequencer.thy ===== *)
theory Sequencer
  imports CycleContext Cia402
begin

text \<open>
  The CiA402 motion sequencer, \<^verbatim>\<open>src/src/ethercat/cia402_sequencer.hpp\<close>: per cycle it walks the enable
  ladder, checks the mode echo, runs the four-phase new-set-point handshake of the profile-position
  mode, and quick-stops in the stopping window. The properties are those the drive relies on: what
  the written controlword is, that a new-set-point edge never coincides with a halt release, and that
  the handshake ends.
\<close>

subsection \<open>State\<close>

record SequencerCommand =
  cmd_mode :: Cia402Mode
  target_counts :: i32
  profile_velocity :: u32
  target_velocity :: i32
  cmd_enable :: bool
  cmd_halt :: bool
  new_setpoint :: bool

record SequencerState =
  current_mode :: i8
  fault_code :: u16
  mode_mismatch :: bool
  handshake_idle :: bool
  handshake_timed_out :: bool

datatype Handshake = HsIdle | WriteTarget | AwaitAck | ClearBit4 | AwaitAckClear

definition kSetpointHaltSettleCycles :: u32 where "kSetpointHaltSettleCycles = 2"
definition kHandshakeTimeoutCycles :: u32 where "kHandshakeTimeoutCycles = 100"
definition kQuickStopDecel :: u16 where "kQuickStopDecel = 0x6085"
definition kQuickStopOption :: u16 where "kQuickStopOption = 0x605A"
definition kQuickStopCw :: u16 where "kQuickStopCw = enable_operation AND NOT 0x0004"

record Sequencer =
  sq_state :: SequencerState
  handshake :: Handshake
  handshake_cycles_remaining :: u32
  halt_clear_cycles :: u32
  cw_loc :: FieldLocation
  sw_loc :: FieldLocation
  target_loc :: "FieldLocation option"
  pv_loc :: "FieldLocation option"
  tv_loc :: "FieldLocation option"
  mode_wr_loc :: "FieldLocation option"
  fc_loc :: "FieldLocation option"
  mode_loc :: "FieldLocation option"
  quick_stop_decel :: u32
  quick_stop_option :: i16
  qs_decel_echoed :: u32
  last_cw :: u16
  announced_op :: bool
  mode_checked :: bool
  bit4_high :: bool
  bit4_edges :: int

definition SequencerState_init :: SequencerState where
  "SequencerState_init = \<lparr>current_mode = 0, fault_code = 0, mode_mismatch = False, handshake_idle = True,
     handshake_timed_out = False\<rparr>"

definition Sequencer_new :: "u32 \<Rightarrow> i16 \<Rightarrow> Sequencer" where
  "Sequencer_new decel option = \<lparr>sq_state = SequencerState_init, handshake = HsIdle,
     handshake_cycles_remaining = 0, halt_clear_cycles = kSetpointHaltSettleCycles,
     cw_loc = \<lparr>byte_offset = 0\<rparr>, sw_loc = \<lparr>byte_offset = 0\<rparr>, target_loc = None, pv_loc = None, tv_loc = None,
     mode_wr_loc = None, fc_loc = None, mode_loc = None, quick_stop_decel = decel, quick_stop_option = option,
     qs_decel_echoed = 0, last_cw = 0, announced_op = False, mode_checked = False, bit4_high = False,
     bit4_edges = 0\<rparr>"

definition Sequencer_reset :: "Sequencer \<Rightarrow> Sequencer" where
  "Sequencer_reset q = q\<lparr>sq_state := SequencerState_init, handshake := HsIdle, handshake_cycles_remaining := 0,
     last_cw := 0, announced_op := False, mode_checked := False, bit4_high := False, bit4_edges := 0,
     halt_clear_cycles := kSetpointHaltSettleCycles\<rparr>"

subsection \<open>Configuration\<close>

text \<open>The quick-stop setup: assert the option, write the deceleration and read it back.\<close>

definition configure_quick_stop :: "'w soem \<Rightarrow> u16 \<Rightarrow> Sequencer \<Rightarrow> ('w Master, u32) em" where
  "configure_quick_stop S slave q =
     em_bind (cfg_sdo_read S slave kQuickStopOption 0 2) (\<lambda>(n, qso).
     let qs_opt = (if n \<ge> 2 then load_le qso else - 1) :: i16 in
     if qs_opt \<noteq> quick_stop_option q
     then em_throw (Error ''Cia402Sequencer: 0x605A (quick-stop option). Refusing to energize.'')
     else
     em_seq (cfg_sdo_write S slave kQuickStopDecel 0 (le32 (quick_stop_decel q)))
     (em_bind (cfg_sdo_read S slave kQuickStopDecel 0 4) (\<lambda>(m, qd).
     let echoed = (if m \<ge> 4 then load_le qd else 0) :: u32 in
     if echoed = 0
     then em_throw (Error ''Cia402Sequencer: 0x6085 readback = 0/absent after write. Refusing to energize.'')
     else em_return echoed)))"

definition Sequencer_configure ::
    "'w soem \<Rightarrow> u16 \<Rightarrow> bool \<Rightarrow> Sequencer \<Rightarrow> ('w Master, Sequencer \<times> u32) em" where
  "Sequencer_configure S slave needs_quick_stop q =
     em_bind (cfg_resolve_rx slave ControlWord_field) (\<lambda>cw.
     em_bind (cfg_resolve_tx slave Statusword_field) (\<lambda>sw.
     em_bind (cfg_try_resolve_rx slave TargetPosition_field) (\<lambda>tg.
     em_bind (cfg_try_resolve_rx slave ProfileVelocity_field) (\<lambda>pv.
     em_bind (cfg_try_resolve_rx slave TargetVelocity_field) (\<lambda>tv.
     em_bind (cfg_try_resolve_rx slave ModeOfOperation_field) (\<lambda>mw.
     em_bind (cfg_try_resolve_tx slave FaultCode_field) (\<lambda>fc.
     em_bind (cfg_try_resolve_tx slave ModeDisplay_field) (\<lambda>md.
     let q1 = q\<lparr>cw_loc := cw, sw_loc := sw, target_loc := tg, pv_loc := pv, tv_loc := tv, mode_wr_loc := mw,
                fc_loc := fc, mode_loc := md\<rparr> in
     em_bind (if needs_quick_stop then configure_quick_stop S slave q1 else em_return 0) (\<lambda>echoed.
     em_return (q1\<lparr>qs_decel_echoed := echoed\<rparr>, echoed))))))))))"

subsection \<open>The operational phase\<close>

text \<open>The four-phase handshake: the new sequencer state and the controlword with bit 4 as it sends it.\<close>

definition hs_await_ack :: "Status \<Rightarrow> u16 \<Rightarrow> Sequencer \<Rightarrow> Sequencer \<times> u16" where
  "hs_await_ack status base q =
     (if setpoint_acknowledged status
      then (q\<lparr>handshake := ClearBit4\<rparr>, with_new_setpoint base True)
      else if handshake_cycles_remaining q = 0
      then (q\<lparr>sq_state := (sq_state q)\<lparr>handshake_timed_out := True\<rparr>, handshake := HsIdle, bit4_high := False\<rparr>, base)
      else (q\<lparr>handshake_cycles_remaining := handshake_cycles_remaining q - 1\<rparr>, with_new_setpoint base True))"

definition hs_await_ack_clear :: "Status \<Rightarrow> u16 \<Rightarrow> Sequencer \<Rightarrow> Sequencer \<times> u16" where
  "hs_await_ack_clear status base q =
     (if \<not> setpoint_acknowledged status then (q\<lparr>handshake := HsIdle\<rparr>, base)
      else if handshake_cycles_remaining q = 0
      then (q\<lparr>sq_state := (sq_state q)\<lparr>handshake_timed_out := True\<rparr>, handshake := HsIdle\<rparr>, base)
      else (q\<lparr>handshake_cycles_remaining := handshake_cycles_remaining q - 1\<rparr>, base))"

definition hs_write_target :: "u16 \<Rightarrow> Sequencer \<Rightarrow> Sequencer \<times> u16" where
  "hs_write_target base q =
     (if halt_clear_cycles q < kSetpointHaltSettleCycles then (q, base)
      else let q1 = (if \<not> bit4_high q then q\<lparr>bit4_edges := bit4_edges q + 1, bit4_high := True\<rparr> else q)
           in (q1\<lparr>handshake := AwaitAck, handshake_cycles_remaining := kHandshakeTimeoutCycles\<rparr>,
               with_new_setpoint base True))"

definition hs_step :: "Status \<Rightarrow> u16 \<Rightarrow> Sequencer \<Rightarrow> Sequencer \<times> u16" where
  "hs_step status base q =
     (case handshake q of
        HsIdle \<Rightarrow> (q, base)
      | WriteTarget \<Rightarrow> hs_write_target base q
      | AwaitAck \<Rightarrow> hs_await_ack status base q
      | ClearBit4 \<Rightarrow> (q\<lparr>handshake := AwaitAckClear, handshake_cycles_remaining := kHandshakeTimeoutCycles,
                        bit4_high := False\<rparr>, base)
      | AwaitAckClear \<Rightarrow> hs_await_ack_clear status base q)"

definition drive_operational ::
    "SequencerCommand \<Rightarrow> Status \<Rightarrow> Sequencer \<Rightarrow> CycleContext \<Rightarrow> Sequencer \<times> CycleContext \<times> u16" where
  "drive_operational cmd status q ctx0 =
     (let ctx1 = ctx_store_opt (mode_wr_loc q) (cmd_mode cmd) ctx0;
          base = enable_operation
      in if cmd_mode cmd = ProfileVelocity
         then (q, ctx_store_opt (tv_loc q) (target_velocity cmd) ctx1,
               if cmd_halt cmd then with_halt base True else base)
         else
           let ctx2 = ctx_store_opt (target_loc q) (target_counts cmd) ctx1;
               ctx3 = ctx_store_opt (pv_loc q) (profile_velocity cmd) ctx2;
               (q1, base1) = hs_step status base q;
               q2 = q1\<lparr>sq_state := (sq_state q1)\<lparr>handshake_idle := (handshake q1 = HsIdle)\<rparr>\<rparr>
           in (q2, ctx3, if cmd_halt cmd then with_halt base1 True else base1))"

subsection \<open>The cycle\<close>

text \<open>The feedback part: published codes, the halt-settle counter, and a new set-point's arrival.\<close>

definition step_observe :: "CycleContext \<Rightarrow> Sequencer \<Rightarrow> Sequencer" where
  "step_observe ctx0 q =
     q\<lparr>sq_state := (sq_state q)
         \<lparr>fault_code := (case fc_loc q of None \<Rightarrow> 0 | Some l \<Rightarrow> ctx_load ctx0 l),
          current_mode := (case mode_loc q of None \<Rightarrow> 0 | Some l \<Rightarrow> ctx_load ctx0 l),
          handshake_timed_out := False\<rparr>,
       halt_clear_cycles :=
         (if last_cw q AND kHaltBit \<noteq> 0 then 0
          else if halt_clear_cycles q < kSetpointHaltSettleCycles then halt_clear_cycles q + 1
          else halt_clear_cycles q)\<rparr>"

definition accept_setpoint :: "SequencerCommand \<Rightarrow> Sequencer \<Rightarrow> Sequencer" where
  "accept_setpoint cmd q =
     (if new_setpoint cmd
      then q\<lparr>handshake := WriteTarget, sq_state := (sq_state q)\<lparr>handshake_idle := False\<rparr>, bit4_high := False\<rparr>
      else q)"

definition step_stopping :: "Status \<Rightarrow> Sequencer \<Rightarrow> CycleContext \<Rightarrow> Sequencer \<times> CycleContext \<times> u16" where
  "step_stopping status q ctx0 =
     (let qcw = (if \<not> announced_op q \<or> status_fault status \<or> switch_on_disabled status
                 then disable_voltage else kQuickStopCw)
      in (q, ctx_store (cw_loc q) qcw (ctx_store_opt (tv_loc q) (0 :: i32) ctx0), qcw))"

text \<open>The mode-echo gate at SwitchedOn.\<close>

definition mode_echo ::
    "SequencerCommand \<Rightarrow> Status \<Rightarrow> Sequencer \<Rightarrow> CycleContext \<Rightarrow> Sequencer \<times> CycleContext" where
  "mode_echo cmd status q ctx0 =
     (if cmd_enable cmd \<and> \<not> mode_checked q \<and> \<not> mode_mismatch (sq_state q) \<and> switched_on status
         \<and> \<not> operation_enabled status
      then if current_mode (sq_state q) = cmd_mode cmd then (q\<lparr>mode_checked := True\<rparr>, ctx0)
           else (q\<lparr>sq_state := (sq_state q)\<lparr>mode_mismatch := True\<rparr>\<rparr>, ctx_request_stop ctx0)
      else (q, ctx0))"

definition step_running ::
    "SequencerCommand \<Rightarrow> Status \<Rightarrow> Sequencer \<Rightarrow> CycleContext \<Rightarrow> Sequencer \<times> CycleContext \<times> u16" where
  "step_running cmd status q ctx0 =
     (let faulted = (Status_decode status = Fault);
          ctx1 = ctx_store_opt (mode_wr_loc q) (cmd_mode cmd) ctx0;
          (q1, ctx2) = mode_echo cmd status q ctx1;
          allowed = (cmd_enable cmd \<and> \<not> mode_mismatch (sq_state q1));
          cw = Cia402Fsm_step status (if allowed then OperationEnabled else ReadyToSwitchOn);
          (q2, ctx3, cw1) =
            (if faulted
             then (q1, ctx2, if last_cw q1 AND kFaultResetBit \<noteq> 0 then 0x0000 else fault_reset)
             else if allowed \<and> operation_enabled status
             then drive_operational cmd status (q1\<lparr>announced_op := True\<rparr>) ctx2
             else if \<not> cmd_enable cmd then (q1, ctx2, shutdown)
             else (q1, ctx2, cw))
      in (q2\<lparr>last_cw := cw1\<rparr>, ctx_store (cw_loc q2) cw1 ctx3, cw1))"

definition Sequencer_step ::
    "SequencerCommand \<Rightarrow> Sequencer \<Rightarrow> CycleContext \<Rightarrow> Sequencer \<times> CycleContext \<times> u16" where
  "Sequencer_step cmd q ctx0 =
     (let status = \<lparr>sw_raw = ctx_load ctx0 (sw_loc q)\<rparr>;
          q1 = accept_setpoint cmd (step_observe ctx0 q)
      in if cc_stopping ctx0 then step_stopping status q1 ctx0 else step_running cmd status q1 ctx0)"

subsection \<open>What the cycle writes\<close>

lemma hs_step_locs [frame_simps]:
  "cw_loc (fst (hs_step status b q)) = cw_loc q"
  "sw_loc (fst (hs_step status b q)) = sw_loc q"
  "last_cw (fst (hs_step status b q)) = last_cw q"
  "announced_op (fst (hs_step status b q)) = announced_op q"
  "halt_clear_cycles (fst (hs_step status b q)) = halt_clear_cycles q"
  by (simp_all add: hs_step_def hs_write_target_def hs_await_ack_def hs_await_ack_clear_def Let_def
      split: Handshake.splits)

lemma step_observe_frame [frame_simps]:
  "cw_loc (step_observe c q) = cw_loc q" "sw_loc (step_observe c q) = sw_loc q"
  "last_cw (step_observe c q) = last_cw q" "announced_op (step_observe c q) = announced_op q"
  "handshake (step_observe c q) = handshake q" "bit4_edges (step_observe c q) = bit4_edges q"
  "handshake_cycles_remaining (step_observe c q) = handshake_cycles_remaining q"
  "bit4_high (step_observe c q) = bit4_high q"
  "mode_wr_loc (step_observe c q) = mode_wr_loc q" "tv_loc (step_observe c q) = tv_loc q"
  "target_loc (step_observe c q) = target_loc q" "pv_loc (step_observe c q) = pv_loc q"
  by (simp_all add: step_observe_def)

lemma accept_setpoint_frame [frame_simps]:
  "cw_loc (accept_setpoint cmd q) = cw_loc q" "sw_loc (accept_setpoint cmd q) = sw_loc q"
  "last_cw (accept_setpoint cmd q) = last_cw q" "announced_op (accept_setpoint cmd q) = announced_op q"
  "bit4_edges (accept_setpoint cmd q) = bit4_edges q" "halt_clear_cycles (accept_setpoint cmd q) = halt_clear_cycles q"
  "mode_wr_loc (accept_setpoint cmd q) = mode_wr_loc q" "tv_loc (accept_setpoint cmd q) = tv_loc q"
  "target_loc (accept_setpoint cmd q) = target_loc q" "pv_loc (accept_setpoint cmd q) = pv_loc q"
  by (simp_all add: accept_setpoint_def)

lemma mode_echo_frame [frame_simps]:
  "cw_loc (fst (mode_echo cmd st q c)) = cw_loc q" "last_cw (fst (mode_echo cmd st q c)) = last_cw q"
  "bit4_edges (fst (mode_echo cmd st q c)) = bit4_edges q" "handshake (fst (mode_echo cmd st q c)) = handshake q"
  "halt_clear_cycles (fst (mode_echo cmd st q c)) = halt_clear_cycles q"
  "handshake_cycles_remaining (fst (mode_echo cmd st q c)) = handshake_cycles_remaining q"
  "bit4_high (fst (mode_echo cmd st q c)) = bit4_high q" "sw_loc (fst (mode_echo cmd st q c)) = sw_loc q"
  "cc_outputs (snd (mode_echo cmd st q c)) = cc_outputs c"
  by (simp_all add: mode_echo_def)

lemma drive_operational_frame [frame_simps]:
  "cw_loc (fst (drive_operational cmd st q c)) = cw_loc q"
  "last_cw (fst (drive_operational cmd st q c)) = last_cw q"
  "sw_loc (fst (drive_operational cmd st q c)) = sw_loc q"
  "halt_clear_cycles (fst (drive_operational cmd st q c)) = halt_clear_cycles q"
  by (simp_all add: drive_operational_def Let_def frame_simps split_beta)

lemma step_sw_loc [frame_simps]: "sw_loc (fst (Sequencer_step cmd q c)) = sw_loc q"
  by (simp add: Sequencer_step_def step_stopping_def step_running_def Let_def frame_simps split_beta)

lemma step_halt_clear:
  "halt_clear_cycles (fst (Sequencer_step cmd q c)) =
     (if last_cw q AND kHaltBit \<noteq> 0 then 0
      else if halt_clear_cycles q < kSetpointHaltSettleCycles then halt_clear_cycles q + 1
      else halt_clear_cycles q)"
  by (simp add: Sequencer_step_def step_stopping_def step_running_def Let_def frame_simps split_beta)
    (simp add: step_observe_def)

text \<open>The handshake counts an edge only when the halt-settle counter allows it.\<close>

lemma hs_step_edge:
  "bit4_edges (fst (hs_step status b q)) \<noteq> bit4_edges q \<Longrightarrow> kSetpointHaltSettleCycles \<le> halt_clear_cycles q"
  by (auto simp: hs_step_def hs_write_target_def hs_await_ack_def hs_await_ack_clear_def Let_def
      split: Handshake.splits if_splits)

lemma drive_operational_edge:
  "bit4_edges (fst (drive_operational cmd status q c)) \<noteq> bit4_edges q \<Longrightarrow>
     kSetpointHaltSettleCycles \<le> halt_clear_cycles q"
  using hs_step_edge by (auto simp: drive_operational_def Let_def split_beta split: if_splits)

lemma step_edge:
  assumes "bit4_edges (fst (Sequencer_step cmd q c)) \<noteq> bit4_edges q"
  shows "kSetpointHaltSettleCycles \<le> halt_clear_cycles (fst (Sequencer_step cmd q c))"
proof -
  let ?st = "\<lparr>sw_raw = ctx_load c (sw_loc q)\<rparr>"
  let ?q = "accept_setpoint cmd (step_observe c q)"
  let ?e = "mode_echo cmd ?st ?q (ctx_store_opt (mode_wr_loc q) (cmd_mode cmd) c)"
  let ?d = "drive_operational cmd ?st (fst ?e\<lparr>announced_op := True\<rparr>) (snd ?e)"
  have "bit4_edges (fst ?d) \<noteq> bit4_edges (fst ?e\<lparr>announced_op := True\<rparr>)"
    using assms by (auto simp: Sequencer_step_def step_stopping_def step_running_def Let_def frame_simps split_beta
        split: if_splits)
  from drive_operational_edge [OF this] show ?thesis
    by (simp add: Sequencer_step_def step_stopping_def step_running_def Let_def frame_simps split_beta)
qed

text \<open>
  C16. A new-set-point edge never coincides with a halt release. For any two consecutive cycles, if the
  second raises a counted bit-4 edge, then the last controlword written before the first cycle and the
  one written by it both had the Halt bit clear: Halt has been low on the wire for two full cycles.
\<close>

theorem setpoint_edge_after_halt_settled:
  assumes "q1 = fst (Sequencer_step cmd0 q ctx0)" "q2 = fst (Sequencer_step cmd1 q1 ctx1)"
    "bit4_edges q2 \<noteq> bit4_edges q1"
  shows "last_cw q AND kHaltBit = 0 \<and> last_cw q1 AND kHaltBit = 0"
proof -
  have "kSetpointHaltSettleCycles \<le> halt_clear_cycles q2"
    using step_edge [of cmd1 q1 ctx1] assms by simp
  then have h: "2 \<le> (if last_cw q1 AND kHaltBit \<noteq> 0 then 0
      else if halt_clear_cycles q1 < 2 then halt_clear_cycles q1 + 1 else halt_clear_cycles q1)"
    unfolding assms(2) step_halt_clear kSetpointHaltSettleCycles_def .
  then have l1: "last_cw q1 AND kHaltBit = 0" by (auto split: if_splits)
  have "halt_clear_cycles q1 \<noteq> 0" using h l1 by (auto simp: word_le_nat_alt word_less_nat_alt)
  then have "last_cw q AND kHaltBit = 0"
    using step_halt_clear [of cmd0 q ctx0] assms(1) by (auto split: if_splits)
  with l1 show ?thesis by simp
qed

text \<open>Concrete inputs: a sequencer at offset 0, and a cycle whose statusword is the given one.\<close>

definition demo_seq :: Sequencer where
  "demo_seq = Sequencer_new 0 2"

definition demo_ctx :: "u16 \<Rightarrow> CycleContext" where
  "demo_ctx sw = \<lparr>cc_inputs = store_le [0, 0] sw, cc_outputs = [0, 0], cc_cycle = 0, cc_dc_time = 0,
     cc_stopping = False, cc_wkc = \<lparr>ws_expected = 3, ws_last = 3, ws_total_cycles = 0, ws_bad_cycles = 0\<rparr>,
     cc_fault = False, cc_stop_requested = False\<rparr>"

definition demo_cmd :: "bool \<Rightarrow> bool \<Rightarrow> SequencerCommand" where
  "demo_cmd halt setpoint = \<lparr>cmd_mode = ProfilePosition, target_counts = 1000, profile_velocity = 500,
     target_velocity = 0, cmd_enable = True, cmd_halt = halt, new_setpoint = setpoint\<rparr>"

theorem setpoint_edge_after_halt_settled_witness:
  "bit4_edges (fst (Sequencer_step (demo_cmd False True)
      (fst (Sequencer_step (demo_cmd False False) demo_seq (demo_ctx 0x0237))) (demo_ctx 0x0237))) = 1
   \<and> last_cw (fst (Sequencer_step (demo_cmd False False) demo_seq (demo_ctx 0x0237))) AND kHaltBit = 0"
proof -
  let ?q1 = "fst (Sequencer_step (demo_cmd False False) demo_seq (demo_ctx 0x0237))"
  have e: "bit4_edges (fst (Sequencer_step (demo_cmd False True) ?q1 (demo_ctx 0x0237))) = 1"
    "bit4_edges ?q1 = 0"
    by code_simp+
  then show ?thesis
    using setpoint_edge_after_halt_settled [of ?q1 "demo_cmd False False" demo_seq "demo_ctx 0x0237"
        _ "demo_cmd False True" "demo_ctx 0x0237"] by simp
qed

subsection \<open>The handshake ends\<close>

text \<open>
  A cycle in which the drive is operational, the mode is a position mode, no halt and no new set-point
  is commanded.
\<close>

definition hs_input_ok :: "FieldLocation \<Rightarrow> SequencerCommand \<times> CycleContext \<Rightarrow> bool" where
  "hs_input_ok sw i \<longleftrightarrow> (case i of (cmd, c) \<Rightarrow>
     cmd_enable cmd \<and> \<not> cmd_halt cmd \<and> \<not> new_setpoint cmd \<and> cmd_mode cmd \<noteq> ProfileVelocity \<and> \<not> cc_stopping c
     \<and> operation_enabled \<lparr>sw_raw = ctx_load c sw\<rparr> \<and> Status_decode \<lparr>sw_raw = ctx_load c sw\<rparr> \<noteq> Fault)"

definition seq_cycle :: "Sequencer \<Rightarrow> SequencerCommand \<times> CycleContext \<Rightarrow> Sequencer" where
  "seq_cycle q i = fst (Sequencer_step (fst i) q (snd i))"

definition hs_over :: "Sequencer \<Rightarrow> bool" where
  "hs_over q \<longleftrightarrow> handshake q = HsIdle \<or> mode_mismatch (sq_state q)"

definition halt_wait :: "Sequencer \<Rightarrow> nat" where
  "halt_wait q = (if last_cw q AND kHaltBit \<noteq> 0 then 3 else 2 - unat (halt_clear_cycles q))"

text \<open>The cycles left: two timeouts of 100 with their last cycle, the phase changes, and the halt settle.\<close>

definition hs_bound :: "Sequencer \<Rightarrow> nat" where
  "hs_bound q =
     (case handshake q of
        HsIdle \<Rightarrow> 0
      | AwaitAckClear \<Rightarrow> 1 + unat (handshake_cycles_remaining q)
      | ClearBit4 \<Rightarrow> 102
      | AwaitAck \<Rightarrow> 103 + unat (handshake_cycles_remaining q)
      | WriteTarget \<Rightarrow> 204 + halt_wait q)"

text \<open>In such a cycle the sequencer step is the operational phase.\<close>

lemma seq_cycle_operational:
  assumes "hs_input_ok (sw_loc q) (cmd, c)" "\<not> mode_mismatch (sq_state q)"
  shows "seq_cycle q (cmd, c) =
    (let st = \<lparr>sw_raw = ctx_load c (sw_loc q)\<rparr>;
         r = hs_step st enable_operation (step_observe c q\<lparr>announced_op := True\<rparr>)
     in (fst r)\<lparr>sq_state := (sq_state (fst r))\<lparr>handshake_idle := (handshake (fst r) = HsIdle)\<rparr>, last_cw := snd r\<rparr>)"
  using assms
  by (auto simp: hs_input_ok_def seq_cycle_def Sequencer_step_def step_running_def accept_setpoint_def
      mode_echo_def drive_operational_def step_observe_def Let_def split_beta)

lemma hs_cw_no_halt: "snd (hs_step st enable_operation q) AND kHaltBit = 0"
proof -
  have "enable_operation AND kHaltBit = 0" "with_new_setpoint enable_operation True AND kHaltBit = 0"
    by (simp_all add: cw_defs cw_bit_defs with_new_setpoint_def)
  then show ?thesis
    by (simp add: hs_step_def hs_write_target_def hs_await_ack_def hs_await_ack_clear_def Let_def split: Handshake.splits)
qed

lemma hs_bound_decr:
  assumes "hs_input_ok (sw_loc q) (cmd, c)" "\<not> hs_over q"
  shows "hs_bound (seq_cycle q (cmd, c)) < hs_bound q"
proof -
  let ?o = "step_observe c q\<lparr>announced_op := True\<rparr>" and ?st = "\<lparr>sw_raw = ctx_load c (sw_loc q)\<rparr>"
  let ?r = "hs_step ?st enable_operation ?o"
  have nm: "\<not> mode_mismatch (sq_state q)" "handshake q \<noteq> HsIdle" using assms(2) by (simp_all add: hs_over_def)
  have b: "hs_bound (seq_cycle q (cmd, c)) =
      (case handshake (fst ?r) of
        HsIdle \<Rightarrow> 0
      | AwaitAckClear \<Rightarrow> 1 + unat (handshake_cycles_remaining (fst ?r))
      | ClearBit4 \<Rightarrow> 102
      | AwaitAck \<Rightarrow> 103 + unat (handshake_cycles_remaining (fst ?r))
      | WriteTarget \<Rightarrow> 204 + (2 - unat (halt_clear_cycles ?o)))"
    using seq_cycle_operational [OF assms(1) nm(1)] hs_cw_no_halt [of ?st ?o]
    by (simp add: Let_def hs_bound_def halt_wait_def frame_simps split: Handshake.splits)
  have o: "handshake ?o = handshake q" "handshake_cycles_remaining ?o = handshake_cycles_remaining q"
    by (simp_all add: step_observe_def)
  have dec: "unat (w - 1) < unat w" if "w \<noteq> 0" for w :: u32
    using that unat_minus_one_pos [of w] by (simp add: word_gt_0 unat_gt_0)
  show ?thesis
  proof (cases "handshake q")
    case WriteTarget
    have hc: "halt_clear_cycles ?o = (if last_cw q AND kHaltBit \<noteq> 0 then 0
        else if halt_clear_cycles q < 2 then halt_clear_cycles q + 1 else halt_clear_cycles q)"
      unfolding kSetpointHaltSettleCycles_def [symmetric] by (simp add: step_observe_def)
    have "2 - unat (halt_clear_cycles ?o) < halt_wait q" if "halt_clear_cycles ?o < 2"
    proof (cases "last_cw q AND kHaltBit \<noteq> 0")
      case False
      with that hc have lt: "halt_clear_cycles q < 2" by (auto split: if_splits)
      with hc False have "unat (halt_clear_cycles ?o) = Suc (unat (halt_clear_cycles q))"
        using unat_inc_less [OF lt] by simp
      with lt False show ?thesis by (simp add: halt_wait_def word_less_nat_alt)
    qed (use hc in \<open>simp add: halt_wait_def\<close>)
    then show ?thesis
      using b o WriteTarget
      by (auto simp: hs_step_def hs_write_target_def hs_bound_def kSetpointHaltSettleCycles_def
          kHandshakeTimeoutCycles_def Let_def split: if_splits)
  next
    case AwaitAck
    then show ?thesis
      using b o dec
      by (auto simp: hs_step_def hs_await_ack_def hs_bound_def Let_def split: if_splits)
  next
    case ClearBit4
    then show ?thesis using b o by (simp add: hs_step_def hs_bound_def kHandshakeTimeoutCycles_def)
  next
    case AwaitAckClear
    then show ?thesis
      using b o dec
      by (auto simp: hs_step_def hs_await_ack_clear_def hs_bound_def Let_def split: if_splits)
  qed (use nm in simp)
qed

lemma hs_step_mismatch [frame_simps]:
  "mode_mismatch (sq_state (fst (hs_step st b q))) = mode_mismatch (sq_state q)"
  by (simp add: hs_step_def hs_write_target_def hs_await_ack_def hs_await_ack_clear_def Let_def split: Handshake.splits)

lemma step_mismatch_stays:
  "mode_mismatch (sq_state q) \<Longrightarrow> mode_mismatch (sq_state (seq_cycle q i))"
  by (simp add: seq_cycle_def Sequencer_step_def step_stopping_def step_running_def step_observe_def
      accept_setpoint_def mode_echo_def Let_def split_beta)

interpretation hs: cyclic_progress seq_cycle "\<lambda>q. sw_loc q = sw" "hs_input_ok sw" hs_over hs_bound
  for sw
proof
  fix q i
  show "sw_loc q = sw \<Longrightarrow> sw_loc (seq_cycle q i) = sw"
    by (simp add: seq_cycle_def frame_simps)
  show "hs_input_ok sw i \<Longrightarrow> sw_loc q = sw \<Longrightarrow> \<not> hs_over q \<Longrightarrow> hs_bound (seq_cycle q i) < hs_bound q"
    using hs_bound_decr [of q "fst i" "snd i"] by simp
  show "hs_over (seq_cycle q i)" if "hs_input_ok sw i" "sw_loc q = sw" "hs_over q"
  proof (cases "mode_mismatch (sq_state q)")
    case False
    with that have "handshake q = HsIdle" by (simp add: hs_over_def)
    then show ?thesis
      using seq_cycle_operational [of q "fst i" "snd i"] that False
      by (simp add: hs_over_def Let_def hs_step_def step_observe_def)
  qed (simp add: step_mismatch_stays hs_over_def)
qed

lemma hs_bound_le: "hs_bound q \<le> 207 + unat (handshake_cycles_remaining q)"
  by (auto simp: hs_bound_def halt_wait_def split: Handshake.splits)

lemma mismatch_not_raised:
  "list_all (hs_input_ok (sw_loc q)) is \<Longrightarrow> \<not> mode_mismatch (sq_state q) \<Longrightarrow>
     \<not> mode_mismatch (sq_state (foldl seq_cycle q is))"
proof (induction "is" arbitrary: q)
  case (Cons i "is")
  then have "\<not> mode_mismatch (sq_state (seq_cycle q i))"
    using seq_cycle_operational [of q "fst i" "snd i"] by (simp add: Let_def frame_simps step_observe_def)
  moreover have "sw_loc (seq_cycle q i) = sw_loc q" by (simp add: seq_cycle_def frame_simps)
  ultimately show ?case using Cons by simp
qed simp

text \<open>
  The handshake ends. From any phase of it, as long as the drive stays operational in a position
  mode and neither a halt nor a new set-point is commanded, the handshake is idle again after a
  bounded number of cycles, whatever the drive does with its acknowledge bit: 207 cycles plus the
  remaining timeout always suffice.
\<close>

theorem handshake_terminates:
  assumes "list_all (hs_input_ok (sw_loc q)) is" "mode_mismatch (sq_state q) = False"
    "207 + unat (handshake_cycles_remaining q) \<le> length is"
  shows "handshake (foldl seq_cycle q is) = HsIdle"
proof -
  have "hs_bound q \<le> length is" "is \<noteq> []" using hs_bound_le [of q] assms(3) by auto
  then have "hs_over (foldl seq_cycle q is)"
    using hs.run_reaches_done [of "sw_loc q" "is" q] assms(1) by blast
  then show ?thesis
    using mismatch_not_raised [OF assms(1)] assms(2) by (auto simp: hs_over_def)
qed

subsection \<open>Safety of the written controlword\<close>

definition opt_fits :: "FieldLocation option \<Rightarrow> nat \<Rightarrow> nat \<Rightarrow> bool" where
  "opt_fits l w n = (case l of None \<Rightarrow> True | Some loc \<Rightarrow> byte_offset loc + w \<le> n)"

definition seq_fits :: "Sequencer \<Rightarrow> nat \<Rightarrow> bool" where
  "seq_fits q n \<longleftrightarrow> byte_offset (cw_loc q) + 2 \<le> n \<and> opt_fits (target_loc q) 4 n \<and> opt_fits (pv_loc q) 4 n
     \<and> opt_fits (tv_loc q) 4 n \<and> opt_fits (mode_wr_loc q) 1 n"

lemma store_opt_length:
  "opt_fits l (LENGTH('a) div 8) (length (cc_outputs c)) \<Longrightarrow>
   length (cc_outputs (ctx_store_opt l (v :: 'a::len word) c)) = length (cc_outputs c)"
  by (auto simp: opt_fits_def ctx_store_opt_def split: option.splits)

lemma drive_operational_length:
  assumes "seq_fits q (length (cc_outputs c))"
  shows "length (cc_outputs (fst (snd (drive_operational cmd st q c)))) = length (cc_outputs c)"
  using assms by (simp add: seq_fits_def drive_operational_def Let_def split_beta store_opt_length)

lemma mode_echo_fits [simp]:
  "seq_fits (fst (mode_echo cmd st q c)) n = seq_fits q n"
  "seq_fits (q\<lparr>announced_op := b\<rparr>) n = seq_fits q n"
  by (simp_all add: mode_echo_def seq_fits_def)

text \<open>The controlword store is the last one of a cycle, on an image of the same size.\<close>

lemma step_outputs_cw:
  assumes "seq_fits q (length (cc_outputs c))"
  shows "\<exists>img. cc_outputs (fst (snd (Sequencer_step cmd q c))) =
           store_at img (cw_loc q) (snd (snd (Sequencer_step cmd q c)))
         \<and> length img = length (cc_outputs c)"
proof -
  let ?st = "\<lparr>sw_raw = ctx_load c (sw_loc q)\<rparr>"
  let ?q = "accept_setpoint cmd (step_observe c q)"
  have fits: "seq_fits ?q (length (cc_outputs c))" "tv_loc ?q = tv_loc q" "mode_wr_loc ?q = mode_wr_loc q"
    using assms by (simp_all add: seq_fits_def frame_simps)
  have mode: "length (cc_outputs (ctx_store_opt (mode_wr_loc q) (cmd_mode cmd) c)) = length (cc_outputs c)"
    using assms by (simp add: seq_fits_def store_opt_length)
  have tv: "length (cc_outputs (ctx_store_opt (tv_loc q) (0 :: i32) c)) = length (cc_outputs c)"
    using assms by (simp add: seq_fits_def store_opt_length)
  show ?thesis
    using fits mode tv
    by (auto simp: Sequencer_step_def step_stopping_def step_running_def Let_def split_beta ctx_store_def
        frame_simps drive_operational_length)
qed

text \<open>
  The controlword a cycle reports is the one the image carries: with the fields resolved inside
  the command image, after the step the controlword field of the image reads back as the returned
  word, and the image keeps its size. In the stopping window the word is quick-stop or
  disable-voltage, never one that energises.
\<close>

theorem Sequencer_step_writes_controlword:
  assumes "seq_fits q (length (cc_outputs c))"
  shows "load_at (cc_outputs (fst (snd (Sequencer_step cmd q c)))) (cw_loc q) = snd (snd (Sequencer_step cmd q c))
       \<and> length (cc_outputs (fst (snd (Sequencer_step cmd q c)))) = length (cc_outputs c)
       \<and> (cc_stopping c \<longrightarrow> snd (snd (Sequencer_step cmd q c)) \<in> {0x000B, 0x0000})"
proof -
  obtain img where img: "cc_outputs (fst (snd (Sequencer_step cmd q c))) =
      store_at img (cw_loc q) (snd (snd (Sequencer_step cmd q c)))" "length img = length (cc_outputs c)"
    using step_outputs_cw [OF assms] by blast
  moreover have "in_image (cw_loc q) 2 img" using assms img(2) by (simp add: seq_fits_def in_image_def)
  moreover have "cc_stopping c \<longrightarrow> snd (snd (Sequencer_step cmd q c)) \<in> {0x000B, 0x0000}"
    by (simp add: Sequencer_step_def step_stopping_def Let_def kQuickStopCw_def cw_defs)
  ultimately show ?thesis by (simp add: f16.ld_st f16.st_length)
qed

lemma with_halt_low: "with_halt b True AND 0x000F = b AND 0x000F"
  and with_new_setpoint_low: "with_new_setpoint b True AND 0x000F = b AND 0x000F"
proof -
  have "(b OR kHaltBit) AND 0x000F = b AND 0x000F" "(b OR kNewSetpointBit) AND 0x000F = b AND 0x000F"
    by (simp_all add: cw_bit_defs bit.conj_disj_distrib2)
  then show "with_halt b True AND 0x000F = b AND 0x000F" "with_new_setpoint b True AND 0x000F = b AND 0x000F"
    by (simp_all add: with_halt_def with_new_setpoint_def)
qed

lemma hs_step_low: "snd (hs_step st b q) AND 0x000F = b AND 0x000F"
  by (simp add: hs_step_def hs_write_target_def hs_await_ack_def hs_await_ack_clear_def Let_def
      with_new_setpoint_low split: Handshake.splits)

lemma drive_operational_low:
  "snd (snd (drive_operational cmd st q c)) AND 0x000F = enable_operation AND 0x000F"
  by (simp add: drive_operational_def Let_def split_beta with_halt_low hs_step_low)

lemma drive_operational_mismatch [frame_simps]:
  "mode_mismatch (sq_state (fst (drive_operational cmd st q c))) = mode_mismatch (sq_state q)"
  by (simp add: drive_operational_def Let_def split_beta frame_simps)

lemma decode_bit2:
  "Status_decode st \<in> {OperationEnabled, QuickStopActive} \<Longrightarrow> operation_enabled st"
proof -
  assume a: "Status_decode st \<in> {OperationEnabled, QuickStopActive}"
  show "operation_enabled st"
  proof (cases "Status_decode st = OperationEnabled")
    case True
    then show ?thesis by (rule decode_OperationEnabled_bit)
  next
    case False
    with a have "(ucast (sw_raw st) :: u32) AND 0x6F = 0x07"
      by (auto simp: Status_decode_matches ds402_matches_def split: if_splits)
    then have "bit ((ucast (sw_raw st) :: u32) AND 0x6F) 2" by simp
    then show ?thesis
      by (simp add: operation_enabled_def Status_bit_iff bit_and_iff bit_ucast_iff)
  qed
qed

text \<open>
  When the sequencer energises. The low four bits of the written controlword are those of
  enable-operation exactly if the cycle is not in the stopping window, the drive is not in Fault, the
  command enables it, no mode mismatch has been found, and the drive reports Switched-on or its
  operation-enabled bit. In particular a disabled command, a stop and a mode mismatch never energise.
\<close>

theorem Sequencer_energizes_iff:
  "snd (snd (Sequencer_step cmd q c)) AND 0x000F = 0x000F \<longleftrightarrow>
     cc_stopping c = False \<and> cmd_enable cmd
     \<and> mode_mismatch (sq_state (fst (Sequencer_step cmd q c))) = False
     \<and> Status_decode \<lparr>sw_raw = ctx_load c (sw_loc q)\<rparr> \<noteq> Fault
     \<and> (operation_enabled \<lparr>sw_raw = ctx_load c (sw_loc q)\<rparr>
        \<or> Status_decode \<lparr>sw_raw = ctx_load c (sw_loc q)\<rparr> = SwitchedOn)"
proof -
  let ?st = "\<lparr>sw_raw = ctx_load c (sw_loc q)\<rparr>"
  have fsm: "Cia402Fsm_step ?st g AND 0x000F = 0x000F \<longleftrightarrow> Cia402Fsm_step ?st g = enable_operation" for g
    by (cases "Status_decode ?st"; cases g) (simp_all add: Cia402Fsm_step_def Let_def cw_defs cw_bit_defs)
  have rts: "Cia402Fsm_step ?st ReadyToSwitchOn \<noteq> enable_operation"
    by (simp add: fsm_enable_iff)
  have ope: "Cia402Fsm_step ?st OperationEnabled = enable_operation \<longleftrightarrow>
      Status_decode ?st \<in> {SwitchedOn, OperationEnabled, QuickStopActive}"
    by (simp add: fsm_enable_iff)
  show ?thesis
    using fsm rts ope decode_bit2 [of ?st]
    by (auto simp: Sequencer_step_def step_stopping_def step_running_def Let_def split_beta frame_simps
        drive_operational_low cw_defs cw_bit_defs kQuickStopCw_def split: if_splits)
qed

text \<open>
  A limit of the handshake: a new set-point that arrives while the previous one still holds bit 4 high
  is counted as an edge, but the controlword written before it and the one that carries it both have
  bit 4 set, so the drive sees no rising edge for it.
\<close>

theorem setpoint_retarget_without_edge:
  "(let q1 = fst (Sequencer_step (demo_cmd False True) demo_seq (demo_ctx 0x0237));
        r2 = Sequencer_step (demo_cmd False True) q1 (demo_ctx 0x0237)
    in last_cw q1 = 0x001F \<and> snd (snd r2) = 0x001F \<and> bit4_edges q1 = 1 \<and> bit4_edges (fst r2) = 2)"
  by code_simp

end
