(* ===== verification/Trapezoid.thy ===== *)
theory Trapezoid
  imports Units
begin

text \<open>
  The set-point generator of the cyclic position mode: the vendored trapezoid profile
  \<^verbatim>\<open>src/src/third_party/wpilib/trapezoid_profile.hpp\<close> and its wrapper \<^verbatim>\<open>src/src/viam/lib/trapezoid.hpp\<close>.
  Positions (counts), velocities (counts/s) and times are reals; the limits a caller passes may be any
  \<open>double\<close>, since the wrapper validates them.
\<close>

subsection \<open>The profile\<close>

record TState =
  ts_position :: real
  ts_velocity :: real

record Constraints =
  maxVelocity :: real
  maxAcceleration :: real

record ProfileTiming =
  t_1 :: real
  t_2 :: real
  t_3 :: real

definition copysign :: "real \<Rightarrow> real \<Rightarrow> real" where
  "copysign m x = (if x < 0 then - \<bar>m\<bar> else \<bar>m\<bar>)"

definition advance :: "real \<Rightarrow> real \<Rightarrow> TState \<Rightarrow> TState" where
  "advance time acceleration s =
     \<lparr>ts_position = ts_position s + (ts_velocity s * time + acceleration / 2 * time * time),
      ts_velocity = ts_velocity s + acceleration * time\<rparr>"

definition AdjustStates :: "Constraints \<Rightarrow> TState \<Rightarrow> TState \<Rightarrow> real \<times> TState \<times> TState" where
  "AdjustStates c current goal =
     (let goal' = (if \<bar>ts_velocity goal\<bar> > maxVelocity c
                   then goal\<lparr>ts_velocity := copysign (maxVelocity c) (ts_velocity goal)\<rparr> else goal);
          violationAmount = \<bar>ts_velocity current\<bar> - maxVelocity c
      in if violationAmount > 0
         then let recoveryTime = violationAmount / maxAcceleration c
              in (recoveryTime,
                  \<lparr>ts_position = ts_position current + (ts_velocity current * recoveryTime
                      + copysign (maxAcceleration c) (- ts_velocity current) * recoveryTime * recoveryTime / 2),
                   ts_velocity = copysign (maxVelocity c) (ts_velocity current)\<rparr>, goal')
         else (0, current, goal'))"

definition GetSign :: "Constraints \<Rightarrow> TState \<Rightarrow> TState \<Rightarrow> real" where
  "GetSign c current goal =
     (let dx = ts_position goal - ts_position current;
          d = \<bar>ts_velocity goal - ts_velocity current\<bar> * (ts_velocity goal + ts_velocity current) / (2 * maxAcceleration c)
      in if \<bar>dx - d\<bar> < 1 / 10 ^ 12 then copysign 1 (ts_velocity goal)
         else if dx > d then 1 else - 1)"

definition GenerateProfile :: "Constraints \<Rightarrow> real \<Rightarrow> TState \<Rightarrow> TState \<Rightarrow> ProfileTiming" where
  "GenerateProfile c sign current goal =
     (let acceleration = sign * maxAcceleration c;
          velocityLimit = sign * maxVelocity c;
          dx = ts_position goal - ts_position current;
          peakVelocity = sign * sqrt (max (acceleration * dx
             + (ts_velocity goal * ts_velocity goal + ts_velocity current * ts_velocity current) / 2) 0)
      in if sign * peakVelocity > maxVelocity c
         then let x_1 = (velocityLimit * velocityLimit - ts_velocity current * ts_velocity current) / (2 * acceleration);
                  x_3 = (velocityLimit * velocityLimit - ts_velocity goal * ts_velocity goal) / (2 * acceleration);
                  x_2 = dx - x_1 - x_3
              in \<lparr>t_1 = (velocityLimit - ts_velocity current) / acceleration,
                  t_2 = x_2 / velocityLimit,
                  t_3 = (velocityLimit - ts_velocity goal) / acceleration\<rparr>
         else \<lparr>t_1 = (peakVelocity - ts_velocity current) / acceleration, t_2 = 0,
               t_3 = (peakVelocity - ts_velocity goal) / acceleration\<rparr>)"

definition Calculate :: "Constraints \<Rightarrow> real \<Rightarrow> TState \<Rightarrow> TState \<Rightarrow> TState" where
  "Calculate c t current0 goal0 =
     (let (recoveryTime, current, goal) = AdjustStates c current0 goal0;
          sign = GetSign c current goal;
          prof0 = GenerateProfile c sign current goal;
          prof = prof0\<lparr>t_1 := t_1 prof0 + recoveryTime\<rparr>;
          acceleration = sign * maxAcceleration c;
          sample = advance (min t (t_1 prof))
            (if recoveryTime > 0 \<and> ts_velocity current0 * sign > 0 then - acceleration else acceleration) current0
      in if t > t_1 prof
         then let t' = t - t_1 prof; sample' = advance (min t' (t_2 prof)) 0 sample
              in if t' > t_2 prof
                 then let t'' = t' - t_2 prof; sample'' = advance (min t'' (t_3 prof)) (- acceleration) sample'
                      in if t'' > t_3 prof then goal else sample''
                 else sample'
         else sample)"

subsection \<open>The generator\<close>

datatype Phase = GenIdle | GenPositioning | GenVelocity

record TrapezoidGenerator =
  g_state :: TState
  g_v_max :: real
  g_accel :: real
  g_v_target :: real
  g_goal :: i32
  g_phase :: Phase

definition TrapezoidGenerator_new :: TrapezoidGenerator where
  "TrapezoidGenerator_new = \<lparr>g_state = \<lparr>ts_position = 0, ts_velocity = 0\<rparr>, g_v_max = 1, g_accel = 1, g_v_target = 0,
     g_goal = 0, g_phase = GenIdle\<rparr>"

fun valid_limit :: "double \<Rightarrow> bool" where
  "valid_limit (Fin v) = (0 < v)"
| "valid_limit _ = False"

fun the_double :: "double \<Rightarrow> real" where
  "the_double (Fin v) = v"
| "the_double _ = 0"

definition to_wire :: "real \<Rightarrow> i32" where
  "to_wire p = word_of_int (llround p)"

definition reseed :: "i32 \<Rightarrow> TrapezoidGenerator \<Rightarrow> TrapezoidGenerator" where
  "reseed pos g = g\<lparr>g_state := \<lparr>ts_position = real_of_int (sint pos), ts_velocity = 0\<rparr>, g_goal := pos,
     g_v_target := 0, g_phase := GenIdle\<rparr>"

definition set_goal :: "i32 \<Rightarrow> double \<Rightarrow> double \<Rightarrow> TrapezoidGenerator \<Rightarrow> bool \<times> TrapezoidGenerator" where
  "set_goal gl vm ac g =
     (if \<not> valid_limit vm \<or> \<not> valid_limit ac then (False, g)
      else (True, g\<lparr>g_goal := gl, g_v_max := the_double vm, g_accel := the_double ac, g_phase := GenPositioning\<rparr>))"

definition gen_set_velocity :: "double \<Rightarrow> double \<Rightarrow> TrapezoidGenerator \<Rightarrow> bool \<times> TrapezoidGenerator" where
  "gen_set_velocity vt ac g =
     (if \<not> isfinite vt \<or> \<not> valid_limit ac then (False, g)
      else let g1 = g\<lparr>g_v_target := the_double vt, g_accel := the_double ac\<rparr>
           in (True,
               if the_double vt = 0 \<and> ts_velocity (g_state g1) = 0
               then g1\<lparr>g_goal := to_wire (ts_position (g_state g1)), g_phase := GenIdle\<rparr>
               else g1\<lparr>g_phase := GenVelocity\<rparr>))"

definition gen_stop :: "double \<Rightarrow> TrapezoidGenerator \<Rightarrow> TrapezoidGenerator" where
  "gen_stop ac g =
     (case gen_set_velocity (Fin 0) ac g of
        (True, g') \<Rightarrow> g'
      | (False, g') \<Rightarrow> snd (gen_set_velocity (Fin 0) (Fin (g_accel g')) g'))"

definition velocity_step :: "real \<Rightarrow> TrapezoidGenerator \<Rightarrow> TrapezoidGenerator" where
  "velocity_step dt g =
     (let dv_max = g_accel g * dt;
          dv0 = g_v_target g - ts_velocity (g_state g);
          dv = (if dv0 > dv_max then dv_max else if dv0 < - dv_max then - dv_max else dv0);
          s = g_state g;
          s' = \<lparr>ts_position = ts_position s + (ts_velocity s * dt + 1 / 2 * dv * dt), ts_velocity = ts_velocity s + dv\<rparr>;
          g1 = g\<lparr>g_state := s'\<rparr>
      in if g_v_target g = 0 \<and> ts_velocity s' = 0
         then g1\<lparr>g_goal := to_wire (ts_position s'), g_phase := GenIdle\<rparr> else g1)"

definition position_step :: "real \<Rightarrow> TrapezoidGenerator \<Rightarrow> TrapezoidGenerator" where
  "position_step dt g =
     (let gl = \<lparr>ts_position = real_of_int (sint (g_goal g)), ts_velocity = 0\<rparr>;
          s' = Calculate \<lparr>maxVelocity = g_v_max g, maxAcceleration = g_accel g\<rparr> dt (g_state g) gl;
          g1 = g\<lparr>g_state := s'\<rparr>
      in if s' = gl then g1\<lparr>g_phase := GenIdle\<rparr> else g1)"

definition gen_position :: "TrapezoidGenerator \<Rightarrow> i32" where
  "gen_position g = to_wire (ts_position (g_state g))"

definition gen_step :: "real \<Rightarrow> TrapezoidGenerator \<Rightarrow> i32 \<times> TrapezoidGenerator" where
  "gen_step dt g =
     (let g' = (if g_phase g = GenIdle \<or> \<not> dt > 0 then g
                else if g_phase g = GenPositioning then position_step dt g
                else velocity_step dt g)
      in (gen_position g', g'))"

definition gen_idle :: "TrapezoidGenerator \<Rightarrow> bool" where
  "gen_idle g \<longleftrightarrow> g_phase g = GenIdle"

subsection \<open>Properties of the profile\<close>

text \<open>Sampling a profile at a time: accelerate, cruise, decelerate, then the goal.\<close>

definition sample_at :: "real \<Rightarrow> ProfileTiming \<Rightarrow> real \<Rightarrow> TState \<Rightarrow> TState \<Rightarrow> TState" where
  "sample_at t prof acc current goal =
     (if t \<le> t_1 prof then advance t acc current
      else let s1 = advance (t_1 prof) acc current; t' = t - t_1 prof
           in if t' \<le> t_2 prof then advance t' 0 s1
              else let s2 = advance (t_2 prof) 0 s1; t'' = t' - t_2 prof
                   in if t'' \<le> t_3 prof then advance t'' (- acc) s2 else goal)"

lemma Calculate_sample:
  assumes "\<bar>ts_velocity current\<bar> \<le> maxVelocity c" "\<bar>ts_velocity goal\<bar> \<le> maxVelocity c"
  shows "Calculate c t current goal =
    sample_at t (GenerateProfile c (GetSign c current goal) current goal) (GetSign c current goal * maxAcceleration c) current goal"
  using assms by (simp add: Calculate_def AdjustStates_def sample_at_def Let_def min_def not_le)

lemma convex_abs_bound:
  fixes v w V k :: real
  assumes "\<bar>v\<bar> \<le> V" "\<bar>w\<bar> \<le> V" "0 \<le> k" "k \<le> 1"
  shows "\<bar>v + k * (w - v)\<bar> \<le> V"
proof -
  have "v + k * (w - v) = (1 - k) * v + k * w" by (simp add: algebra_simps)
  also have "\<bar>\<dots>\<bar> \<le> (1 - k) * \<bar>v\<bar> + k * \<bar>w\<bar>"
    using assms by (intro order_trans [OF abs_triangle_ineq]) (simp add: abs_mult)
  also have "\<dots> \<le> (1 - k) * V + k * V" using assms by (intro add_mono mult_left_mono) auto
  finally show ?thesis by (simp add: algebra_simps)
qed

lemma sample_velocity_bound:
  fixes s a P v V t :: real
  assumes s: "s = 1 \<or> s = - 1" and a: "0 < a" and P: "0 \<le> P" "P \<le> V" and v: "\<bar>v\<bar> \<le> V" and t: "0 < t"
    and cur: "ts_velocity current = v" and gl: "ts_velocity goal = 0"
    and prof: "t_1 prof = (s * P - v) / (s * a)" "t_3 prof = (s * P) / (s * a)"
  shows "\<bar>ts_velocity (sample_at t prof (s * a) current goal)\<bar> \<le> V"
proof -
  have sa: "s * a \<noteq> 0" "\<bar>s * P\<bar> \<le> V" using s a P by auto
  have mid: "v + s * a * t_1 prof = s * P" using sa by (simp add: prof)
  have t3: "t_3 prof = P / a" using s a by (auto simp: prof)
  have ph1: "\<bar>v + s * a * t\<bar> \<le> V" if "t \<le> t_1 prof"
  proof -
    have pos: "0 < t_1 prof" using that t by simp
    have "v + s * a * t = v + (t / t_1 prof) * (s * P - v)"
      using pos by (simp flip: mid)
    then show ?thesis using convex_abs_bound [OF v sa(2), of "t / t_1 prof"] pos t that by simp
  qed
  have ph3: "\<bar>s * P - s * a * u\<bar> \<le> V" if "0 \<le> u" "u \<le> t_3 prof" for u
  proof (cases "P = 0")
    case True
    with that t3 have "u = 0" by simp
    with sa show ?thesis by simp
  next
    case False
    have "s * P - s * a * u = s * P + (u / (P / a)) * (0 - s * P)" using False a by (simp add: field_simps)
    moreover have "0 \<le> u / (P / a)" "u / (P / a) \<le> 1"
      using that False P a t3 by (simp_all add: field_simps)
    ultimately show ?thesis using convex_abs_bound [OF sa(2), of 0 "u / (P / a)"] P by simp
  qed
  have "0 \<le> V" using P by simp
  then show ?thesis
    using ph1 ph3 [of "t - t_1 prof - t_2 prof"] sa(2) mid gl
    by (simp add: sample_at_def Let_def advance_def cur)
qed

lemma GetSign_cases: "GetSign c current goal = 1 \<or> GetSign c current goal = - 1"
  by (simp add: GetSign_def Let_def copysign_def)

lemma GenerateProfile_shape:
  assumes "0 < maxVelocity c" "ts_velocity goal = 0" "s = 1 \<or> s = - 1"
    "0 < maxAcceleration c"
  obtains P where "0 \<le> P" "P \<le> maxVelocity c" "0 \<le> t_2 (GenerateProfile c s current goal)"
    "t_1 (GenerateProfile c s current goal) = (s * P - ts_velocity current) / (s * maxAcceleration c)"
    "t_3 (GenerateProfile c s current goal) = (s * P) / (s * maxAcceleration c)"
proof -
  let ?q = "sqrt (max (s * maxAcceleration c * (ts_position goal - ts_position current)
     + (ts_velocity current * ts_velocity current) / 2) 0)"
  have ss: "s * (s * x) = x" for x :: real using assms(3) by auto
  show thesis
  proof (cases "?q > maxVelocity c")
    case True
    have "(maxVelocity c)\<^sup>2 < ?q\<^sup>2" using True assms(1) by (intro power_strict_mono) simp_all
    also have "\<dots> = s * maxAcceleration c * (ts_position goal - ts_position current) + (ts_velocity current)\<^sup>2 / 2"
      using True assms(1) by (auto simp: power2_eq_square max_def split: if_splits)
    finally have "0 \<le> (s * maxAcceleration c * (ts_position goal - ts_position current)
        + (ts_velocity current)\<^sup>2 / 2 - (maxVelocity c)\<^sup>2) / (maxAcceleration c * maxVelocity c)"
      using assms by (intro divide_nonneg_pos) simp_all
    also have "\<dots> = t_2 (GenerateProfile c s current goal)"
      using True assms by (auto simp: GenerateProfile_def Let_def field_simps power2_eq_square)
    finally show ?thesis
      using True assms by (intro that [of "maxVelocity c"]) (simp_all add: GenerateProfile_def Let_def ss)
  next
    case False
    then show ?thesis
      using assms by (intro that [of ?q]) (simp_all add: GenerateProfile_def Let_def ss)
  qed
qed

definition TimeLeftUntil :: "Constraints \<Rightarrow> TState \<Rightarrow> TState \<Rightarrow> real" where
  "TimeLeftUntil c current0 goal0 =
     (let (recoveryTime, current, goal) = AdjustStates c current0 goal0;
          prof = GenerateProfile c (GetSign c current goal) current goal
      in (t_1 prof + recoveryTime) + t_2 prof + t_3 prof)"

text \<open>
  C36. The streamed speed stays within the move's limit. For a goal at rest and a current speed within
  the velocity limit, the sampled state is within the limit at every look-ahead time; and once the
  look-ahead exceeds the remaining time of the profile the sample is the goal itself, position and
  zero velocity, with no residual error.
\<close>

theorem profile_within_limit:
  assumes "0 < maxVelocity c" "0 < maxAcceleration c" "\<bar>ts_velocity s\<bar> \<le> maxVelocity c" "0 < t"
  shows "\<bar>ts_velocity (Calculate c t s \<lparr>ts_position = x, ts_velocity = 0\<rparr>)\<bar> \<le> maxVelocity c
    \<and> (TimeLeftUntil c s \<lparr>ts_position = x, ts_velocity = 0\<rparr> < t \<longrightarrow>
         Calculate c t s \<lparr>ts_position = x, ts_velocity = 0\<rparr> = \<lparr>ts_position = x, ts_velocity = 0\<rparr>)"
proof -
  let ?g = "\<lparr>ts_position = x, ts_velocity = 0\<rparr>"
  let ?s = "GetSign c s ?g"
  have calc: "Calculate c t s ?g = sample_at t (GenerateProfile c ?s s ?g) (?s * maxAcceleration c) s ?g"
    using assms by (intro Calculate_sample) simp_all
  obtain P where P: "0 \<le> P" "P \<le> maxVelocity c" "0 \<le> t_2 (GenerateProfile c ?s s ?g)"
    "t_1 (GenerateProfile c ?s s ?g) = (?s * P - ts_velocity s) / (?s * maxAcceleration c)"
    "t_3 (GenerateProfile c ?s s ?g) = (?s * P) / (?s * maxAcceleration c)"
    using GenerateProfile_shape [of c ?g ?s s] GetSign_cases [of c s ?g] assms by auto
  have "\<bar>ts_velocity (Calculate c t s ?g)\<bar> \<le> maxVelocity c"
    unfolding calc
    by (rule sample_velocity_bound [OF GetSign_cases assms(2) P(1,2) assms(3,4) refl _ P(4,5)]) simp
  moreover have "0 \<le> t_3 (GenerateProfile c ?s s ?g)"
    using P(1) assms(2) GetSign_cases [of c s ?g] by (auto simp: P(5))
  moreover have "AdjustStates c s ?g = (0, s, ?g)" using assms by (simp add: AdjustStates_def Let_def)
  ultimately show ?thesis
    using P(3) by (auto simp: Let_def calc sample_at_def TimeLeftUntil_def)
qed

theorem profile_within_limit_witness:
  "\<bar>ts_velocity (Calculate \<lparr>maxVelocity = 10, maxAcceleration = 5\<rparr> 1 \<lparr>ts_position = 0, ts_velocity = 4\<rparr>
     \<lparr>ts_position = 100, ts_velocity = 0\<rparr>)\<bar> \<le> 10"
  using profile_within_limit [of "\<lparr>maxVelocity = 10, maxAcceleration = 5\<rparr>" "\<lparr>ts_position = 0, ts_velocity = 4\<rparr>" 1 100]
  by simp

end
