(* ===== verification/MotionMode.thy ===== *)
theory MotionMode
  imports Sequencer Trapezoid
begin

text \<open>
  The motion strategies of the servo controller, \<^verbatim>\<open>src/src/viam/lib/motion_mode.hpp\<close> and
  \<^verbatim>\<open>motion_mode.cpp\<close>: profile position and velocity with the drive's own trajectory
  (\<open>ProfilePositionMode\<close> over the sequencer) and cyclic synchronous position with the set-point
  generator (\<open>CyclicPositionMode\<close>). The virtual class \<^verbatim>\<open>MotionMode\<close> is the tagged union of the two and its
  virtual calls are the dispatch on the tag; the contract the controller relies on is a locale.
\<close>

subsection \<open>Shared data\<close>

definition kModeEchoCycles :: u32 where "kModeEchoCycles = 200"

record MotionFeedback =
  fb_status :: Status
  fb_actual :: i32
  fb_mode_echo :: "i8 option"
  fb_at_rest :: bool
  fb_near_target :: bool
  fb_bit_usable :: bool

datatype MotionCommand = PositionCommand | VelocityCommand

datatype MotionFault = NoMotionFault | SetpointNotAcknowledged | ModeNotAdopted

fun to_string_motion_fault :: "MotionFault \<Rightarrow> string" where
  "to_string_motion_fault NoMotionFault = ''none''"
| "to_string_motion_fault SetpointNotAcknowledged =
     ''the drive did not acknowledge the new set-point (statusword bit 12)''"
| "to_string_motion_fault ModeNotAdopted =
     ''the drive did not adopt the commanded mode (0x6061 never echoed 0x6060)''"

definition select_mode_on_drive :: "'w soem \<Rightarrow> u16 \<Rightarrow> Cia402Mode \<Rightarrow> ('w Master, unit) em" where
  "select_mode_on_drive S slave mode =
     em_catch (cfg_sdo_write S slave 0x6060 0 (le8 mode))
       (\<lambda>e. case e of SdoError msg code \<Rightarrow> em_throw (Error (''the drive refused control_mode: '' @ msg)) | _ \<Rightarrow> em_throw e)"

subsection \<open>Profile position\<close>

record ProfilePositionMode =
  pp_quick_stop_decel :: u32
  pp_sequencer :: Sequencer
  pp_intent :: Cia402Mode
  pp_target_counts :: i32
  pp_profile_vel :: u32
  pp_pv_velocity :: i32
  pp_halted :: bool
  pp_pending_new_setpoint :: bool
  pp_echo_wait_cycles :: u32
  pp_mode_not_adopted :: bool

definition pp_new :: "u32 \<Rightarrow> i16 \<Rightarrow> ProfilePositionMode" where
  "pp_new decel option = \<lparr>pp_quick_stop_decel = decel, pp_sequencer = Sequencer_new decel option,
     pp_intent = ProfilePosition, pp_target_counts = 0, pp_profile_vel = 0, pp_pv_velocity = 0, pp_halted = False,
     pp_pending_new_setpoint = False, pp_echo_wait_cycles = 0, pp_mode_not_adopted = False\<rparr>"

definition pp_mode_required_by :: "MotionCommand \<Rightarrow> Cia402Mode" where
  "pp_mode_required_by cmd = (if cmd = PositionCommand then ProfilePosition else ProfileVelocity)"

definition pp_resolve ::
    "'w soem \<Rightarrow> u16 \<Rightarrow> ProfilePositionMode \<Rightarrow> ('w Master, ProfilePositionMode \<times> u32) em" where
  "pp_resolve S slave m =
     em_seq (select_mode_on_drive S slave ProfilePosition)
     (em_bind (Sequencer_configure S slave (pp_quick_stop_decel m > 0) (pp_sequencer m)) (\<lambda>(q, echoed).
      em_return (m\<lparr>pp_sequencer := q\<rparr>, echoed)))"

definition pp_reset :: "ProfilePositionMode \<Rightarrow> ProfilePositionMode" where
  "pp_reset m = m\<lparr>pp_sequencer := Sequencer_reset (pp_sequencer m), pp_intent := ProfilePosition,
     pp_target_counts := 0, pp_profile_vel := 0, pp_pv_velocity := 0, pp_halted := False,
     pp_pending_new_setpoint := False, pp_echo_wait_cycles := 0, pp_mode_not_adopted := False\<rparr>"

definition pp_go_to :: "i32 \<Rightarrow> u32 \<Rightarrow> ProfilePositionMode \<Rightarrow> ProfilePositionMode" where
  "pp_go_to target vel m = m\<lparr>pp_intent := ProfilePosition, pp_target_counts := target, pp_profile_vel := vel,
     pp_pending_new_setpoint := True, pp_halted := False\<rparr>"

definition pp_set_velocity :: "i32 \<Rightarrow> ProfilePositionMode \<Rightarrow> ProfilePositionMode" where
  "pp_set_velocity vel m = m\<lparr>pp_intent := ProfileVelocity, pp_pv_velocity := vel, pp_halted := False\<rparr>"

definition pp_halt :: "ProfilePositionMode \<Rightarrow> ProfilePositionMode" where
  "pp_halt m = m\<lparr>pp_halted := True\<rparr>"

definition pp_echoed :: "MotionFeedback \<Rightarrow> ProfilePositionMode \<Rightarrow> bool" where
  "pp_echoed fb m = (case fb_mode_echo fb of None \<Rightarrow> True | Some e \<Rightarrow> e = pp_intent m)"

definition pp_command :: "ProfilePositionMode \<Rightarrow> SequencerCommand" where
  "pp_command m = \<lparr>cmd_mode = pp_intent m, target_counts = pp_target_counts m, profile_velocity = pp_profile_vel m,
     target_velocity = pp_pv_velocity m, cmd_enable = True, cmd_halt = pp_halted m, new_setpoint = False\<rparr>"

definition pp_step ::
    "ProfilePositionMode \<Rightarrow> CycleContext \<Rightarrow> MotionFeedback \<Rightarrow> ProfilePositionMode \<times> CycleContext \<times> u16" where
  "pp_step m0 c fb =
     (let m = m0\<lparr>pp_mode_not_adopted := False\<rparr>;
          (m1, cmd) =
            (if \<not> pp_echoed fb m
             then let m' = m\<lparr>pp_echo_wait_cycles := pp_echo_wait_cycles m + 1\<rparr>
                  in (if pp_echo_wait_cycles m' = kModeEchoCycles
                      then m'\<lparr>pp_mode_not_adopted := True, pp_intent := the (fb_mode_echo fb), pp_pv_velocity := 0,
                              pp_pending_new_setpoint := False\<rparr>
                      else m', (pp_command m)\<lparr>target_velocity := 0\<rparr>)
             else (m\<lparr>pp_echo_wait_cycles := 0, pp_pending_new_setpoint := False\<rparr>,
                   (pp_command m)\<lparr>new_setpoint := pp_pending_new_setpoint m\<rparr>));
          (q, c', cw) = Sequencer_step cmd (pp_sequencer m1) c
      in (m1\<lparr>pp_sequencer := q\<rparr>, c', cw))"

definition SequencerCommand_default :: SequencerCommand where
  "SequencerCommand_default = \<lparr>cmd_mode = ProfilePosition, target_counts = 0, profile_velocity = 0,
     target_velocity = 0, cmd_enable = False, cmd_halt = False, new_setpoint = False\<rparr>"

definition pp_step_shutdown ::
    "ProfilePositionMode \<Rightarrow> CycleContext \<Rightarrow> MotionFeedback \<Rightarrow> ProfilePositionMode \<times> CycleContext \<times> u16" where
  "pp_step_shutdown m c fb =
     (if pp_quick_stop_decel m > 0
      then let (q, c', cw) = Sequencer_step (SequencerCommand_default\<lparr>cmd_mode := pp_intent m\<rparr>) (pp_sequencer m) c
           in (m\<lparr>pp_sequencer := q\<rparr>, c', cw)
      else (m, c, disable_voltage))"

definition pp_is_target_reached :: "ProfilePositionMode \<Rightarrow> MotionFeedback \<Rightarrow> bool" where
  "pp_is_target_reached m fb =
     (if pp_intent m \<noteq> ProfilePosition \<or> \<not> handshake_idle (sq_state (pp_sequencer m)) then False
      else if fb_bit_usable fb then target_reached (fb_status fb) else fb_near_target fb \<and> fb_at_rest fb)"

definition pp_is_moving :: "ProfilePositionMode \<Rightarrow> bool" where
  "pp_is_moving m \<longleftrightarrow> pp_intent m = ProfileVelocity \<and> pp_pv_velocity m \<noteq> 0 \<and> \<not> pp_halted m"

definition pp_fault :: "ProfilePositionMode \<Rightarrow> MotionFault" where
  "pp_fault m =
     (if pp_mode_not_adopted m then ModeNotAdopted
      else if handshake_timed_out (sq_state (pp_sequencer m)) then SetpointNotAcknowledged else NoMotionFault)"

subsection \<open>Cyclic synchronous position\<close>

record CyclicPositionMode =
  dt_s :: real
  cs_accel :: double
  max_vel_cps :: double
  cs_quick_stop_decel :: u32
  f_target_pos :: FieldLocation
  generator :: TrapezoidGenerator
  positioning :: bool

definition cs_new :: "real \<Rightarrow> double \<Rightarrow> double \<Rightarrow> u32 \<Rightarrow> CyclicPositionMode" where
  "cs_new dt ac vm decel = \<lparr>dt_s = dt, cs_accel = ac, max_vel_cps = vm, cs_quick_stop_decel = decel,
     f_target_pos = \<lparr>byte_offset = 0\<rparr>, generator = TrapezoidGenerator_new, positioning = True\<rparr>"

definition cs_resolve ::
    "'w soem \<Rightarrow> u16 \<Rightarrow> CyclicPositionMode \<Rightarrow> ('w Master, CyclicPositionMode \<times> u32) em" where
  "cs_resolve S slave m =
     em_seq (select_mode_on_drive S slave CyclicSyncPosition)
     (em_bind (cfg_resolve_rx slave TargetPosition_field) (\<lambda>loc.
     em_seq (em_when (cs_quick_stop_decel m > 0)
               (em_catch (cfg_sdo_write S slave 0x6085 0 (le32 (cs_quick_stop_decel m)))
                  (\<lambda>e. case e of SdoError _ _ \<Rightarrow> em_return () | _ \<Rightarrow> em_throw e)))
     (em_return (m\<lparr>f_target_pos := loc\<rparr>, 0))))"

definition cs_reset :: "CyclicPositionMode \<Rightarrow> CyclicPositionMode" where
  "cs_reset m = m\<lparr>generator := reseed 0 (generator m), positioning := True\<rparr>"

text \<open>
  \<^verbatim>\<open>static_cast<uint32_t>\<close> of a value in range truncates; a NaN or negative value (where the conversion is
  undefined in C++) is mapped to some number and never relied on.
\<close>

definition cs_shutdown_cycles :: "CyclicPositionMode \<Rightarrow> u32" where
  "cs_shutdown_cycles m =
     (let ramp_s = (if dlt (Fin 0) (cs_accel m) then ddiv (max_vel_cps m) (cs_accel m) else Fin 0)
      in case ddiv ramp_s (Fin (dt_s m)) of
           Fin x \<Rightarrow> word_of_int \<lfloor>min (x + 20) 60000\<rfloor>
         | PosInf \<Rightarrow> 60000
         | _ \<Rightarrow> 0)"

definition cs_go_to :: "i32 \<Rightarrow> u32 \<Rightarrow> CyclicPositionMode \<Rightarrow> CyclicPositionMode" where
  "cs_go_to target vel m =
     (case set_goal target (double_of_u32 vel) (cs_accel m) (generator m) of
        (ok, g) \<Rightarrow> if ok then m\<lparr>generator := g, positioning := True\<rparr> else m\<lparr>generator := g\<rparr>)"

definition cs_set_velocity :: "i32 \<Rightarrow> CyclicPositionMode \<Rightarrow> CyclicPositionMode" where
  "cs_set_velocity vel m =
     (case gen_set_velocity (double_of_i32 vel) (cs_accel m) (generator m) of
        (ok, g) \<Rightarrow> if ok then m\<lparr>generator := g, positioning := False\<rparr> else m\<lparr>generator := g\<rparr>)"

definition cs_halt :: "CyclicPositionMode \<Rightarrow> CyclicPositionMode" where
  "cs_halt m = m\<lparr>generator := gen_stop (cs_accel m) (generator m)\<rparr>"

definition cs_step ::
    "CyclicPositionMode \<Rightarrow> CycleContext \<Rightarrow> MotionFeedback \<Rightarrow> CyclicPositionMode \<times> CycleContext \<times> u16" where
  "cs_step m c fb =
     (case gen_step (dt_s m) (generator m) of
        (target, g) \<Rightarrow> (m\<lparr>generator := g\<rparr>, ctx_store (f_target_pos m) target c, enable_operation))"

definition cs_track :: "CyclicPositionMode \<Rightarrow> CycleContext \<Rightarrow> MotionFeedback \<Rightarrow> CyclicPositionMode \<times> CycleContext" where
  "cs_track m c fb =
     (m\<lparr>generator := reseed (fb_actual fb) (generator m)\<rparr>, ctx_store (f_target_pos m) (fb_actual fb) c)"

definition cs_step_shutdown ::
    "CyclicPositionMode \<Rightarrow> CycleContext \<Rightarrow> MotionFeedback \<Rightarrow> CyclicPositionMode \<times> CycleContext \<times> u16" where
  "cs_step_shutdown m c fb =
     (if \<not> operation_enabled (fb_status fb) \<or> status_fault (fb_status fb)
      then (m\<lparr>generator := reseed (fb_actual fb) (generator m)\<rparr>, ctx_store (f_target_pos m) (fb_actual fb) c,
            disable_voltage)
      else if \<not> gen_idle (generator m)
      then let g = (if g_phase (generator m) \<noteq> GenVelocity \<or> ts_velocity (g_state (generator m)) \<noteq> 0
                    then gen_stop (cs_accel m) (generator m) else generator m);
               (target, g') = gen_step (dt_s m) g
           in (m\<lparr>generator := g'\<rparr>, ctx_store (f_target_pos m) target c, enable_operation)
      else (m, ctx_store (f_target_pos m) (gen_position (generator m)) c, disable_voltage))"

definition cs_is_target_reached :: "CyclicPositionMode \<Rightarrow> MotionFeedback \<Rightarrow> bool" where
  "cs_is_target_reached m fb \<longleftrightarrow>
     positioning m \<and> gen_idle (generator m) \<and> fb_near_target fb \<and> fb_at_rest fb"

definition cs_is_moving :: "CyclicPositionMode \<Rightarrow> bool" where
  "cs_is_moving m \<longleftrightarrow> \<not> gen_idle (generator m)"

subsection \<open>The virtual interface\<close>

datatype MotionMode = PP ProfilePositionMode | CSP CyclicPositionMode

fun mm_name :: "MotionMode \<Rightarrow> string" where
  "mm_name (PP m) = ''PP''"
| "mm_name (CSP m) = ''CSP''"

fun mm_commanded_mode :: "MotionMode \<Rightarrow> Cia402Mode" where
  "mm_commanded_mode (PP m) = pp_intent m"
| "mm_commanded_mode (CSP m) = CyclicSyncPosition"

fun mm_mode_required_by :: "MotionMode \<Rightarrow> MotionCommand \<Rightarrow> Cia402Mode" where
  "mm_mode_required_by (PP m) cmd = pp_mode_required_by cmd"
| "mm_mode_required_by (CSP m) cmd = CyclicSyncPosition"

fun mm_resolve :: "'w soem \<Rightarrow> u16 \<Rightarrow> MotionMode \<Rightarrow> ('w Master, MotionMode \<times> u32) em" where
  "mm_resolve S slave (PP m) = em_bind (pp_resolve S slave m) (\<lambda>(m', e). em_return (PP m', e))"
| "mm_resolve S slave (CSP m) = em_bind (cs_resolve S slave m) (\<lambda>(m', e). em_return (CSP m', e))"

fun mm_reset :: "MotionMode \<Rightarrow> MotionMode" where
  "mm_reset (PP m) = PP (pp_reset m)"
| "mm_reset (CSP m) = CSP (cs_reset m)"

fun mm_shutdown_cycles :: "MotionMode \<Rightarrow> u32" where
  "mm_shutdown_cycles (PP m) = 0"
| "mm_shutdown_cycles (CSP m) = cs_shutdown_cycles m"

fun mm_go_to :: "i32 \<Rightarrow> u32 \<Rightarrow> MotionMode \<Rightarrow> MotionMode" where
  "mm_go_to t v (PP m) = PP (pp_go_to t v m)"
| "mm_go_to t v (CSP m) = CSP (cs_go_to t v m)"

definition mm_go_for :: "i32 \<Rightarrow> u32 \<Rightarrow> i32 \<Rightarrow> MotionMode \<Rightarrow> MotionMode" where
  "mm_go_for delta v actual m = mm_go_to (actual + delta) v m"

fun mm_set_velocity :: "i32 \<Rightarrow> MotionMode \<Rightarrow> MotionMode" where
  "mm_set_velocity v (PP m) = PP (pp_set_velocity v m)"
| "mm_set_velocity v (CSP m) = CSP (cs_set_velocity v m)"

fun mm_halt :: "MotionMode \<Rightarrow> MotionMode" where
  "mm_halt (PP m) = PP (pp_halt m)"
| "mm_halt (CSP m) = CSP (cs_halt m)"

fun mm_step :: "MotionMode \<Rightarrow> CycleContext \<Rightarrow> MotionFeedback \<Rightarrow> MotionMode \<times> CycleContext \<times> u16" where
  "mm_step (PP m) c fb = (let (m', c', cw) = pp_step m c fb in (PP m', c', cw))"
| "mm_step (CSP m) c fb = (let (m', c', cw) = cs_step m c fb in (CSP m', c', cw))"

fun mm_track :: "MotionMode \<Rightarrow> CycleContext \<Rightarrow> MotionFeedback \<Rightarrow> MotionMode \<times> CycleContext" where
  "mm_track (PP m) c fb = (PP m, c)"
| "mm_track (CSP m) c fb = (let (m', c') = cs_track m c fb in (CSP m', c'))"

fun mm_step_shutdown :: "MotionMode \<Rightarrow> CycleContext \<Rightarrow> MotionFeedback \<Rightarrow> MotionMode \<times> CycleContext \<times> u16" where
  "mm_step_shutdown (PP m) c fb = (let (m', c', cw) = pp_step_shutdown m c fb in (PP m', c', cw))"
| "mm_step_shutdown (CSP m) c fb = (let (m', c', cw) = cs_step_shutdown m c fb in (CSP m', c', cw))"

fun mm_target :: "MotionMode \<Rightarrow> i32" where
  "mm_target (PP m) = pp_target_counts m"
| "mm_target (CSP m) = g_goal (generator m)"

fun mm_is_target_reached :: "MotionMode \<Rightarrow> MotionFeedback \<Rightarrow> bool" where
  "mm_is_target_reached (PP m) fb = pp_is_target_reached m fb"
| "mm_is_target_reached (CSP m) fb = cs_is_target_reached m fb"

fun mm_is_moving :: "MotionMode \<Rightarrow> bool" where
  "mm_is_moving (PP m) = pp_is_moving m"
| "mm_is_moving (CSP m) = cs_is_moving m"

fun mm_fault :: "MotionMode \<Rightarrow> MotionFault" where
  "mm_fault (PP m) = pp_fault m"
| "mm_fault (CSP m) = NoMotionFault"

subsection \<open>The contract of a mode\<close>

text \<open>
  What the controller relies on: a well-formed mode stays so under commands; an accepted move is the
  target from then on; a command asks the drive for the mode it needs; a reset mode is not moving.
\<close>

locale motion_mode =
  fixes wf :: "'m \<Rightarrow> bool"
    and go_to :: "i32 \<Rightarrow> u32 \<Rightarrow> 'm \<Rightarrow> 'm"
    and set_vel :: "i32 \<Rightarrow> 'm \<Rightarrow> 'm"
    and halt :: "'m \<Rightarrow> 'm"
    and reset :: "'m \<Rightarrow> 'm"
    and target_of :: "'m \<Rightarrow> i32"
    and commanded :: "'m \<Rightarrow> Cia402Mode"
    and required :: "'m \<Rightarrow> MotionCommand \<Rightarrow> Cia402Mode"
    and moving :: "'m \<Rightarrow> bool"
  assumes wf_go_to: "wf m \<Longrightarrow> wf (go_to t v m)"
    and wf_set_vel: "wf m \<Longrightarrow> wf (set_vel w m)"
    and wf_halt: "wf m \<Longrightarrow> wf (halt m)"
    and wf_reset: "wf m \<Longrightarrow> wf (reset m)"
    and go_to_target: "wf m \<Longrightarrow> v \<noteq> 0 \<Longrightarrow> target_of (go_to t v m) = t"
    and go_to_mode: "wf m \<Longrightarrow> v \<noteq> 0 \<Longrightarrow> commanded (go_to t v m) = required m PositionCommand"
    and set_vel_mode: "wf m \<Longrightarrow> commanded (set_vel w m) = required m VelocityCommand"
    and reset_rest: "wf m \<Longrightarrow> \<not> moving (reset m)"
begin

lemma go_for_target: "wf m \<Longrightarrow> v \<noteq> 0 \<Longrightarrow> target_of (go_to (actual + delta) v m) = actual + delta"
  by (rule go_to_target)

lemma last_move_wins:
  "wf m \<Longrightarrow> ms \<noteq> [] \<Longrightarrow> list_all (\<lambda>(t, v). v \<noteq> 0) ms \<Longrightarrow>
   target_of (foldl (\<lambda>m (t, v). go_to t v m) m ms) = fst (last ms)"
proof (induction ms rule: rev_induct)
  case (snoc x xs)
  have "wf (foldl (\<lambda>m (t, v). go_to t v m) m xs)" if "wf m" for m
    using that by (induction xs arbitrary: m) (auto intro: wf_go_to)
  then have "wf (foldl (\<lambda>m (t, v). go_to t v m) m xs)" using snoc.prems by simp
  then show ?case using snoc.prems by (cases x) (simp add: go_to_target)
qed simp

end

definition pp_wf :: "ProfilePositionMode \<Rightarrow> bool" where
  "pp_wf m \<longleftrightarrow> True"

definition gen_wf :: "real \<Rightarrow> TrapezoidGenerator \<Rightarrow> bool" where
  "gen_wf a g \<longleftrightarrow> 0 < g_accel g \<and> (g_phase g = GenIdle \<longrightarrow> ts_velocity (g_state g) = 0)
     \<and> (g_phase g \<noteq> GenIdle \<longrightarrow> g_accel g = a)"

definition cs_wf :: "CyclicPositionMode \<Rightarrow> bool" where
  "cs_wf m \<longleftrightarrow> 0 < dt_s m \<and> valid_limit (cs_accel m) \<and> gen_wf (the_double (cs_accel m)) (generator m)"

fun mm_wf :: "MotionMode \<Rightarrow> bool" where
  "mm_wf (PP m) = pp_wf m"
| "mm_wf (CSP m) = cs_wf m"

lemma gen_wf_ops:
  assumes "0 < a" "gen_wf a g"
  shows "gen_wf a (reseed p g)" "gen_wf a (snd (set_goal t v (Fin a) g))"
    "gen_wf a (snd (gen_set_velocity w (Fin a) g))" "gen_wf a (gen_stop (Fin a) g)"
  using assms
  by (simp_all add: gen_wf_def reseed_def set_goal_def gen_set_velocity_def gen_stop_def Let_def)

lemma valid_limit_Fin: "valid_limit d \<longleftrightarrow> (\<exists>a. d = Fin a \<and> 0 < a)"
  by (cases d) auto

lemma cs_wf_ops:
  assumes "cs_wf m"
  shows "cs_wf (cs_go_to t v m)" "cs_wf (cs_set_velocity w m)" "cs_wf (cs_halt m)" "cs_wf (cs_reset m)"
proof -
  obtain a where a: "cs_accel m = Fin a" "0 < a" "gen_wf a (generator m)" "0 < dt_s m"
    using assms by (auto simp: cs_wf_def valid_limit_Fin)
  note g = gen_wf_ops [OF a(2,3)]
  show "cs_wf (cs_go_to t v m)" "cs_wf (cs_set_velocity w m)" "cs_wf (cs_halt m)" "cs_wf (cs_reset m)"
    using g a
    by (simp_all add: cs_wf_def cs_go_to_def cs_set_velocity_def cs_halt_def cs_reset_def split_beta)
qed

lemma cs_go_to_target:
  assumes "cs_wf m" "v \<noteq> 0" shows "g_goal (generator (cs_go_to t v m)) = t"
proof -
  have "uint v \<noteq> 0" using assms(2) by (simp add: uint_0_iff)
  then have "0 < uint v" using uint_ge_0 [of v] by linarith
  then have "(0 :: real) < of_int (uint v)" by (simp only: of_int_0_less_iff)
  then show ?thesis
    using assms(1) by (auto simp: cs_wf_def valid_limit_Fin cs_go_to_def set_goal_def double_of_u32_def)
qed

interpretation pp: motion_mode pp_wf pp_go_to pp_set_velocity pp_halt pp_reset pp_target_counts pp_intent
  "\<lambda>_. pp_mode_required_by" pp_is_moving
  by unfold_locales
    (simp_all add: pp_wf_def pp_go_to_def pp_set_velocity_def pp_mode_required_by_def pp_is_moving_def pp_reset_def
      ProfilePosition_def ProfileVelocity_def)

interpretation csp: motion_mode cs_wf cs_go_to cs_set_velocity cs_halt cs_reset "\<lambda>m. g_goal (generator m)"
  "\<lambda>_. CyclicSyncPosition" "\<lambda>_ _. CyclicSyncPosition" cs_is_moving
  by unfold_locales
    (fact cs_wf_ops | simp add: cs_wf_ops cs_go_to_target cs_is_moving_def cs_reset_def gen_idle_def reseed_def)+

interpretation mm: motion_mode mm_wf mm_go_to mm_set_velocity mm_halt mm_reset mm_target mm_commanded_mode
  mm_mode_required_by mm_is_moving
proof
  fix m t v w
  show "mm_wf m \<Longrightarrow> mm_wf (mm_go_to t v m)" by (cases m) (simp_all add: pp.wf_go_to csp.wf_go_to)
  show "mm_wf m \<Longrightarrow> mm_wf (mm_set_velocity w m)" by (cases m) (simp_all add: pp.wf_set_vel csp.wf_set_vel)
  show "mm_wf m \<Longrightarrow> mm_wf (mm_halt m)" by (cases m) (simp_all add: pp.wf_halt csp.wf_halt)
  show "mm_wf m \<Longrightarrow> mm_wf (mm_reset m)" by (cases m) (simp_all add: pp.wf_reset csp.wf_reset)
  show "mm_wf m \<Longrightarrow> v \<noteq> 0 \<Longrightarrow> mm_target (mm_go_to t v m) = t"
    by (cases m) (simp_all add: pp.go_to_target csp.go_to_target)
  show "mm_wf m \<Longrightarrow> v \<noteq> 0 \<Longrightarrow> mm_commanded_mode (mm_go_to t v m) = mm_mode_required_by m PositionCommand"
    by (cases m) (simp_all add: pp.go_to_mode)
  show "mm_wf m \<Longrightarrow> mm_commanded_mode (mm_set_velocity w m) = mm_mode_required_by m VelocityCommand"
    by (cases m) (simp_all add: pp.set_vel_mode)
  show "mm_wf m \<Longrightarrow> \<not> mm_is_moving (mm_reset m)"
    by (cases m) (simp_all add: pp.reset_rest csp.reset_rest)
qed

subsection \<open>Enabling without a lunge\<close>

lemma to_wire_sint [simp]: "to_wire (signed (w :: i32)) = w"
  by (simp add: to_wire_def)

text \<open>
  C34. A cyclic-position drive is never enabled against a stale target. After a tracking cycle (the drive
  not enabled) the command image carries the actual position as its target, and the first enabled cycle
  after it commands that same position again, whatever was commanded before.
\<close>

theorem csp_enable_without_lunge:
  assumes "byte_offset (f_target_pos m) + 4 \<le> length (cc_outputs c)"
    "byte_offset (f_target_pos m) + 4 \<le> length (cc_outputs c')"
    "cs_track m c fb = (m1, c1)" "cs_step m1 c' fb' = (m2, c2, cw)"
  shows "load_at (cc_outputs c1) (f_target_pos m) = fb_actual fb
    \<and> load_at (cc_outputs c2) (f_target_pos m) = fb_actual fb
    \<and> cw = enable_operation \<and> \<not> cs_is_moving m2 \<and> g_goal (generator m2) = fb_actual fb"
proof -
  have st: "load_at (cc_outputs (ctx_store (f_target_pos m) v d)) (f_target_pos m) = v"
    if "byte_offset (f_target_pos m) + 4 \<le> length (cc_outputs d)" for v :: i32 and d
    using that by (simp add: ctx_store_def load_store_at in_image_def)
  show ?thesis
    using assms st
    by (auto simp: cs_track_def cs_step_def gen_step_def reseed_def gen_position_def cs_is_moving_def gen_idle_def)
qed

definition csp_demo :: CyclicPositionMode where
  "csp_demo = (cs_new (1 / 1000) (Fin 10000) (Fin 1000) 0)
     \<lparr>generator := TrapezoidGenerator_new\<lparr>g_state := \<lparr>ts_position = 7, ts_velocity = 500\<rparr>, g_accel := 10000,
        g_v_target := 500, g_phase := GenVelocity\<rparr>\<rparr>"

definition demo_image :: CycleContext where
  "demo_image = \<lparr>cc_inputs = [], cc_outputs = [0, 0, 0, 0], cc_cycle = 0, cc_dc_time = 0, cc_stopping = False,
     cc_wkc = \<lparr>ws_expected = 3, ws_last = 3, ws_total_cycles = 0, ws_bad_cycles = 0\<rparr>, cc_fault = False,
     cc_stop_requested = False\<rparr>"

definition demo_fb :: "u16 \<Rightarrow> MotionFeedback" where
  "demo_fb sw = \<lparr>fb_status = \<lparr>sw_raw = sw\<rparr>, fb_actual = 42, fb_mode_echo = None, fb_at_rest = True,
     fb_near_target = False, fb_bit_usable = True\<rparr>"

theorem csp_enable_without_lunge_witness:
  "load_at (cc_outputs (fst (snd (cs_step (fst (cs_track csp_demo demo_image (demo_fb 0x31)))
     demo_image (demo_fb 0x37))))) \<lparr>byte_offset = 0\<rparr> = (42 :: i32)"
proof -
  obtain m1 c1 where t: "cs_track csp_demo demo_image (demo_fb 0x31) = (m1, c1)" by fastforce
  obtain m2 c2 cw where s: "cs_step m1 demo_image (demo_fb 0x37) = (m2, c2, cw)" by (metis prod_cases3)
  have "byte_offset (f_target_pos csp_demo) + 4 \<le> length (cc_outputs demo_image)"
    by (simp add: csp_demo_def cs_new_def demo_image_def)
  moreover have "f_target_pos csp_demo = \<lparr>byte_offset = 0\<rparr>" "fb_actual (demo_fb 0x31) = 42"
    by (simp_all add: csp_demo_def cs_new_def demo_fb_def)
  ultimately show ?thesis
    using csp_enable_without_lunge [OF _ _ t s] by (simp add: t s)
qed

subsection \<open>The shutdown ramp\<close>

text \<open>One cycle of a velocity run toward rest takes off one step of speed, down to exactly zero.\<close>

lemma velocity_step_to_rest:
  assumes "0 < g_accel g" "0 < dt" "g_v_target g = 0"
  shows "\<bar>ts_velocity (g_state (velocity_step dt g))\<bar> = max 0 (\<bar>ts_velocity (g_state g)\<bar> - g_accel g * dt)"
    "gen_idle (velocity_step dt g) \<longleftrightarrow> \<bar>ts_velocity (g_state g)\<bar> \<le> g_accel g * dt \<or> gen_idle g"
    "g_accel (velocity_step dt g) = g_accel g"
    "g_phase (velocity_step dt g) = (if gen_idle (velocity_step dt g) then GenIdle else g_phase g)"
proof -
  have p: "0 < g_accel g * dt" using assms by simp
  then show "\<bar>ts_velocity (g_state (velocity_step dt g))\<bar> = max 0 (\<bar>ts_velocity (g_state g)\<bar> - g_accel g * dt)"
    using assms(3) by (auto simp: velocity_step_def Let_def)
  show "gen_idle (velocity_step dt g) \<longleftrightarrow> \<bar>ts_velocity (g_state g)\<bar> \<le> g_accel g * dt \<or> gen_idle g"
    using assms(3) p by (auto simp: velocity_step_def Let_def gen_idle_def)
  show "g_accel (velocity_step dt g) = g_accel g" by (simp add: velocity_step_def Let_def)
  show "g_phase (velocity_step dt g) = (if gen_idle (velocity_step dt g) then GenIdle else g_phase g)"
    by (simp add: velocity_step_def Let_def gen_idle_def)
qed

lemma gen_stop_moving:
  assumes "0 < a" "ts_velocity (g_state g) \<noteq> 0"
  shows "g_phase (gen_stop (Fin a) g) = GenVelocity" "g_v_target (gen_stop (Fin a) g) = 0"
    "g_accel (gen_stop (Fin a) g) = a" "g_state (gen_stop (Fin a) g) = g_state g"
  using assms by (simp_all add: gen_stop_def gen_set_velocity_def Let_def)

lemma gen_stop_rest:
  assumes "0 < a" "ts_velocity (g_state g) = 0"
  shows "g_phase (gen_stop (Fin a) g) = GenIdle" "g_state (gen_stop (Fin a) g) = g_state g"
  using assms by (simp_all add: gen_stop_def gen_set_velocity_def Let_def)

definition shutdown_input :: "CycleContext \<times> MotionFeedback \<Rightarrow> bool" where
  "shutdown_input i \<longleftrightarrow> operation_enabled (fb_status (snd i)) \<and> \<not> status_fault (fb_status (snd i))"

definition cs_shutdown_cycle :: "CyclicPositionMode \<Rightarrow> CycleContext \<times> MotionFeedback \<Rightarrow> CyclicPositionMode" where
  "cs_shutdown_cycle m i = fst (cs_step_shutdown m (fst i) (snd i))"

definition ramp_bound :: "CyclicPositionMode \<Rightarrow> nat" where
  "ramp_bound m =
     (let v = \<bar>ts_velocity (g_state (generator m))\<bar>
      in if gen_idle (generator m) then 0
         else if v = 0 then (if g_phase (generator m) = GenVelocity then 2 else 1)
         else nat \<lceil>v / (the_double (cs_accel m) * dt_s m)\<rceil>)"

lemma cs_shutdown_frame [simp]:
  "cs_accel (cs_shutdown_cycle m i) = cs_accel m" "dt_s (cs_shutdown_cycle m i) = dt_s m"
  by (simp_all add: cs_shutdown_cycle_def cs_step_shutdown_def Let_def split_beta)

text \<open>The generator's next state, by the cases of its present one.\<close>

lemma cs_shutdown_gen:
  assumes "cs_wf m" "shutdown_input i" "cs_accel m = Fin a" "g = generator m"
  shows "gen_idle g \<Longrightarrow> generator (cs_shutdown_cycle m i) = g"
    "\<not> gen_idle g \<Longrightarrow> ts_velocity (g_state g) \<noteq> 0 \<Longrightarrow>
       generator (cs_shutdown_cycle m i) = velocity_step (dt_s m) (gen_stop (Fin a) g)"
    "\<not> gen_idle g \<Longrightarrow> ts_velocity (g_state g) = 0 \<Longrightarrow> g_phase g \<noteq> GenVelocity \<Longrightarrow>
       generator (cs_shutdown_cycle m i) = gen_stop (Fin a) g"
    "ts_velocity (g_state g) = 0 \<Longrightarrow> g_phase g = GenVelocity \<Longrightarrow>
       generator (cs_shutdown_cycle m i) = velocity_step (dt_s m) g"
proof -
  have a: "0 < a" "0 < dt_s m" using assms by (auto simp: cs_wf_def valid_limit_Fin)
  note d = cs_shutdown_cycle_def cs_step_shutdown_def shutdown_input_def gen_step_def Let_def
  show "gen_idle g \<Longrightarrow> generator (cs_shutdown_cycle m i) = g" using assms by (simp add: d)
  show "\<not> gen_idle g \<Longrightarrow> ts_velocity (g_state g) \<noteq> 0 \<Longrightarrow>
      generator (cs_shutdown_cycle m i) = velocity_step (dt_s m) (gen_stop (Fin a) g)"
    using assms a gen_stop_moving [OF a(1)] by (simp add: d)
  show "\<not> gen_idle g \<Longrightarrow> ts_velocity (g_state g) = 0 \<Longrightarrow> g_phase g \<noteq> GenVelocity \<Longrightarrow>
      generator (cs_shutdown_cycle m i) = gen_stop (Fin a) g"
    using assms a gen_stop_rest [OF a(1)] by (simp add: d)
  show "ts_velocity (g_state g) = 0 \<Longrightarrow> g_phase g = GenVelocity \<Longrightarrow>
      generator (cs_shutdown_cycle m i) = velocity_step (dt_s m) g"
    using assms a by (simp add: d gen_idle_def)
qed

lemma velocity_step_wf:
  assumes "0 < a" "gen_wf a g" "g_phase g = GenVelocity" shows "gen_wf a (velocity_step dt g)"
  using assms by (auto simp: velocity_step_def gen_wf_def Let_def)

lemma cs_shutdown_wf:
  assumes "cs_wf m" shows "cs_wf (cs_shutdown_cycle m i)"
proof -
  obtain a where a: "cs_accel m = Fin a" "0 < a" "gen_wf a (generator m)" "0 < dt_s m"
    using assms by (auto simp: cs_wf_def valid_limit_Fin)
  have "gen_wf a (generator (cs_shutdown_cycle m i))"
  proof (cases "shutdown_input i")
    case False
    then show ?thesis
      using gen_wf_ops(1) [OF a(2,3)] by (simp add: cs_shutdown_cycle_def cs_step_shutdown_def shutdown_input_def)
  next
    case True
    note g = cs_shutdown_gen [OF assms True a(1) refl]
    note stop = gen_wf_ops(4) [OF a(2,3)]
    have "gen_wf a (velocity_step (dt_s m) (gen_stop (Fin a) (generator m)))"
      if "ts_velocity (g_state (generator m)) \<noteq> 0"
      using velocity_step_wf [OF a(2) stop] gen_stop_moving(1) [OF a(2) that] by simp
    then show ?thesis
      using g stop a(3) velocity_step_wf [OF a(2,3)]
      by (cases "gen_idle (generator m)"; cases "ts_velocity (g_state (generator m)) = 0";
          cases "g_phase (generator m) = GenVelocity") simp_all
  qed
  then show ?thesis using a by (simp add: cs_wf_def)
qed

lemma ramp_bound_pos: "\<not> gen_idle (generator m) \<Longrightarrow> cs_wf m \<Longrightarrow> 0 < ramp_bound m"
  by (auto simp: ramp_bound_def Let_def cs_wf_def valid_limit_Fin)

lemma ramp_bound_idle [simp]: "gen_idle (generator m) \<Longrightarrow> ramp_bound m = 0"
  by (simp add: ramp_bound_def)

lemma ceiling_step: "1 < x \<Longrightarrow> nat \<lceil>x - 1\<rceil> < nat \<lceil>x :: real\<rceil>"
  by (simp add: ceiling_diff_one)

lemma ramp_bound_decr:
  assumes "shutdown_input i" "cs_wf m" "\<not> gen_idle (generator m)"
  shows "ramp_bound (cs_shutdown_cycle m i) < ramp_bound m"
proof -
  obtain a where a: "cs_accel m = Fin a" "0 < a" "gen_wf a (generator m)" "0 < dt_s m"
    using assms by (auto simp: cs_wf_def valid_limit_Fin)
  define g where "g = generator m"
  define g' where "g' = generator (cs_shutdown_cycle m i)"
  let ?v = "\<bar>ts_velocity (g_state g)\<bar>"
  have ad: "0 < a * dt_s m" using a by simp
  note next_gen = cs_shutdown_gen [OF assms(2,1) a(1) g_def, folded g'_def]
  have pos: "0 < ramp_bound m" using ramp_bound_pos assms by simp
  show ?thesis
  proof (cases "gen_idle g'")
    case True
    then show ?thesis using pos by (simp add: g'_def)
  next
    case False
    show ?thesis
    proof (cases "ts_velocity (g_state g) = 0")
      case True
      have ph: "g_phase g = GenVelocity"
        using False next_gen(3) assms(3) True gen_stop_rest(1) [OF a(2) True]
        by (auto simp: g_def gen_idle_def)
      with True next_gen(4) have g': "g' = velocity_step (dt_s m) g" by simp
      have acc: "g_accel g = a" using a(3) ph by (simp add: gen_wf_def g_def)
      have "\<bar>ts_velocity (g_state g')\<bar> \<le> a * dt_s m" and "g_phase g' = GenVelocity \<Longrightarrow> ts_velocity (g_state g') \<noteq> 0"
        and "g_phase g' = GenVelocity"
        using False True ad acc ph by (auto simp: g' velocity_step_def Let_def gen_idle_def)
      then have "ramp_bound (cs_shutdown_cycle m i) \<le> 1"
        using ad a False by (simp add: ramp_bound_def g'_def [symmetric] Let_def ceiling_le_iff)
      moreover have "ramp_bound m = 2" using ph True by (simp add: ramp_bound_def g_def [symmetric] gen_idle_def)
      ultimately show ?thesis by simp
    next
      case v: False
      let ?s = "gen_stop (Fin a) g"
      have g': "g' = velocity_step (dt_s m) ?s" using next_gen(2) assms(3) v by (simp add: g_def)
      note st = gen_stop_moving [OF a(2) v]
      have acc: "0 < g_accel ?s" using st a by simp
      note vs = velocity_step_to_rest [OF acc a(4) st(2), folded g', unfolded st]
      have lt: "a * dt_s m < ?v" using False vs(2) by (simp add: gen_idle_def)
      with vs(1) have v': "\<bar>ts_velocity (g_state g')\<bar> = ?v - a * dt_s m" by simp
      have "ramp_bound (cs_shutdown_cycle m i) = nat \<lceil>?v / (a * dt_s m) - 1\<rceil>"
        using False v' lt ad a by (simp add: ramp_bound_def g'_def [symmetric] Let_def diff_divide_distrib)
      also have "\<dots> < nat \<lceil>?v / (a * dt_s m)\<rceil>" using lt ad by (intro ceiling_step) (simp add: field_simps)
      also have "\<dots> = ramp_bound m"
        using assms(3) v a by (simp add: ramp_bound_def g_def [symmetric] Let_def)
      finally show ?thesis .
    qed
  qed
qed

interpretation ramp: cyclic_progress cs_shutdown_cycle cs_wf shutdown_input "\<lambda>m. gen_idle (generator m)" ramp_bound
proof
  fix m i
  show "cs_wf m \<Longrightarrow> cs_wf (cs_shutdown_cycle m i)" by (rule cs_shutdown_wf)
  show "shutdown_input i \<Longrightarrow> cs_wf m \<Longrightarrow> \<not> gen_idle (generator m) \<Longrightarrow> ramp_bound (cs_shutdown_cycle m i) < ramp_bound m"
    by (rule ramp_bound_decr)
  show "shutdown_input i \<Longrightarrow> cs_wf m \<Longrightarrow> gen_idle (generator m) \<Longrightarrow> gen_idle (generator (cs_shutdown_cycle m i))"
    by (auto simp: cs_wf_def valid_limit_Fin cs_shutdown_gen(1))
qed

lemma shutdown_cycles_enough:
  assumes "cs_wf m" "cs_accel m = Fin a" "max_vel_cps m = Fin V" "0 \<le> V" "V / a / dt_s m + 20 \<le> 60000"
    "\<bar>ts_velocity (g_state (generator m))\<bar> \<le> V"
  shows "ramp_bound m < unat (cs_shutdown_cycles m)"
proof -
  have a: "0 < a" "0 < dt_s m" using assms by (auto simp: cs_wf_def valid_limit_Fin)
  let ?x = "V / a / dt_s m"
  have x: "0 \<le> ?x" using a assms(4) by simp
  have c: "cs_shutdown_cycles m = word_of_int \<lfloor>?x + 20\<rfloor>"
    using assms a by (simp add: cs_shutdown_cycles_def Let_def min_def)
  have r: "0 \<le> \<lfloor>?x + 20\<rfloor>" "\<lfloor>?x + 20\<rfloor> \<le> 60000" using x assms(5) by linarith+
  have "uint (word_of_int \<lfloor>?x + 20\<rfloor> :: u32) = \<lfloor>?x + 20\<rfloor>"
    unfolding uint_word_of_int using r by (intro mod_pos_pos_trivial) simp_all
  then have u: "unat (cs_shutdown_cycles m) = nat \<lfloor>?x + 20\<rfloor>" by (simp add: c unat_eq_nat_uint)
  have "\<bar>ts_velocity (g_state (generator m))\<bar> / (a * dt_s m) \<le> ?x"
    using assms(6) a by (simp add: divide_right_mono field_simps)
  then have "nat \<lceil>\<bar>ts_velocity (g_state (generator m))\<bar> / (a * dt_s m)\<rceil> \<le> nat \<lceil>?x\<rceil>"
    by (intro nat_mono ceiling_mono)
  moreover have "ramp_bound m \<le> max 2 (nat \<lceil>\<bar>ts_velocity (g_state (generator m))\<bar> / (a * dt_s m)\<rceil>)"
    using assms(2) by (simp add: ramp_bound_def Let_def del: nat_ceiling_le_eq)
  ultimately have "ramp_bound m \<le> max 2 (nat \<lceil>?x\<rceil>)" by linarith
  also have "\<dots> < nat \<lfloor>?x + 20\<rfloor>" using x by (simp add: max_def) linarith
  finally show ?thesis by (simp add: u)
qed

text \<open>
  C35. Shutdown ramps a cyclic-position axis to rest before torque is cut. Starting from any state whose
  speed is within the configured ceiling, with the drive staying enabled and fault-free: the generator
  is at rest, and the controlword is disable-voltage, after at most \<^verbatim>\<open>shutdown_cycles()\<close> cycles, provided
  that number is below the cap of 60000; and before that, no cycle returns disable-voltage while the
  commanded velocity is not zero.
\<close>

theorem csp_shutdown_ramps_to_rest:
  assumes "cs_wf m" "cs_accel m = Fin a" "max_vel_cps m = Fin V" "0 \<le> V" "V / a / dt_s m + 20 \<le> 60000"
    "\<bar>ts_velocity (g_state (generator m))\<bar> \<le> V" "list_all shutdown_input is"
    "unat (cs_shutdown_cycles m) \<le> length is" "shutdown_input i"
  shows "let m' = foldl cs_shutdown_cycle m is in
    ts_velocity (g_state (generator m')) = 0 \<and> snd (snd (cs_step_shutdown m' (fst i) (snd i))) = disable_voltage
    \<and> (\<forall>k. let mk = foldl cs_shutdown_cycle m (take k is) in
         snd (snd (cs_step_shutdown mk (fst i) (snd i))) = disable_voltage \<longrightarrow>
         ts_velocity (g_state (generator mk)) = 0)"
proof -
  have wf: "cs_wf (foldl cs_shutdown_cycle m (take k is))" for k
    by (rule ramp.run_prefix_inv) (rule assms(1))
  have rest: "ts_velocity (g_state (generator x)) = 0" if "cs_wf x" "gen_idle (generator x)" for x
    using that by (auto simp: cs_wf_def gen_wf_def gen_idle_def)
  have cw: "snd (snd (cs_step_shutdown x (fst i) (snd i))) = disable_voltage \<longleftrightarrow> gen_idle (generator x)" for x
    using assms(9) by (simp add: cs_step_shutdown_def shutdown_input_def Let_def split_beta
        enable_operation_def disable_voltage_def)
  have "ramp_bound m < length is" using shutdown_cycles_enough [OF assms(1-6)] assms(8) by simp
  then have "gen_idle (generator (foldl cs_shutdown_cycle m is))"
    using assms(1,7) by (intro ramp.run_reaches_done) auto
  then show ?thesis using rest [OF wf] rest [OF wf [of "length is"]] by (simp add: cw Let_def)
qed

lemma csp_demo_wf: "cs_wf csp_demo"
  by (simp add: csp_demo_def cs_new_def cs_wf_def gen_wf_def TrapezoidGenerator_new_def)

theorem csp_shutdown_ramps_to_rest_witness:
  "ts_velocity (g_state (generator (foldl cs_shutdown_cycle csp_demo
     (replicate 120 (demo_image, demo_fb 0x37))))) = 0"
proof -
  have sel: "cs_accel csp_demo = Fin 10000" "max_vel_cps csp_demo = Fin 1000" "dt_s csp_demo = 1 / 1000"
    "ts_velocity (g_state (generator csp_demo)) = 500"
    by (simp_all add: csp_demo_def cs_new_def)
  have i: "shutdown_input (demo_image, demo_fb 0x37)"
    by (simp add: shutdown_input_def demo_fb_def operation_enabled_def status_fault_def Status_bit_def)
  have n: "unat (cs_shutdown_cycles csp_demo) \<le> 120"
    by (simp add: cs_shutdown_cycles_def Let_def sel)
  show ?thesis
    using csp_shutdown_ramps_to_rest [OF csp_demo_wf sel(1,2), of "replicate 120 (demo_image, demo_fb 0x37)"
        "(demo_image, demo_fb 0x37)"] i n
    by (simp add: sel list_all_iff Let_def)
qed

text \<open>
  The exception to a monotone ramp: a velocity run that was commanded but has not produced a cycle yet
  (velocity still zero) is not stopped by the first shutdown cycle, which accelerates it by one step;
  the next cycles ramp it down again.
\<close>

lemma shutdown_starts_pending_run:
  assumes "cs_wf m" "shutdown_input i" "g_phase (generator m) = GenVelocity"
    "ts_velocity (g_state (generator m)) = 0" "g_v_target (generator m) \<noteq> 0"
  shows "ts_velocity (g_state (generator (cs_shutdown_cycle m i))) \<noteq> 0"
proof -
  obtain a where a: "cs_accel m = Fin a" "0 < a" "0 < dt_s m" "g_accel (generator m) = a"
    using assms by (auto simp: cs_wf_def valid_limit_Fin gen_wf_def)
  have "0 < a * dt_s m" using a by simp
  with cs_shutdown_gen(4) [OF assms(1,2) a(1) refl assms(4,3)] assms a show ?thesis
    by (auto simp: velocity_step_def Let_def)
qed

subsection \<open>Waiting for the mode echo\<close>

definition pp_cycle :: "ProfilePositionMode \<Rightarrow> CycleContext \<times> MotionFeedback \<Rightarrow> ProfilePositionMode" where
  "pp_cycle m i = fst (pp_step m (fst i) (snd i))"

definition lagging :: "Cia402Mode \<Rightarrow> CycleContext \<times> MotionFeedback \<Rightarrow> bool" where
  "lagging mode i \<longleftrightarrow> fb_mode_echo (snd i) \<noteq> None \<and> fb_mode_echo (snd i) \<noteq> Some mode"

lemma pp_cycle_lagging:
  assumes "lagging (pp_intent m) i"
  shows "pp_echo_wait_cycles (pp_cycle m i) = pp_echo_wait_cycles m + 1"
    "pp_intent (pp_cycle m i) =
       (if pp_echo_wait_cycles m + 1 = kModeEchoCycles then the (fb_mode_echo (snd i)) else pp_intent m)"
    "pp_mode_not_adopted (pp_cycle m i) = (pp_echo_wait_cycles m + 1 = kModeEchoCycles)"
    "pp_pending_new_setpoint (pp_cycle m i) =
       (pp_pending_new_setpoint m \<and> pp_echo_wait_cycles m + 1 \<noteq> kModeEchoCycles)"
    "pp_pv_velocity (pp_cycle m i) = (if pp_echo_wait_cycles m + 1 = kModeEchoCycles then 0 else pp_pv_velocity m)"
proof -
  have "\<not> pp_echoed (snd i) (m\<lparr>pp_mode_not_adopted := False\<rparr>)"
    using assms by (auto simp: lagging_def pp_echoed_def split: option.splits)
  then show "pp_echo_wait_cycles (pp_cycle m i) = pp_echo_wait_cycles m + 1"
    "pp_intent (pp_cycle m i) =
       (if pp_echo_wait_cycles m + 1 = kModeEchoCycles then the (fb_mode_echo (snd i)) else pp_intent m)"
    "pp_mode_not_adopted (pp_cycle m i) = (pp_echo_wait_cycles m + 1 = kModeEchoCycles)"
    "pp_pending_new_setpoint (pp_cycle m i) =
       (pp_pending_new_setpoint m \<and> pp_echo_wait_cycles m + 1 \<noteq> kModeEchoCycles)"
    "pp_pv_velocity (pp_cycle m i) = (if pp_echo_wait_cycles m + 1 = kModeEchoCycles then 0 else pp_pv_velocity m)"
    by (simp_all add: pp_cycle_def pp_step_def Let_def split_beta)
qed

lemma pp_lagging_run:
  assumes "pp_echo_wait_cycles m = 0" "list_all (lagging (pp_intent m)) is" "length is < 200"
  shows "let m' = foldl pp_cycle m is in
    pp_echo_wait_cycles m' = of_nat (length is) \<and> pp_intent m' = pp_intent m
    \<and> pp_pending_new_setpoint m' = pp_pending_new_setpoint m \<and> pp_pv_velocity m' = pp_pv_velocity m
    \<and> (is \<noteq> [] \<longrightarrow> \<not> pp_mode_not_adopted m')"
  using assms(2,3)
proof (induction "is" rule: rev_induct)
  case (snoc i "is")
  define n where "n = length is"
  define m' where "m' = foldl pp_cycle m is"
  have IH: "pp_echo_wait_cycles m' = of_nat n" "pp_intent m' = pp_intent m"
    "pp_pending_new_setpoint m' = pp_pending_new_setpoint m" "pp_pv_velocity m' = pp_pv_velocity m"
    using snoc by (simp_all add: Let_def n_def m'_def)
  have n: "n < 199" using snoc.prems by (simp add: n_def)
  have "(of_nat n :: u32) + 1 \<noteq> kModeEchoCycles"
  proof
    assume "(of_nat n :: u32) + 1 = kModeEchoCycles"
    then have "unat (of_nat n :: u32) = 199" by (simp add: kModeEchoCycles_def eq_diff_eq [symmetric])
    moreover have "unat (of_nat n :: u32) = n" using n by (simp add: unat_of_nat take_bit_nat_eq_self)
    ultimately show False using n by simp
  qed
  moreover have "lagging (pp_intent m') i" using snoc.prems IH by simp
  ultimately show ?case
    using pp_cycle_lagging [of m' i] IH by (simp add: Let_def m'_def [symmetric] n_def)
qed (simp add: Let_def assms(1))

text \<open>
  The wait for the mode echo is bounded and reported once. While the drive's mode display shows a
  mode other than the commanded one, the command (mode, pending set-point, velocity) is kept and no
  failure is reported for 199 cycles; on the 200th the failure is reported, the mode falls back to what
  the drive runs, and the command is dropped, so that nothing starts moving later.
\<close>

theorem pp_mode_wait_bounded:
  assumes "pp_echo_wait_cycles m = 0" "list_all (lagging (pp_intent m)) (is @ [i])" "length is = 199"
  shows "(\<forall>k\<le>199. let mk = foldl pp_cycle m (take k is) in
       pp_intent mk = pp_intent m \<and> pp_pending_new_setpoint mk = pp_pending_new_setpoint m
       \<and> pp_pv_velocity mk = pp_pv_velocity m \<and> (0 < k \<longrightarrow> \<not> pp_mode_not_adopted mk))
    \<and> (let m' = foldl pp_cycle m (is @ [i]) in
       mm_fault (PP m') = ModeNotAdopted \<and> Some (pp_intent m') = fb_mode_echo (snd i)
       \<and> \<not> pp_pending_new_setpoint m' \<and> \<not> mm_is_moving (PP m'))"
proof
  have pre: "list_all (lagging (pp_intent m)) (take k is)" for k
    using assms(2) by (auto simp: list_all_iff dest: in_set_takeD)
  show "\<forall>k\<le>199. let mk = foldl pp_cycle m (take k is) in
       pp_intent mk = pp_intent m \<and> pp_pending_new_setpoint mk = pp_pending_new_setpoint m
       \<and> pp_pv_velocity mk = pp_pv_velocity m \<and> (0 < k \<longrightarrow> \<not> pp_mode_not_adopted mk)"
    using pp_lagging_run [OF assms(1) pre] assms(3) by (fastforce simp: Let_def)
  define m1 where "m1 = foldl pp_cycle m is"
  have m1: "pp_echo_wait_cycles m1 = 199" "pp_intent m1 = pp_intent m"
    using pp_lagging_run [OF assms(1), of "is"] assms(2,3) by (simp_all add: m1_def Let_def)
  have lag: "lagging (pp_intent m1) i" using assms(2) m1 by simp
  then have "Some (the (fb_mode_echo (snd i))) = fb_mode_echo (snd i)" by (auto simp: lagging_def)
  then show "let m' = foldl pp_cycle m (is @ [i]) in
       mm_fault (PP m') = ModeNotAdopted \<and> Some (pp_intent m') = fb_mode_echo (snd i)
       \<and> \<not> pp_pending_new_setpoint m' \<and> \<not> mm_is_moving (PP m')"
    using pp_cycle_lagging [OF lag] m1
    by (simp add: Let_def m1_def [symmetric] kModeEchoCycles_def pp_fault_def pp_is_moving_def)
qed

end
