(* ===== verification/DcPacer.thy ===== *)
theory DcPacer
  imports Prelude
begin

text \<open>
  The cyclic clock: the DC SYNC0 phase-lock controller of \<^verbatim>\<open>src/src/ethercat/dc_sync.hpp\<close> and the
  absolute-deadline pacer of \<^verbatim>\<open>src/src/ethercat/realtime.hpp\<close>.

  The controller computes on \<^verbatim>\<open>int64_t\<close>, where an overflow is undefined behaviour, so it is written on
  \<^typ>\<open>int\<close> with the language's truncating division (\<open>sdiv\<close>, \<open>smod\<close>);
  \<open>dc_phase_no_overflow\<close> shows that no intermediate value leaves the 64-bit range. The pacer's
  deadline is a \<^verbatim>\<open>uint64_t\<close> and wraps. The catch-up loop reads a clock in every iteration, and may run
  forever if the clock outruns it: it is a partial function of the sequence of readings, and the
  theorems state when it returns.
\<close>

subsection \<open>Phase correction\<close>

text \<open>The phase error: normalised into \<open>[0, cycle)\<close>, then to the shortest signed distance.\<close>

definition dc_phase_delta :: "int \<Rightarrow> int \<Rightarrow> int \<Rightarrow> int" where
  "dc_phase_delta dc_time cycle_ns shift_ns =
     (let delta = (((dc_time - shift_ns) smod cycle_ns) + cycle_ns) smod cycle_ns
      in if delta > cycle_ns sdiv 2 then delta - cycle_ns else delta)"

text \<open>The clamp both the integral and the correction go through.\<close>

definition clamp_sym :: "int \<Rightarrow> int \<Rightarrow> int" where
  "clamp_sym lim x = (if x > lim then lim else if x < - lim then - lim else x)"

text \<open>The result is the correction and the updated accumulator (a reference argument of the code).\<close>

definition dc_phase_correction :: "int \<Rightarrow> int \<Rightarrow> int \<Rightarrow> int \<Rightarrow> int \<Rightarrow> int \<times> int" where
  "dc_phase_correction dc_time cycle_ns integral shift_ns max_correction_ns =
     (if dc_time = 0 \<or> cycle_ns = 0 then (0, integral)
      else
        let delta = dc_phase_delta dc_time cycle_ns shift_ns;
            integral1 = (if delta > 0 then integral + 1
                         else if delta < 0 then integral - 1 else integral);
            integral2 = clamp_sym (max_correction_ns * 20) integral1;
            corr = - (delta sdiv 100) - (integral2 sdiv 20)
        in (clamp_sym max_correction_ns corr, integral2))"

definition kDefaultMaxCorrection :: int where
  "kDefaultMaxCorrection = 50000"

lemma clamp_sym_bounds [simp]: "0 \<le> lim \<Longrightarrow> \<bar>clamp_sym lim x\<bar> \<le> lim"
  by (auto simp: clamp_sym_def)

lemma clamp_sym_id: "- lim \<le> x \<Longrightarrow> x \<le> lim \<Longrightarrow> clamp_sym lim x = x"
  by (simp add: clamp_sym_def)

lemma smod_shift_nonneg:
  fixes a c :: int
  assumes "0 < c"
  shows "((a smod c) + c) smod c = a mod c"
proof -
  have "a mod c = (a sdiv c * c + a smod c) mod c"
    by (simp only: sdiv_mult_smod_eq)
  then have eq: "(a smod c) mod c = a mod c" by simp
  have "- c < a smod c"
    using assms smod_int_range [of c a] by auto
  then have "0 \<le> (a smod c) + c" by simp
  then have "((a smod c) + c) smod c = ((a smod c) + c) mod c"
    using assms by (simp add: smod_mod_positive)
  then show ?thesis using eq by simp
qed

lemma sdiv_2_nonneg: "0 \<le> (c::int) \<Longrightarrow> c sdiv 2 = c div 2"
  by (simp add: signed_divide_int_def sgn_if)

lemma dc_phase_delta_eq:
  assumes "0 < cycle"
  shows "dc_phase_delta t cycle shift =
           (if (t - shift) mod cycle > cycle div 2
            then (t - shift) mod cycle - cycle else (t - shift) mod cycle)"
  using assms by (simp add: dc_phase_delta_def smod_shift_nonneg sdiv_2_nonneg Let_def)

lemma dc_phase_delta_range:
  assumes "0 < cycle"
  shows "- cycle < 2 * dc_phase_delta t cycle shift" "2 * dc_phase_delta t cycle shift \<le> cycle"
  using pos_mod_bound [OF assms, of "t - shift"] pos_mod_sign [OF assms, of "t - shift"]
  unfolding dc_phase_delta_eq [OF assms] by (simp_all split: if_splits; linarith)+

lemma dc_phase_delta_cong:
  assumes "0 < cycle"
  shows "(shift + dc_phase_delta t cycle shift) mod cycle = t mod cycle"
proof -
  have "dc_phase_delta t cycle shift mod cycle = (t - shift) mod cycle"
    by (simp add: dc_phase_delta_eq [OF assms])
  then show ?thesis
    by (metis diff_add_cancel add.commute mod_add_right_eq)
qed

text \<open>
  Every intermediate value of the computation stays in the signed 64-bit range when the inputs do,
  the phase target is not absurd and the cycle is under 2^62 ns.
\<close>

lemma dc_phase_no_overflow:
  assumes "0 < cycle" "cycle < 2 ^ 62" "\<bar>integral\<bar> \<le> lim * 20" "0 \<le> lim" "lim < 2 ^ 32"
  shows "\<bar>((t - shift) smod cycle) + cycle\<bar> < 2 ^ 63"
    and "\<bar>dc_phase_delta t cycle shift\<bar> < 2 ^ 62"
    and "\<bar>integral\<bar> + 1 < 2 ^ 63"
    and "\<bar>- (dc_phase_delta t cycle shift sdiv 100) - (clamp_sym (lim * 20) i sdiv 20)\<bar> < 2 ^ 63"
proof -
  let ?d = "dc_phase_delta t cycle shift" and ?i = "clamp_sym (lim * 20) i"
  show "\<bar>((t - shift) smod cycle) + cycle\<bar> < 2 ^ 63"
    using smod_int_range [of cycle "t - shift"] assms by auto
  show d: "\<bar>?d\<bar> < 2 ^ 62"
    using dc_phase_delta_range [OF assms(1), of t shift] assms by simp
  show "\<bar>integral\<bar> + 1 < 2 ^ 63" using assms by simp
  have "\<bar>?d sdiv 100\<bar> \<le> \<bar>?d\<bar>" "\<bar>?i sdiv 20\<bar> \<le> \<bar>?i\<bar>"
    using sdiv_int_range [of ?d 100] sdiv_int_range [of ?i 20] by auto
  moreover have "\<bar>?i\<bar> \<le> lim * 20"
    using assms by (intro clamp_sym_bounds) simp
  moreover have "lim * 20 < 2 ^ 40" "\<bar>?d\<bar> < 2 ^ 62" using assms d by simp_all
  ultimately show "\<bar>- (?d sdiv 100) - (?i sdiv 20)\<bar> < 2 ^ 63"
    by (simp add: abs_less_iff abs_le_iff) linarith
qed

lemma dc_phase_correction_integral:
  assumes "0 \<le> lim" "\<bar>integral\<bar> \<le> lim * 20"
  shows "\<bar>snd (dc_phase_correction t cycle integral shift lim)\<bar> \<le> lim * 20"
  using assms by (simp add: dc_phase_correction_def Let_def)

lemma dc_phase_correction_corr:
  assumes "0 \<le> lim"
  shows "\<bar>fst (dc_phase_correction t cycle integral shift lim)\<bar> \<le> lim"
  using assms by (simp add: dc_phase_correction_def Let_def)

lemma sdiv_nonneg: "0 < k \<Longrightarrow> 0 \<le> x \<Longrightarrow> (x::int) sdiv k = x div k"
  by (cases "x = 0") (simp_all add: signed_divide_int_def sgn_if)

subsection \<open>The pacer\<close>

record DcPacer =
  period_ns :: u64
  shift_ns :: int
  next_deadline :: u64
  integral :: int

text \<open>Construction arms the first deadline one period after the clock reading.\<close>

definition DcPacer_new :: "u64 \<Rightarrow> int \<Rightarrow> u64 \<Rightarrow> DcPacer" where
  "DcPacer_new period shift now =
     \<lparr>period_ns = period, shift_ns = shift, next_deadline = now + period, integral = 0\<rparr>"

definition DcPacer_new_half :: "u64 \<Rightarrow> u64 \<Rightarrow> DcPacer" where
  "DcPacer_new_half period now = DcPacer_new period (sint period sdiv 2) now"

definition DcPacer_reset :: "DcPacer \<Rightarrow> u64 \<Rightarrow> DcPacer" where
  "DcPacer_reset p first_deadline_ns = p\<lparr>next_deadline := first_deadline_ns, integral := 0\<rparr>"

definition DcPacer_advance :: "DcPacer \<Rightarrow> int \<Rightarrow> DcPacer" where
  "DcPacer_advance p dc_time_ns =
     (let (corr, integral') = dc_phase_correction dc_time_ns (sint (period_ns p)) (integral p)
                                (shift_ns p) kDefaultMaxCorrection;
          delta = max (sint (period_ns p) + corr) 1
      in p\<lparr>next_deadline := next_deadline p + word_of_int delta, integral := integral'\<rparr>)"

text \<open>
  The catch-up loop. \<open>now i\<close> is the \<open>i\<close>-th reading of the clock; \<open>None\<close> is a loop that never ends.
  The result is the new deadline, the number of skipped periods and the readings consumed.
\<close>

partial_function (option) catch_up ::
    "u64 \<Rightarrow> (nat \<Rightarrow> u64) \<Rightarrow> nat \<Rightarrow> u64 \<Rightarrow> u32 \<Rightarrow> (u64 \<times> u32 \<times> nat) option" where
  "catch_up period now i nxt n =
     (if nxt \<le> now i then catch_up period now (Suc i) (nxt + period) (n + 1)
      else Some (nxt, n, Suc i))"

definition DcPacer_advance_to_deadline ::
    "DcPacer \<Rightarrow> int \<Rightarrow> (nat \<Rightarrow> u64) \<Rightarrow> (DcPacer \<times> u64 \<times> u32) option" where
  "DcPacer_advance_to_deadline p dc_time_ns now =
     (let p1 = DcPacer_advance p dc_time_ns
      in case catch_up (period_ns p1) now 0 (next_deadline p1) 0 of
           None \<Rightarrow> None
         | Some (nxt, n, _) \<Rightarrow> Some (p1\<lparr>next_deadline := nxt\<rparr>, nxt, n))"

definition DcPacer_step :: "DcPacer \<Rightarrow> int \<Rightarrow> u64 \<Rightarrow> (DcPacer \<times> u64) option" where
  "DcPacer_step p dc_time_ns now_ns =
     map_option (\<lambda>(p', d, n). (p', d)) (DcPacer_advance_to_deadline p dc_time_ns (\<lambda>_. now_ns))"

text \<open>
  \<^verbatim>\<open>pace\<close> reads the monotonic clock in the loop and sleeps to the deadline, handed to
  \<^verbatim>\<open>clock_nanosleep\<close> as seconds and nanoseconds.
\<close>

definition kNsPerSec :: u64 where
  "kNsPerSec = 1000000000"

definition monotonic_ns :: "u64 \<Rightarrow> u64 \<Rightarrow> u64" where
  "monotonic_ns tv_sec tv_nsec = tv_sec * kNsPerSec + tv_nsec"

definition DcPacer_pace ::
    "DcPacer \<Rightarrow> int \<Rightarrow> (nat \<Rightarrow> u64) \<Rightarrow> (DcPacer \<times> u32 \<times> (u64 \<times> u64)) option" where
  "DcPacer_pace p dc_time_ns now =
     map_option (\<lambda>(p', d, n). (p', n, (d div kNsPerSec, d mod kNsPerSec)))
       (DcPacer_advance_to_deadline p dc_time_ns now)"

subsection \<open>Properties of the pacer\<close>

lemma uint_add_small: "uint a + uint b < 2 ^ 64 \<Longrightarrow> uint (a + b :: u64) = uint a + uint b"
  by (simp add: uint_plus_if_size word_size)

lemma catch_up_returns:
  assumes pos: "0 < uint period" and bnd: "\<And>i. uint (now i) \<le> T"
    and room: "T + uint period < 2 ^ 64"
  shows "\<exists>k. catch_up period now i nxt n = Some (nxt + of_nat k * period, n + of_nat k, Suc (i + k))
           \<and> uint (nxt + of_nat k * period) = uint nxt + int k * uint period
           \<and> now (i + k) < nxt + of_nat k * period
           \<and> (\<forall>j<k. uint nxt + int j * uint period \<le> uint (now (i + j)))"
proof (induction "nat (T + 1 - uint nxt)" arbitrary: i nxt n rule: less_induct)
  case less
  show ?case
  proof (cases "nxt \<le> now i")
    case False
    then show ?thesis
      by (intro exI [of _ 0]) (simp add: catch_up.simps)
  next
    case True
    then have le: "uint nxt \<le> uint (now i)" by (simp add: word_le_def)
    then have step: "uint (nxt + period) = uint nxt + uint period"
      using bnd [of i] room by (intro uint_add_small) simp
    moreover have "nat (T + 1 - (uint nxt + uint period)) < nat (T + 1 - uint nxt)"
      using le bnd [of i] pos by simp
    ultimately obtain k where k:
        "catch_up period now (Suc i) (nxt + period) (n + 1) =
           Some (nxt + period + of_nat k * period, n + 1 + of_nat k, Suc (Suc i + k))"
        "uint (nxt + period + of_nat k * period) = uint (nxt + period) + int k * uint period"
        "now (Suc i + k) < nxt + period + of_nat k * period"
        "\<And>j. j < k \<Longrightarrow> uint (nxt + period) + int j * uint period \<le> uint (now (Suc i + j))"
      using less [of "nxt + period" "Suc i" "n + 1"] by auto
    have eq: "nxt + of_nat (Suc k) * period = nxt + period + of_nat k * period"
      by (simp add: algebra_simps)
    have "uint nxt + int j * uint period \<le> uint (now (i + j))" if "j < Suc k" for j
      using le k(4) [of "j - 1"] step that by (cases j) (auto simp: algebra_simps)
    then show ?thesis
      using True k(1-3) step
      by (intro exI [of _ "Suc k"]) (simp only: eq, simp add: catch_up.simps algebra_simps)
  qed
qed

lemma sint_period: "uint (period :: u64) < 2 ^ 62 \<Longrightarrow> sint period = uint period"
  unfolding sint_uint
  by (intro signed_take_bit_int_eq_self order_trans [OF _ uint_ge_0]) simp_all

lemma advance_deadline:
  fixes p dc
  defines "corr \<equiv> fst (dc_phase_correction dc (uint (period_ns p)) (integral p) (shift_ns p)
                         kDefaultMaxCorrection)"
  assumes "50000 < uint (period_ns p)" "uint (period_ns p) < 2 ^ 62"
    and "uint (next_deadline p) + 2 * uint (period_ns p) < 2 ^ 64"
  shows "uint (next_deadline (DcPacer_advance p dc)) =
           uint (next_deadline p) + uint (period_ns p) + corr"
proof -
  have c: "\<bar>corr\<bar> \<le> 50000"
    using dc_phase_correction_corr [of kDefaultMaxCorrection]
    by (simp add: corr_def kDefaultMaxCorrection_def)
  have "uint (word_of_int (uint (period_ns p) + corr) :: u64) = uint (period_ns p) + corr"
    unfolding uint_word_of_int using c assms(2-3) by (intro mod_pos_pos_trivial) simp_all
  then have "uint (next_deadline p + word_of_int (uint (period_ns p) + corr)) =
      uint (next_deadline p) + uint (period_ns p) + corr"
    using c assms(2-4) uint_add_small [of "next_deadline p" "word_of_int (uint (period_ns p) + corr)"]
    by simp
  moreover have "max (uint (period_ns p) + corr) 1 = uint (period_ns p) + corr"
    using c assms(2) by simp
  ultimately show ?thesis
    using assms(2-3)
    by (simp add: DcPacer_advance_def sint_period corr_def [symmetric] split_beta Let_def)
qed

lemma advance_period [frame_simps]: "period_ns (DcPacer_advance p dc) = period_ns p"
  and advance_shift [frame_simps]: "shift_ns (DcPacer_advance p dc) = shift_ns p"
  by (simp_all add: DcPacer_advance_def split_beta Let_def)

definition integral_bounded :: "DcPacer \<Rightarrow> bool" where
  "integral_bounded p \<longleftrightarrow> \<bar>integral p\<bar> \<le> kDefaultMaxCorrection * 20"

interpretation pacer_integral: cyclic_invariant DcPacer_advance integral_bounded
proof
  fix p dc
  assume "integral_bounded p"
  then show "integral_bounded (DcPacer_advance p dc)"
    using dc_phase_correction_integral [of kDefaultMaxCorrection "integral p"]
    by (simp add: integral_bounded_def DcPacer_advance_def kDefaultMaxCorrection_def split_beta Let_def)
qed

text \<open>
  The phase-lock controller. With a DC clock (a non-zero DC time and a positive cycle) the phase
  error it corrects is the shortest signed distance to the target phase: it lies in
  \<open>(-cycle/2, cycle/2]\<close> and adding it to the phase target gives the DC time modulo the cycle. The
  correction never exceeds the clamp, and the accumulator stays within its anti-windup limit.
\<close>

theorem dc_phase_correction_contract:
  assumes "dc_time \<noteq> 0" "0 < cycle_ns" "0 \<le> max_corr" "\<bar>i\<bar> \<le> max_corr * 20"
  shows "- cycle_ns < 2 * dc_phase_delta dc_time cycle_ns shift
       \<and> 2 * dc_phase_delta dc_time cycle_ns shift \<le> cycle_ns
       \<and> (shift + dc_phase_delta dc_time cycle_ns shift) mod cycle_ns = dc_time mod cycle_ns
       \<and> \<bar>fst (dc_phase_correction dc_time cycle_ns i shift max_corr)\<bar> \<le> max_corr
       \<and> \<bar>snd (dc_phase_correction dc_time cycle_ns i shift max_corr)\<bar> \<le> max_corr * 20
       \<and> (dc_phase_delta dc_time cycle_ns shift = 0 \<and> i = 0
            \<longleftrightarrow> dc_phase_delta dc_time cycle_ns shift = 0
               \<and> dc_phase_correction dc_time cycle_ns i shift max_corr = (0, 0))"
proof -
  have "dc_phase_delta dc_time cycle_ns shift = 0 \<Longrightarrow>
      dc_phase_correction dc_time cycle_ns i shift max_corr = (0, 0) \<longleftrightarrow> i = 0"
    using assms by (auto simp: dc_phase_correction_def clamp_sym_id abs_le_iff Let_def)
  then show ?thesis
    using assms dc_phase_delta_range [of cycle_ns] dc_phase_delta_cong
      dc_phase_correction_corr dc_phase_correction_integral by blast
qed

text \<open>
  The pacer returns and keeps the SYNC0 grid. While the clock readings leave room for one more
  period, the catch-up loop ends; the new deadline is the old one plus one corrected period (the
  correction at most 50 us) plus the skipped whole periods, it lies after the last clock reading,
  no period is skipped that was not missed, and the count reports the skipped periods. The time
  handed to the sleep is the deadline.
\<close>

theorem DcPacer_pace_deadline:
  fixes p dc now
  defines "corr \<equiv> fst (dc_phase_correction dc (uint (period_ns p)) (integral p) (shift_ns p)
                         kDefaultMaxCorrection)"
  assumes "50000 < uint (period_ns p)" "uint (period_ns p) < 2 ^ 62"
    and "uint (next_deadline p) + 2 * uint (period_ns p) < 2 ^ 64"
    and "\<And>i. uint (now i) \<le> T" "T + uint (period_ns p) < 2 ^ 64"
  shows "\<exists>k p' sec nsec. DcPacer_pace p dc now = Some (p', of_nat k, (sec, nsec))
       \<and> uint (next_deadline p') =
           uint (next_deadline p) + uint (period_ns p) + corr + int k * uint (period_ns p)
       \<and> \<bar>corr\<bar> \<le> 50000
       \<and> now k < next_deadline p'
       \<and> (\<forall>j<k. uint (next_deadline p) + uint (period_ns p) + corr + int j * uint (period_ns p)
                  \<le> uint (now j))
       \<and> monotonic_ns sec nsec = next_deadline p' \<and> nsec < kNsPerSec"
proof -
  let ?p1 = "DcPacer_advance p dc"
  obtain k where k:
      "catch_up (period_ns ?p1) now 0 (next_deadline ?p1) 0 =
         Some (next_deadline ?p1 + of_nat k * period_ns ?p1, of_nat k, Suc k)"
      "uint (next_deadline ?p1 + of_nat k * period_ns ?p1) =
         uint (next_deadline ?p1) + int k * uint (period_ns ?p1)"
      "now k < next_deadline ?p1 + of_nat k * period_ns ?p1"
      "\<forall>j<k. uint (next_deadline ?p1) + int j * uint (period_ns ?p1) \<le> uint (now j)"
    using catch_up_returns [of "period_ns ?p1" now T 0 "next_deadline ?p1" 0] assms(2-)
    by (auto simp: frame_simps)
  have adv: "uint (next_deadline ?p1) = uint (next_deadline p) + uint (period_ns p) + corr"
    unfolding corr_def using assms(2-4) by (rule advance_deadline)
  have c: "\<bar>corr\<bar> \<le> 50000"
    using dc_phase_correction_corr [of kDefaultMaxCorrection]
    by (simp add: corr_def kDefaultMaxCorrection_def)
  have ts: "monotonic_ns (d div kNsPerSec) (d mod kNsPerSec) = d" "d mod kNsPerSec < kNsPerSec" for d
    by (simp only: monotonic_ns_def div_mult_mod_eq)
      (simp add: word_mod_less_divisor kNsPerSec_def)
  let ?d = "next_deadline ?p1 + of_nat k * period_ns ?p1"
  show ?thesis
    using k adv c ts [of ?d]
    by (intro exI [of _ k] exI [of _ "?p1\<lparr>next_deadline := ?d\<rparr>"] exI [of _ "?d div kNsPerSec"]
        exI [of _ "?d mod kNsPerSec"])
      (simp add: DcPacer_pace_def DcPacer_advance_to_deadline_def Let_def frame_simps)
qed

text \<open>
  Anti-windup over a run: from a fresh pacer, whatever DC times the bus reports, the accumulator
  stays within its limit after every cycle.
\<close>

theorem DcPacer_integral_run:
  "\<bar>integral (foldl DcPacer_advance (DcPacer_new period shift now) dcs)\<bar> \<le> 1000000"
  using pacer_integral.run_inv [of "DcPacer_new period shift now" dcs]
  by (simp add: integral_bounded_def DcPacer_new_def kDefaultMaxCorrection_def)

end
