(* ===== verification/Runner.thy ===== *)
theory Runner
  imports CycleContext DcPacer
begin

text \<open>
  The cyclic runner, \<^verbatim>\<open>src/src/ethercat/runner.hpp\<close> and \<^verbatim>\<open>runner.cpp\<close>: it attaches controls to slaves,
  brings the bus up, and runs the steady loop and its stopping window. \<^verbatim>\<open>rt_body\<close> is one thread
  function with two loops; here each turn of a loop is one call of \<open>rt_cycle\<close> on the runner's state,
  whose program counter says which loop it is in.

  What happens outside the RT thread enters as the input of a cycle: whether another thread requested
  a stop before the loop tests the flag, the clock reading for the bring-up give-up, and how many
  periods the pacer had to skip. (That the pacer returns, and with which count, is the subject of the
  theory on the pacer; \<open>pace_skip_agrees\<close> connects the two.) A control is the record of its hooks on a
  state of its own; the stop hook also sees the master, which a control may hold a reference to. Every hook call is recorded in a ghost trace.
\<close>

subsection \<open>Data\<close>

datatype RunnerPhase = PhIdle | PhBringingUp | PhRunning | PhStopping | PhStopped

fun to_string_phase :: "RunnerPhase \<Rightarrow> string" where
  "to_string_phase PhIdle = ''Idle''"
| "to_string_phase PhBringingUp = ''BringingUp''"
| "to_string_phase PhRunning = ''Running''"
| "to_string_phase PhStopping = ''Stopping''"
| "to_string_phase PhStopped = ''Stopped''"

record RunnerConfig =
  rt_priority :: int
  require_realtime :: bool
  bringup_timeout_ms :: u64
  teardown_cycles :: u32
  stop_join_timeout_ms :: u64

record ('w, 's) SlaveControl =
  sc_on_operational :: "CycleContext \<Rightarrow> 's \<Rightarrow> CycleContext \<times> 's"
  sc_on_stop :: "'w Master \<Rightarrow> StopReason \<Rightarrow> 's \<Rightarrow> 's"
  sc_step :: "CycleContext \<Rightarrow> 's \<Rightarrow> CycleContext \<times> 's"
  sc_sync_faulted :: "CycleContext \<Rightarrow> 's \<Rightarrow> bool \<times> 's"
  sc_drive_present :: "CycleContext \<Rightarrow> 's \<Rightarrow> bool"
  sc_stage_bringup_outputs :: "CycleContext \<Rightarrow> 's \<Rightarrow> CycleContext \<times> 's"
  sc_teardown_complete :: "'s \<Rightarrow> bool"

datatype hook = HBringup | HOperational | HStep bool | HStop StopReason

record ('w, 's) Attached =
  at_slave_id :: u16
  at_ops :: "('w, 's) SlaveControl"
  at_control :: 's
  at_trace :: "hook list"

datatype rt_pc = PcBringup | PcSteady | PcEnd

record ('w, 's) RtCore =
  rt_master :: "'w Master"
  rt_cfg :: RunnerConfig
  controls :: "('w, 's) Attached list"
  phase :: RunnerPhase
  reason :: StopReason
  stop_flag :: bool
  pc :: rt_pc
  pacer :: DcPacer
  give_up_at :: u64
  rt_cycle_no :: u64
  rt_stopping :: bool
  window_left :: u32
  rt_overrun_worst :: u32
  started :: bool

subsection \<open>Stop requests\<close>

definition latch_reason :: "StopReason \<Rightarrow> ('w, 's) RtCore \<Rightarrow> ('w, 's) RtCore" where
  "latch_reason r core = (if reason core = NoReason then core\<lparr>reason := r\<rparr> else core)"

definition RtCore_request_stop :: "('w, 's) RtCore \<Rightarrow> ('w, 's) RtCore" where
  "RtCore_request_stop core = (latch_reason Requested core)\<lparr>stop_flag := True\<rparr>"

subsection \<open>Construction\<close>

definition Runner_new :: "'w Master \<Rightarrow> RunnerConfig \<Rightarrow> ('w, 's) RtCore" where
  "Runner_new m cfg =
     \<lparr>rt_master = m,
      rt_cfg = (if teardown_cycles cfg = 0 then cfg\<lparr>teardown_cycles := 1\<rparr> else cfg),
      controls = [], phase = PhIdle, reason = NoReason, stop_flag = False, pc = PcEnd,
      pacer = DcPacer_new_half 1000000 0, give_up_at = 0, rt_cycle_no = 0, rt_stopping = False,
      window_left = 0, rt_overrun_worst = 0, started = False\<rparr>"

definition Runner_attach :: "u16 \<Rightarrow> ('w, 's) SlaveControl \<Rightarrow> 's \<Rightarrow> (('w, 's) RtCore, unit) em" where
  "Runner_attach slave ops control =
     em_bind (em_gets (\<lambda>core. (started core, length (runtimes (rt_master core)), map at_slave_id (controls core))))
       (\<lambda>(st, n, ids).
     if st then em_throw (Error ''Runner::attach: controls must be attached before start()'')
     else if slave = 0 \<or> unat slave > n then em_throw (Error ''Runner::attach: slave out of range'')
     else if slave \<in> set ids then em_throw (Error ''Runner::attach: slave already has a control attached'')
     else em_modify (\<lambda>core. core\<lparr>controls := controls core @
            [\<lparr>at_slave_id = slave, at_ops = ops, at_control = control, at_trace = []\<rparr>]\<rparr>))"

text \<open>
  Start: the configure hooks in attach order (\<open>on_configured\<close>, the only one that may throw), then the
  RT thread. \<open>rt_ok\<close> is the result of the real-time setup in the thread's prelude and \<open>now\<close> the clock
  there.
\<close>

definition rt_prelude :: "bool \<Rightarrow> u64 \<Rightarrow> ('w, 's) RtCore \<Rightarrow> ('w, 's) RtCore" where
  "rt_prelude rt_ok now core =
     (if \<not> rt_ok \<and> require_realtime (rt_cfg core)
      then let core1 = latch_reason RtSetupFailed core
           in core1\<lparr>controls := map (\<lambda>a. a\<lparr>at_control := sc_on_stop (at_ops a) (rt_master core1) RtSetupFailed (at_control a),
                                             at_trace := at_trace a @ [HStop RtSetupFailed]\<rparr>) (controls core1),
                    phase := PhStopped, pc := PcEnd\<rparr>
      else let period = 1000000000 div ucast (target_loop_rate_hz (config (rt_master core)))
           in core\<lparr>pacer := DcPacer_new_half period now,
                   give_up_at := now + bringup_timeout_ms (rt_cfg core) * 1000000,
                   pc := PcBringup\<rparr>)"

definition Runner_start ::
    "(u16 \<Rightarrow> 's \<Rightarrow> ('w Master, 's) em) \<Rightarrow> bool \<Rightarrow> u64 \<Rightarrow> (('w, 's) RtCore, unit) em" where
  "Runner_start on_configured rt_ok now =
     em_bind (em_gets (\<lambda>core. (started core, controls core, length (controls core)))) (\<lambda>(st, cs, n).
     if st then em_throw (Error ''Runner::start: already started'')
     else if cs = [] then em_throw (Error ''Runner::start: no controls attached'')
     else
     em_seq (em_for [0..<n] (\<lambda>i core.
        let a = controls core ! i in
        case on_configured (at_slave_id a) (at_control a) (rt_master core) of
          (Inl e, m) \<Rightarrow> (Inl e, core\<lparr>rt_master := m\<rparr>)
        | (Inr s, m) \<Rightarrow> (Inr (), core\<lparr>rt_master := m, controls := (controls core)[i := a\<lparr>at_control := s\<rparr>]\<rparr>)))
     (em_modify (\<lambda>core. rt_prelude rt_ok now (core\<lparr>started := True, phase := PhBringingUp\<rparr>))))"

subsection \<open>Dispatch\<close>

definition make_ctx :: "('w, 's) RtCore \<Rightarrow> u16 \<Rightarrow> u64 \<Rightarrow> int \<Rightarrow> bool \<Rightarrow> CycleContext" where
  "make_ctx core slave cyc dc stopping =
     \<lparr>cc_inputs = Master_input_image slave (rt_master core), cc_outputs = Master_outputs slave (rt_master core),
      cc_cycle = cyc, cc_dc_time = dc, cc_stopping = stopping, cc_wkc = Master_wkc_stats (rt_master core),
      cc_fault = fault_latched (rt_master core), cc_stop_requested = False\<rparr>"

text \<open>After the hook: the owned output goes to the wire, and a stop the hook requested is latched.\<close>

definition apply_ctx :: "u16 \<Rightarrow> CycleContext \<Rightarrow> ('w, 's) RtCore \<Rightarrow> ('w, 's) RtCore" where
  "apply_ctx slave c core =
     (let out = Master_outputs slave (rt_master core);
          core1 = core\<lparr>rt_master := Master_write_outputs slave (take (length out) (cc_outputs c)) (rt_master core)\<rparr>
      in if cc_stop_requested c then RtCore_request_stop core1 else core1)"

definition dispatch ::
    "u64 \<Rightarrow> int \<Rightarrow> bool \<Rightarrow> hook \<Rightarrow> (('w, 's) SlaveControl \<Rightarrow> CycleContext \<Rightarrow> 's \<Rightarrow> CycleContext \<times> 's)
     \<Rightarrow> ('w, 's) Attached \<Rightarrow> ('w, 's) RtCore \<Rightarrow> ('w, 's) Attached \<times> ('w, 's) RtCore" where
  "dispatch cyc dc stopping h fn a core =
     (case fn (at_ops a) (make_ctx core (at_slave_id a) cyc dc stopping) (at_control a) of
        (c, s) \<Rightarrow> (a\<lparr>at_control := s, at_trace := at_trace a @ [h]\<rparr>, apply_ctx (at_slave_id a) c core))"

fun dispatch_all ::
    "u64 \<Rightarrow> int \<Rightarrow> bool \<Rightarrow> hook \<Rightarrow> (('w, 's) SlaveControl \<Rightarrow> CycleContext \<Rightarrow> 's \<Rightarrow> CycleContext \<times> 's)
     \<Rightarrow> ('w, 's) Attached list \<Rightarrow> ('w, 's) RtCore \<Rightarrow> ('w, 's) Attached list \<times> ('w, 's) RtCore" where
  "dispatch_all cyc dc stopping h fn [] core = ([], core)"
| "dispatch_all cyc dc stopping h fn (a # as) core =
     (let (a', core1) = dispatch cyc dc stopping h fn a core;
          (as', core2) = dispatch_all cyc dc stopping h fn as core1
      in (a' # as', core2))"

definition run_hooks ::
    "u64 \<Rightarrow> int \<Rightarrow> bool \<Rightarrow> hook \<Rightarrow> (('w, 's) SlaveControl \<Rightarrow> CycleContext \<Rightarrow> 's \<Rightarrow> CycleContext \<times> 's)
     \<Rightarrow> ('w, 's) RtCore \<Rightarrow> ('w, 's) RtCore" where
  "run_hooks cyc dc stopping h fn core =
     (let (as, core1) = dispatch_all cyc dc stopping h fn (controls core) core in core1\<lparr>controls := as\<rparr>)"

text \<open>
  The bring-up hooks also collect the gate signals. The disjunction short-circuits: after the first
  sync fault the later controls are not asked (a control may remember what it was asked about).
\<close>

fun bringup_dispatch ::
    "int \<Rightarrow> ('w, 's) Attached list \<Rightarrow> bool \<times> bool \<Rightarrow> ('w, 's) RtCore \<Rightarrow> ('w, 's) Attached list \<times> (bool \<times> bool) \<times> ('w, 's) RtCore"
where
  "bringup_dispatch dc [] g core = ([], g, core)"
| "bringup_dispatch dc (a # as) g core =
     (let c = make_ctx core (at_slave_id a) 0 dc False;
          (sf, s1) = (if fst g then (True, at_control a) else sc_sync_faulted (at_ops a) c (at_control a));
          g1 = (sf, snd g \<and> sc_drive_present (at_ops a) c s1);
          (a', core1) = dispatch 0 dc False HBringup sc_stage_bringup_outputs (a\<lparr>at_control := s1\<rparr>) core;
          (as', g2, core2) = bringup_dispatch dc as g1 core1
      in (a' # as', g2, core2))"

definition call_on_stop :: "StopReason \<Rightarrow> ('w, 's) RtCore \<Rightarrow> ('w, 's) RtCore" where
  "call_on_stop r core =
     core\<lparr>controls := map (\<lambda>a. a\<lparr>at_control := sc_on_stop (at_ops a) (rt_master core) r (at_control a),
                                 at_trace := at_trace a @ [HStop r]\<rparr>) (controls core)\<rparr>"

subsection \<open>The RT loop\<close>

record rt_env =
  e_stop :: bool
  e_now :: u64
  e_skips :: nat

definition pace_skip :: "DcPacer \<Rightarrow> int \<Rightarrow> nat \<Rightarrow> DcPacer" where
  "pace_skip p dc n =
     (let p1 = DcPacer_advance p dc in p1\<lparr>next_deadline := next_deadline p1 + of_nat n * period_ns p1\<rparr>)"

definition cycle_dc :: "'w Master \<Rightarrow> int" where
  "cycle_dc m = (if dc_enabled m then Master_dc_time m else 0)"

definition finish_without_op :: "('w, 's) RtCore \<Rightarrow> ('w, 's) RtCore" where
  "finish_without_op core =
     (let core1 = latch_reason Requested core
      in (call_on_stop (reason core1) core1)\<lparr>phase := PhStopped, pc := PcEnd\<rparr>)"

definition enter_operational :: "('w, 's) RtCore \<Rightarrow> ('w, 's) RtCore" where
  "enter_operational core =
     (run_hooks 0 (cycle_dc (rt_master core)) False HOperational sc_on_operational (core\<lparr>phase := PhRunning\<rparr>))
       \<lparr>pc := PcSteady, rt_cycle_no := 0, rt_stopping := False, window_left := 0\<rparr>"

definition rt_bringup_turn :: "'w soem \<Rightarrow> rt_env \<Rightarrow> ('w, 's) RtCore \<Rightarrow> ('w, 's) RtCore" where
  "rt_bringup_turn S env core =
     (if stop_flag core then finish_without_op core
      else
        let (as, (any_sync_fault, all_present), core1) =
              bringup_dispatch (cycle_dc (rt_master core)) (controls core) (False, True) core;
            (bs, m) = Master_bringup_step S any_sync_fault all_present (rt_master core1);
            core2 = core1\<lparr>controls := as, rt_master := m, pacer := pace_skip (pacer core1) (cycle_dc m) (e_skips env)\<rparr>
        in if bs = StOperational then enter_operational core2
           else if bs = StAborted \<or> e_now env \<ge> give_up_at core2
           then finish_without_op (latch_reason BringupAbortedReason core2)
           else core2)"

text \<open>The head of a steady cycle: exchange, and the decision to enter the stopping window.\<close>

definition steady_head :: "'w soem \<Rightarrow> ('w, 's) RtCore \<Rightarrow> ('w, 's) RtCore" where
  "steady_head S core =
     (let core1 = core\<lparr>rt_master := Master_process S (rt_master core)\<rparr>
      in if rt_stopping core1 then core1
         else
           let core2 = (if fault_latched (rt_master core1)
                        then (latch_reason BusFault core1)\<lparr>stop_flag := True\<rparr> else core1)
           in if stop_flag core2
              then call_on_stop (reason core2)
                     (core2\<lparr>rt_stopping := True, window_left := teardown_cycles (rt_cfg core2), phase := PhStopping\<rparr>)
              else core2)"

definition steady_tail :: "('w, 's) RtCore \<Rightarrow> ('w, 's) RtCore" where
  "steady_tail core =
     (if \<not> rt_stopping core then core
      else
        let all_torn_down = list_all (\<lambda>a. sc_teardown_complete (at_ops a) (at_control a)) (controls core);
            core1 = core\<lparr>window_left := window_left core - 1\<rparr>
        in if all_torn_down \<or> window_left core1 = 0 then core1\<lparr>phase := PhStopped, pc := PcEnd\<rparr> else core1)"

definition rt_steady_turn :: "'w soem \<Rightarrow> rt_env \<Rightarrow> ('w, 's) RtCore \<Rightarrow> ('w, 's) RtCore" where
  "rt_steady_turn S env core =
     (let core1 = steady_head S core;
          dct = cycle_dc (rt_master core1);
          core2 = run_hooks (rt_cycle_no core1) dct (rt_stopping core1) (HStep (rt_stopping core1)) sc_step core1;
          core3 = core2\<lparr>pacer := pace_skip (pacer core2) dct (e_skips env),
                        rt_overrun_worst := max (of_nat (e_skips env)) (rt_overrun_worst core2),
                        rt_cycle_no := rt_cycle_no core2 + 1\<rparr>
      in steady_tail core3)"

definition rt_cycle :: "'w soem \<Rightarrow> ('w, 's) RtCore \<Rightarrow> rt_env \<Rightarrow> ('w, 's) RtCore" where
  "rt_cycle S core0 env =
     (let core = (if e_stop env then RtCore_request_stop core0 else core0)
      in case pc core of
           PcBringup \<Rightarrow> rt_bringup_turn S env core
         | PcSteady \<Rightarrow> rt_steady_turn S env core
         | PcEnd \<Rightarrow> core)"

subsection \<open>Teardown by the owner\<close>

definition stop_bound_ns :: "('w, 's) RtCore \<Rightarrow> nat" where
  "stop_bound_ns core =
     (let timeout = unat (stop_join_timeout_ms (rt_cfg core)) * 1000000 in
      if timeout > 0 then timeout
      else let period = 1000000000 div unat (target_loop_rate_hz (config (rt_master core)))
           in max 250000000 ((unat (teardown_cycles (rt_cfg core)) + 20) * period * 4))"

text \<open>
  \<^verbatim>\<open>stop\<close> requests the stop, polls for the Stopped phase until the bound, and then closes the master; if
  the RT thread does not get there, the process is aborted.
\<close>

datatype ('w, 's) stop_result = StopClosed "('w, 's) RtCore" | StopWaiting "('w, 's) RtCore" | ProcessAborted

definition Runner_stop_begin :: "('w, 's) RtCore \<Rightarrow> ('w, 's) RtCore" where
  "Runner_stop_begin core = (if started core then RtCore_request_stop core else core)"

definition Runner_stop_poll :: "'w soem \<Rightarrow> nat \<Rightarrow> ('w, 's) RtCore \<Rightarrow> ('w, 's) stop_result" where
  "Runner_stop_poll S waited_ns core =
     (if \<not> started core then StopClosed core
      else if phase core = PhStopped then StopClosed (core\<lparr>rt_master := Master_close S (rt_master core)\<rparr>)
      else if waited_ns \<ge> stop_bound_ns core then ProcessAborted
      else StopWaiting core)"

subsection \<open>Frame lemmas\<close>

lemma latch_reason_frame [simp]:
  "controls (latch_reason r core) = controls core" "pc (latch_reason r core) = pc core"
  "phase (latch_reason r core) = phase core" "rt_stopping (latch_reason r core) = rt_stopping core"
  "window_left (latch_reason r core) = window_left core" "rt_cfg (latch_reason r core) = rt_cfg core"
  "rt_master (latch_reason r core) = rt_master core" "stop_flag (latch_reason r core) = stop_flag core"
  "give_up_at (latch_reason r core) = give_up_at core" "pacer (latch_reason r core) = pacer core"
  "reason core \<noteq> NoReason \<Longrightarrow> latch_reason r core = core"
  by (simp_all add: latch_reason_def)

lemma request_stop_frame [simp]:
  "controls (RtCore_request_stop core) = controls core" "pc (RtCore_request_stop core) = pc core"
  "phase (RtCore_request_stop core) = phase core" "rt_stopping (RtCore_request_stop core) = rt_stopping core"
  "window_left (RtCore_request_stop core) = window_left core" "rt_cfg (RtCore_request_stop core) = rt_cfg core"
  "rt_master (RtCore_request_stop core) = rt_master core" "stop_flag (RtCore_request_stop core) = True"
  "reason core \<noteq> NoReason \<Longrightarrow> reason (RtCore_request_stop core) = reason core"
  by (simp_all add: RtCore_request_stop_def)

lemma apply_ctx_frame [simp]:
  "controls (apply_ctx s c core) = controls core" "pc (apply_ctx s c core) = pc core"
  "phase (apply_ctx s c core) = phase core" "rt_stopping (apply_ctx s c core) = rt_stopping core"
  "window_left (apply_ctx s c core) = window_left core" "rt_cfg (apply_ctx s c core) = rt_cfg core"
  "reason core \<noteq> NoReason \<Longrightarrow> reason (apply_ctx s c core) = reason core"
  by (simp_all add: apply_ctx_def Let_def)

lemma dispatch_frame [simp]:
  "controls (snd (dispatch n dc st h fn a core)) = controls core" "pc (snd (dispatch n dc st h fn a core)) = pc core"
  "phase (snd (dispatch n dc st h fn a core)) = phase core"
  "rt_stopping (snd (dispatch n dc st h fn a core)) = rt_stopping core"
  "window_left (snd (dispatch n dc st h fn a core)) = window_left core"
  "rt_cfg (snd (dispatch n dc st h fn a core)) = rt_cfg core"
  "reason core \<noteq> NoReason \<Longrightarrow> reason (snd (dispatch n dc st h fn a core)) = reason core"
  "at_trace (fst (dispatch n dc st h fn a core)) = at_trace a @ [h]"
  by (simp_all add: dispatch_def split_beta)

lemma dispatch_all_frame [simp]:
  "pc (snd (dispatch_all n dc st h fn as core)) = pc core"
  "phase (snd (dispatch_all n dc st h fn as core)) = phase core"
  "rt_stopping (snd (dispatch_all n dc st h fn as core)) = rt_stopping core"
  "window_left (snd (dispatch_all n dc st h fn as core)) = window_left core"
  "rt_cfg (snd (dispatch_all n dc st h fn as core)) = rt_cfg core"
  "reason core \<noteq> NoReason \<Longrightarrow> reason (snd (dispatch_all n dc st h fn as core)) = reason core"
  "map at_trace (fst (dispatch_all n dc st h fn as core)) = map (\<lambda>a. at_trace a @ [h]) as"
  by (induction as arbitrary: core) (simp_all add: split_beta)

lemma run_hooks_frame [simp]:
  "pc (run_hooks n dc st h fn core) = pc core" "phase (run_hooks n dc st h fn core) = phase core"
  "rt_stopping (run_hooks n dc st h fn core) = rt_stopping core"
  "window_left (run_hooks n dc st h fn core) = window_left core" "rt_cfg (run_hooks n dc st h fn core) = rt_cfg core"
  "reason core \<noteq> NoReason \<Longrightarrow> reason (run_hooks n dc st h fn core) = reason core"
  "map at_trace (controls (run_hooks n dc st h fn core)) = map (\<lambda>a. at_trace a @ [h]) (controls core)"
  by (simp_all add: run_hooks_def split_beta)

lemma bringup_dispatch_frame [simp]:
  "pc (snd (snd (bringup_dispatch dc as g core))) = pc core"
  "phase (snd (snd (bringup_dispatch dc as g core))) = phase core"
  "rt_stopping (snd (snd (bringup_dispatch dc as g core))) = rt_stopping core"
  "rt_cfg (snd (snd (bringup_dispatch dc as g core))) = rt_cfg core"
  "reason core \<noteq> NoReason \<Longrightarrow> reason (snd (snd (bringup_dispatch dc as g core))) = reason core"
  "map at_trace (fst (bringup_dispatch dc as g core)) = map (\<lambda>a. at_trace a @ [HBringup]) as"
  by (induction as arbitrary: core g) (simp_all add: split_beta Let_def)

lemma call_on_stop_frame [simp]:
  "pc (call_on_stop r core) = pc core" "phase (call_on_stop r core) = phase core"
  "rt_stopping (call_on_stop r core) = rt_stopping core" "window_left (call_on_stop r core) = window_left core"
  "rt_cfg (call_on_stop r core) = rt_cfg core" "reason (call_on_stop r core) = reason core"
  "rt_master (call_on_stop r core) = rt_master core" "stop_flag (call_on_stop r core) = stop_flag core"
  "map at_trace (controls (call_on_stop r core)) = map (\<lambda>a. at_trace a @ [HStop r]) (controls core)"
  by (simp_all add: call_on_stop_def)

subsection \<open>The pacer in the loop\<close>

lemma catch_up_result:
  "catch_up period now i nxt n = Some r \<Longrightarrow> \<exists>k. fst r = nxt + of_nat k * period \<and> fst (snd r) = n + of_nat k"
proof (rule catch_up.raw_induct
    [where P = "\<lambda>period now i nxt n r. \<exists>k. fst r = nxt + of_nat k * period \<and> fst (snd r) = n + of_nat k"])
  fix cu period now i nxt n r
  assume IH: "\<And>period now i nxt n r. cu period now i nxt n = Some r \<Longrightarrow>
      \<exists>k. fst r = nxt + of_nat k * period \<and> fst (snd r) = n + of_nat k"
    and r: "(if nxt \<le> now i then cu period now (Suc i) (nxt + period) (n + 1) else Some (nxt, n, Suc i)) = Some r"
  show "\<exists>k. fst r = nxt + of_nat k * period \<and> fst (snd r) = n + of_nat k"
  proof (cases "nxt \<le> now i")
    case True
    with r IH obtain k where "fst r = nxt + period + of_nat k * period" "fst (snd r) = n + 1 + of_nat k" by fastforce
    then show ?thesis by (intro exI [of _ "Suc k"]) (simp add: algebra_simps)
  next
    case False
    with r show ?thesis by (intro exI [of _ 0]) auto
  qed
qed

text \<open>
  The pacing the loop's model uses is what the pacer computes: whenever \<^verbatim>\<open>advance_to_deadline\<close> returns,
  the pacer it leaves is \<open>pace_skip\<close> for some number of skipped periods, and that number (as a 32-bit
  value) is the count it returns.
\<close>

lemma pace_skip_agrees:
  assumes "DcPacer_advance_to_deadline p dc now = Some (p', d, n)"
  shows "\<exists>k. n = of_nat k \<and> p' = pace_skip p dc k"
proof -
  let ?p = "DcPacer_advance p dc"
  obtain j where "catch_up (period_ns ?p) now 0 (next_deadline ?p) 0 = Some (d, n, j)" and p': "p' = ?p\<lparr>next_deadline := d\<rparr>"
    using assms by (auto simp: DcPacer_advance_to_deadline_def Let_def split: option.splits)
  from catch_up_result [OF this(1)] obtain k where "d = next_deadline ?p + of_nat k * period_ns ?p" "n = of_nat k"
    by auto
  with p' show ?thesis by (intro exI [of _ k]) (simp add: pace_skip_def Let_def)
qed

subsection \<open>The order of the hooks\<close>

text \<open>
  \<open>stop_ok\<close>: a raised stop flag has a cause. Every piece of the loop keeps it.
\<close>

definition stop_ok :: "('w, 's) RtCore \<Rightarrow> bool" where
  "stop_ok core \<longleftrightarrow> (stop_flag core \<longrightarrow> reason core \<noteq> NoReason)"

lemma stop_ok_request [simp]: "stop_ok (RtCore_request_stop core)"
  by (simp add: stop_ok_def RtCore_request_stop_def latch_reason_def)

lemma stop_ok_cong: "stop_flag c = stop_flag c' \<Longrightarrow> reason c = reason c' \<Longrightarrow> stop_ok c = stop_ok c'"
  by (simp add: stop_ok_def)

lemma stop_ok_latch: "stop_ok core \<Longrightarrow> stop_ok (latch_reason r core)"
  by (auto simp: stop_ok_def latch_reason_def)

lemma stop_ok_apply_ctx: "stop_ok core \<Longrightarrow> stop_ok (apply_ctx s c core)"
  by (auto simp: apply_ctx_def Let_def stop_ok_def [of "_\<lparr>rt_master := _\<rparr>"] stop_ok_def [of core])

lemma stop_ok_dispatch: "stop_ok core \<Longrightarrow> stop_ok (snd (dispatch n dc st h fn a core))"
  by (simp add: dispatch_def split_beta stop_ok_apply_ctx)

lemma stop_ok_dispatch_all: "stop_ok core \<Longrightarrow> stop_ok (snd (dispatch_all n dc st h fn as core))"
  by (induction as arbitrary: core) (simp_all add: split_beta stop_ok_dispatch)

lemma stop_ok_run_hooks: "stop_ok core \<Longrightarrow> stop_ok (run_hooks n dc st h fn core)"
  using stop_ok_dispatch_all [of core n dc st h fn "controls core"]
  by (simp add: run_hooks_def split_beta stop_ok_def)

lemma stop_ok_bringup_dispatch: "stop_ok core \<Longrightarrow> stop_ok (snd (snd (bringup_dispatch dc as g core)))"
  by (induction as arbitrary: core g) (simp_all add: split_beta Let_def stop_ok_dispatch)

definition traces :: "('w, 's) RtCore \<Rightarrow> hook list list" where
  "traces core = map at_trace (controls core)"

lemma traces_sel [simp]:
  "traces (latch_reason r core) = traces core" "traces (RtCore_request_stop core) = traces core"
  "traces (run_hooks n dc st h fn core) = map (\<lambda>t. t @ [h]) (traces core)"
  "traces (call_on_stop r core) = map (\<lambda>t. t @ [HStop r]) (traces core)"
  "traces (core\<lparr>phase := ph\<rparr>) = traces core" "traces (core\<lparr>pc := x\<rparr>) = traces core"
  "traces (core\<lparr>rt_cycle_no := n\<rparr>) = traces core" "traces (core\<lparr>rt_stopping := b\<rparr>) = traces core"
  "traces (core\<lparr>window_left := w\<rparr>) = traces core" "traces (core\<lparr>rt_master := m\<rparr>) = traces core"
  "traces (core\<lparr>pacer := p\<rparr>) = traces core" "traces (core\<lparr>rt_overrun_worst := v\<rparr>) = traces core"
  "traces (core\<lparr>give_up_at := t\<rparr>) = traces core" "traces (core\<lparr>started := b\<rparr>) = traces core"
  "traces (core\<lparr>stop_flag := b\<rparr>) = traces core" "traces (core\<lparr>controls := as\<rparr>) = map at_trace as"
  by (simp_all add: traces_def comp_def)

text \<open>The history of one control, for each position of the loop.\<close>

definition bringup_history :: "hook list \<Rightarrow> bool" where
  "bringup_history t \<longleftrightarrow> (\<exists>a. t = replicate a HBringup)"

definition running_history :: "hook list \<Rightarrow> bool" where
  "running_history t \<longleftrightarrow> (\<exists>a b. t = replicate a HBringup @ [HOperational] @ replicate b (HStep False))"

definition stopping_history :: "StopReason \<Rightarrow> nat \<Rightarrow> hook list \<Rightarrow> bool" where
  "stopping_history r c t \<longleftrightarrow>
     (\<exists>u. running_history u \<and> t = u @ [HStop r] @ replicate c (HStep True))"

definition aborted_history :: "StopReason \<Rightarrow> hook list \<Rightarrow> bool" where
  "aborted_history r t \<longleftrightarrow> (\<exists>u. bringup_history u \<and> t = u @ [HStop r])"

lemma history_step:
  "bringup_history t \<Longrightarrow> bringup_history (t @ [HBringup])"
  "bringup_history t \<Longrightarrow> running_history (t @ [HOperational])"
  "bringup_history t \<Longrightarrow> aborted_history r (t @ [HStop r])"
  "running_history t \<Longrightarrow> running_history (t @ [HStep False])"
  "running_history t \<Longrightarrow> stopping_history r 0 (t @ [HStop r])"
  "stopping_history r c t \<Longrightarrow> stopping_history r (Suc c) (t @ [HStep True])"
proof -
  show "bringup_history t \<Longrightarrow> bringup_history (t @ [HBringup])"
    unfolding bringup_history_def by (metis replicate_Suc replicate_append_same append_Cons)
  show "bringup_history t \<Longrightarrow> running_history (t @ [HOperational])"
    unfolding bringup_history_def running_history_def by (metis append_Nil2 replicate_0)
  show "bringup_history t \<Longrightarrow> aborted_history r (t @ [HStop r])"
    by (auto simp: aborted_history_def)
  show "running_history t \<Longrightarrow> running_history (t @ [HStep False])"
    unfolding running_history_def
    by (metis append.assoc replicate_Suc replicate_append_same)
  show "running_history t \<Longrightarrow> stopping_history r 0 (t @ [HStop r])"
    by (auto simp: stopping_history_def)
  show "stopping_history r c t \<Longrightarrow> stopping_history r (Suc c) (t @ [HStep True])"
    by (auto simp: stopping_history_def replicate_append_same)
qed

text \<open>The invariant of the loop: position, phase, window and histories agree.\<close>

definition loop_history :: "('w, 's) RtCore \<Rightarrow> hook list \<Rightarrow> bool" where
  "loop_history core t =
     (case pc core of
        PcBringup \<Rightarrow> bringup_history t
      | PcSteady \<Rightarrow>
          if rt_stopping core
          then \<exists>c. stopping_history (reason core) c t
                   \<and> c + unat (window_left core) = unat (teardown_cycles (rt_cfg core))
          else running_history t
      | PcEnd \<Rightarrow>
          aborted_history (reason core) t
          \<or> (\<exists>c. 0 < c \<and> c \<le> unat (teardown_cycles (rt_cfg core)) \<and> stopping_history (reason core) c t))"

definition loop_phase :: "('w, 's) RtCore \<Rightarrow> RunnerPhase" where
  "loop_phase core =
     (case pc core of
        PcBringup \<Rightarrow> PhBringingUp
      | PcSteady \<Rightarrow> if rt_stopping core then PhStopping else PhRunning
      | PcEnd \<Rightarrow> PhStopped)"

definition loop_inv :: "('w, 's) RtCore \<Rightarrow> bool" where
  "loop_inv core \<longleftrightarrow>
     stop_ok core \<and> 0 < teardown_cycles (rt_cfg core) \<and> phase core = loop_phase core
     \<and> (pc core = PcEnd \<or> pc core = PcSteady \<and> rt_stopping core \<longrightarrow> reason core \<noteq> NoReason)
     \<and> (pc core = PcSteady \<and> rt_stopping core \<longrightarrow>
          0 < window_left core \<and> window_left core \<le> teardown_cycles (rt_cfg core))
     \<and> list_all (loop_history core) (traces core)"

lemma loop_invI:
  assumes "stop_ok core" "0 < teardown_cycles (rt_cfg core)" "phase core = loop_phase core"
    "pc core = PcEnd \<or> pc core = PcSteady \<and> rt_stopping core \<Longrightarrow> reason core \<noteq> NoReason"
    "pc core = PcSteady \<Longrightarrow> rt_stopping core \<Longrightarrow>
       0 < window_left core \<and> window_left core \<le> teardown_cycles (rt_cfg core)"
    "\<And>t. t \<in> set (traces core) \<Longrightarrow> loop_history core t"
  shows "loop_inv core"
  using assms by (simp add: loop_inv_def list_all_iff)

lemma latch_cause: "r \<noteq> NoReason \<Longrightarrow> reason (latch_reason r core) \<noteq> NoReason"
  by (simp add: latch_reason_def)

lemma loop_inv_request: "loop_inv core \<Longrightarrow> loop_inv (RtCore_request_stop core)"
  by (rule loop_invI)
    (auto simp: loop_inv_def loop_phase_def list_all_iff loop_history_def split: rt_pc.splits if_splits)

lemma finish_without_op_inv:
  assumes "stop_ok core" "0 < teardown_cycles (rt_cfg core)" "list_all bringup_history (traces core)"
  shows "loop_inv (finish_without_op core)"
proof (rule loop_invI)
  let ?c = "latch_reason Requested core"
  have r: "reason (finish_without_op core) = reason ?c" by (simp add: finish_without_op_def Let_def)
  show "reason (finish_without_op core) \<noteq> NoReason" unfolding r by (rule latch_cause) simp
  show "stop_ok (finish_without_op core)"
    using stop_ok_latch [OF assms(1)] by (simp add: finish_without_op_def Let_def stop_ok_def)
  show "0 < teardown_cycles (rt_cfg (finish_without_op core))"
    "phase (finish_without_op core) = loop_phase (finish_without_op core)"
    using assms by (simp_all add: finish_without_op_def Let_def loop_phase_def)
  show "loop_history (finish_without_op core) t" if "t \<in> set (traces (finish_without_op core))" for t
    using that assms(3) r
    by (auto simp: finish_without_op_def Let_def loop_history_def list_all_iff intro: history_step)
  show "pc (finish_without_op core) = PcSteady \<Longrightarrow> 0 < window_left (finish_without_op core)
      \<and> window_left (finish_without_op core) \<le> teardown_cycles (rt_cfg (finish_without_op core))"
    by (simp add: finish_without_op_def Let_def)
qed

lemma enter_operational_inv:
  assumes "stop_ok core" "0 < teardown_cycles (rt_cfg core)" "list_all bringup_history (traces core)"
  shows "loop_inv (enter_operational core)"
proof (rule loop_invI)
  show "stop_ok (enter_operational core)"
    using stop_ok_run_hooks [of "core\<lparr>phase := PhRunning\<rparr>"] assms(1)
    by (simp add: enter_operational_def stop_ok_def)
  show "loop_history (enter_operational core) t" if "t \<in> set (traces (enter_operational core))" for t
    using that assms(3) by (auto simp: enter_operational_def loop_history_def list_all_iff intro: history_step)
qed (use assms in \<open>simp_all add: enter_operational_def loop_phase_def\<close>)

lemma rt_bringup_turn_inv:
  assumes "loop_inv core" "pc core = PcBringup"
  shows "loop_inv (rt_bringup_turn S env core)"
proof (cases "stop_flag core")
  case True
  have "loop_inv (finish_without_op core)"
    using assms by (intro finish_without_op_inv) (auto simp: loop_inv_def loop_history_def list_all_iff)
  with True show ?thesis by (simp add: rt_bringup_turn_def)
next
  case False
  obtain as f p core1 where d: "bringup_dispatch (cycle_dc (rt_master core)) (controls core) (False, True) core = (as, (f, p), core1)"
    by (metis prod_cases3 surj_pair)
  obtain bs m where b: "Master_bringup_step S f p (rt_master core1) = (bs, m)" by fastforce
  define core2 where "core2 = core1\<lparr>controls := as, rt_master := m, pacer := pace_skip (pacer core1) (cycle_dc m) (e_skips env)\<rparr>"
  note bd = bringup_dispatch_frame [where core = core and dc = "cycle_dc (rt_master core)" and as = "controls core"
      and g = "(False, True)", unfolded d, simplified]
  have "stop_ok core1"
    using stop_ok_bringup_dispatch [of core "cycle_dc (rt_master core)" "controls core" "(False, True)"] d assms
    by (simp add: loop_inv_def)
  then have ok: "stop_ok core2" by (simp add: core2_def stop_ok_def)
  have tr: "traces core2 = map (\<lambda>t. t @ [HBringup]) (traces core)"
    using bd by (simp add: core2_def traces_def comp_def)
  have hist: "list_all bringup_history (traces core2)"
    using assms by (auto simp: tr loop_inv_def loop_history_def list_all_iff intro: history_step)
  have cfg: "0 < teardown_cycles (rt_cfg core2)" using assms bd by (simp add: core2_def loop_inv_def)
  have stay: "loop_inv core2"
    using ok cfg hist assms bd by (intro loop_invI) (auto simp: core2_def loop_phase_def loop_history_def list_all_iff loop_inv_def)
  have "rt_bringup_turn S env core =
      (if bs = StOperational then enter_operational core2
       else if bs = StAborted \<or> e_now env \<ge> give_up_at core2
       then finish_without_op (latch_reason BringupAbortedReason core2) else core2)"
    using False by (simp add: rt_bringup_turn_def d b core2_def)
  then show ?thesis
    using stay enter_operational_inv [OF ok cfg hist] finish_without_op_inv [OF stop_ok_latch [OF ok]] cfg hist by simp
qed

lemma steady_head_inv:
  assumes "loop_inv core" "pc core = PcSteady"
  shows "loop_inv (steady_head S core)" "pc (steady_head S core) = PcSteady"
proof -
  define core2 where "core2 = (let core1 = core\<lparr>rt_master := Master_process S (rt_master core)\<rparr> in
    if fault_latched (rt_master core1) then (latch_reason BusFault core1)\<lparr>stop_flag := True\<rparr> else core1)"
  have ok: "stop_ok core2"
    using assms by (auto simp: core2_def Let_def loop_inv_def stop_ok_def latch_reason_def)
  have sel: "pc core2 = PcSteady" "phase core2 = phase core" "rt_stopping core2 = rt_stopping core"
    "rt_cfg core2 = rt_cfg core" "traces core2 = traces core"
    using assms(2) by (simp_all add: core2_def Let_def)
  have head: "steady_head S core =
      (if rt_stopping core then core\<lparr>rt_master := Master_process S (rt_master core)\<rparr>
       else if stop_flag core2
       then call_on_stop (reason core2)
              (core2\<lparr>rt_stopping := True, window_left := teardown_cycles (rt_cfg core2), phase := PhStopping\<rparr>)
       else core2)"
    by (simp add: steady_head_def core2_def Let_def)
  show "pc (steady_head S core) = PcSteady" using assms(2) sel(1) by (simp add: head)
  have stay: "loop_inv (core\<lparr>rt_master := m\<rparr>)" for m
    using assms by (auto simp: loop_inv_def stop_ok_def loop_phase_def loop_history_def list_all_iff)
  have run: "loop_inv core2" if "\<not> rt_stopping core"
    using assms ok sel that by (auto simp: loop_inv_def loop_phase_def loop_history_def list_all_iff)
  have stop: "loop_inv (call_on_stop (reason core2)
      (core2\<lparr>rt_stopping := True, window_left := teardown_cycles (rt_cfg core2), phase := PhStopping\<rparr>))"
    if "\<not> rt_stopping core" "stop_flag core2"
    using assms ok sel that
    by (intro loop_invI) (auto simp: loop_inv_def stop_ok_def loop_phase_def loop_history_def list_all_iff
        intro!: exI [of _ 0] history_step)
  show "loop_inv (steady_head S core)" using stay run stop by (simp add: head)
qed

lemma unat_window: "0 < (w :: u32) \<Longrightarrow> Suc (unat (w - 1)) = unat w"
  using unat_minus_one_pos [of w] by (simp add: word_less_nat_alt)

lemma steady_tail_inv:
  assumes "stop_ok core" "0 < teardown_cycles (rt_cfg core)" "phase core = loop_phase core" "pc core = PcSteady"
    "rt_stopping core \<Longrightarrow> reason core \<noteq> NoReason \<and> 0 < window_left core
       \<and> window_left core \<le> teardown_cycles (rt_cfg core) \<and>
       (\<forall>t\<in>set (traces core). \<exists>c. 0 < c \<and> stopping_history (reason core) c t
            \<and> c + unat (window_left core) = Suc (unat (teardown_cycles (rt_cfg core))))"
    "\<not> rt_stopping core \<Longrightarrow> list_all running_history (traces core)"
  shows "loop_inv (steady_tail core)"
proof (cases "rt_stopping core")
  case False
  with assms show ?thesis
    by (intro loop_invI) (auto simp: steady_tail_def loop_history_def list_all_iff)
next
  case True
  note st = assms(5) [OF True]
  define w where "w = window_left core - 1"
  have w: "Suc (unat w) = unat (window_left core)" using st unat_window by (simp add: w_def)
  let ?fin = "core\<lparr>window_left := w, phase := PhStopped, pc := PcEnd\<rparr>" and ?on = "core\<lparr>window_left := w\<rparr>"
  have hist: "\<exists>c. 0 < c \<and> c + unat w = unat (teardown_cycles (rt_cfg core)) \<and> stopping_history (reason core) c t"
    if "t \<in> set (traces core)" for t
    using st that w by (metis add_Suc_right Suc_inject)
  have "loop_inv ?fin"
  proof (rule loop_invI)
    show "loop_history ?fin t" if t: "t \<in> set (traces ?fin)" for t
    proof -
      obtain c where "0 < c" "c + unat w = unat (teardown_cycles (rt_cfg core))" "stopping_history (reason core) c t"
        using hist t by auto
      then show ?thesis by (auto simp: loop_history_def intro!: exI [of _ c])
    qed
  qed (use assms(1,2) st in \<open>simp_all add: loop_phase_def stop_ok_def\<close>)
  moreover have "loop_inv ?on" if "w \<noteq> 0"
  proof (rule loop_invI)
    show "loop_history ?on t" if "t \<in> set (traces ?on)" for t
      using hist that True assms(4) by (auto simp: loop_history_def)
    show "0 < window_left ?on \<and> window_left ?on \<le> teardown_cycles (rt_cfg ?on)"
      using that w st by (auto simp: word_gt_0 word_le_nat_alt)
  qed (use assms(1-4) st in \<open>simp_all add: loop_phase_def stop_ok_def\<close>)
  ultimately show ?thesis using True by (simp add: steady_tail_def Let_def w_def)
qed

lemma rt_steady_turn_inv:
  assumes "loop_inv core" "pc core = PcSteady"
  shows "loop_inv (rt_steady_turn S env core)"
proof -
  define core1 where "core1 = steady_head S core"
  define dct where "dct = cycle_dc (rt_master core1)"
  define core2 where "core2 = run_hooks (rt_cycle_no core1) dct (rt_stopping core1) (HStep (rt_stopping core1)) sc_step core1"
  define core3 where "core3 = core2\<lparr>pacer := pace_skip (pacer core2) dct (e_skips env),
    rt_overrun_worst := max (of_nat (e_skips env)) (rt_overrun_worst core2), rt_cycle_no := rt_cycle_no core2 + 1\<rparr>"
  note inv = steady_head_inv [OF assms, of S, folded core1_def]
  have ok: "stop_ok core3"
    using stop_ok_run_hooks [of core1] inv(1) by (simp add: core3_def core2_def loop_inv_def stop_ok_def)
  have sel: "pc core3 = PcSteady" "phase core3 = phase core1" "rt_stopping core3 = rt_stopping core1"
    "rt_cfg core3 = rt_cfg core1" "window_left core3 = window_left core1"
    "traces core3 = map (\<lambda>t. t @ [HStep (rt_stopping core1)]) (traces core1)"
    using inv(2) by (simp_all add: core3_def core2_def)
  have r: "reason core1 \<noteq> NoReason \<Longrightarrow> reason core3 = reason core1" by (simp add: core3_def core2_def)
  have "loop_inv (steady_tail core3)"
  proof (rule steady_tail_inv)
    show "reason core3 \<noteq> NoReason \<and> 0 < window_left core3
       \<and> window_left core3 \<le> teardown_cycles (rt_cfg core3) \<and>
       (\<forall>t\<in>set (traces core3). \<exists>c. 0 < c \<and> stopping_history (reason core3) c t
            \<and> c + unat (window_left core3) = Suc (unat (teardown_cycles (rt_cfg core3))))" if "rt_stopping core3"
      using that inv sel r
      by (fastforce simp: loop_inv_def loop_history_def list_all_iff intro: history_step(6))
    show "list_all running_history (traces core3)" if "\<not> rt_stopping core3"
      using that inv sel by (auto simp: loop_inv_def loop_history_def list_all_iff intro: history_step)
  qed (use ok inv sel in \<open>simp_all add: loop_inv_def loop_phase_def\<close>)
  then show ?thesis
    by (simp add: rt_steady_turn_def core1_def dct_def core2_def core3_def Let_def)
qed

interpretation rt_loop: cyclic_invariant "rt_cycle S" loop_inv for S
proof
  fix core :: "('a, 'b) RtCore" and env :: rt_env
  assume inv: "loop_inv core"
  let ?c = "if e_stop env then RtCore_request_stop core else core"
  have "loop_inv ?c" using inv by (simp add: loop_inv_request)
  then show "loop_inv (rt_cycle S core env)"
    by (cases "pc ?c") (simp_all add: rt_cycle_def rt_bringup_turn_inv rt_steady_turn_inv Let_def)
qed

text \<open>A runner before \<^verbatim>\<open>start\<close>: built, with any controls attached, and no hook called yet.\<close>

definition runner_fresh :: "('w, 's) RtCore \<Rightarrow> bool" where
  "runner_fresh core \<longleftrightarrow> reason core = NoReason \<and> \<not> stop_flag core \<and> 0 < teardown_cycles (rt_cfg core)
     \<and> list_all (\<lambda>t. t = []) (traces core)"

lemma Runner_new_fresh: "runner_fresh (Runner_new m cfg)"
  by (simp add: runner_fresh_def Runner_new_def word_gt_0 traces_def)

lemma Runner_attach_fresh:
  "Runner_attach slave ops control core = (Inr (), core') \<Longrightarrow> runner_fresh core \<Longrightarrow> runner_fresh core'"
  by (auto simp: Runner_attach_def em_bind_apply runner_fresh_def traces_def split: if_splits)

lemma start_configure_fresh:
  assumes "runner_fresh core" "em_for is (\<lambda>i core.
        let a = controls core ! i in
        case on_configured (at_slave_id a) (at_control a) (rt_master core) of
          (Inl e, m) \<Rightarrow> (Inl e, core\<lparr>rt_master := m\<rparr>)
        | (Inr s, m) \<Rightarrow> (Inr (), core\<lparr>rt_master := m, controls := (controls core)[i := a\<lparr>at_control := s\<rparr>]\<rparr>)) core
     = (Inr (), core')"
    "set is \<subseteq> {..<length (controls core)}"
  shows "runner_fresh core'"
  using assms
proof (induction "is" arbitrary: core)
  case (Cons i "is")
  let ?a = "controls core ! i"
  obtain s m where c: "on_configured (at_slave_id ?a) (at_control ?a) (rt_master core) = (Inr s, m)"
    using Cons.prems(2) by (auto simp: em_seq_apply Let_def split: prod.splits sum.splits)
  define core1 where "core1 = core\<lparr>rt_master := m, controls := (controls core)[i := ?a\<lparr>at_control := s\<rparr>]\<rparr>"
  have "traces core1 = traces core"
    using Cons.prems(3) by (simp add: core1_def traces_def map_update)
      (metis list_update_id nth_map)
  then have "runner_fresh core1" using Cons.prems(1) by (simp add: core1_def runner_fresh_def)
  moreover have "set is \<subseteq> {..<length (controls core1)}" using Cons.prems(3) by (simp add: core1_def)
  ultimately show ?case
    using Cons.prems(2) c by (intro Cons.IH [of core1]) (simp_all add: em_seq_apply core1_def Let_def)
qed simp

lemma rt_prelude_inv:
  assumes "runner_fresh core" shows "loop_inv (rt_prelude rt_ok now (core\<lparr>started := b, phase := PhBringingUp\<rparr>))"
proof -
  have h: "bringup_history []" by (auto simp: bringup_history_def)
  have "at_trace a = []" if "a \<in> set (controls core)" for a
    using assms that by (auto simp: runner_fresh_def traces_def list_all_iff)
  then show ?thesis
    using assms h history_step(3) [OF h, of RtSetupFailed]
    by (intro loop_invI)
      (auto simp: runner_fresh_def list_all_iff loop_history_def stop_ok_def rt_prelude_def Let_def
        loop_phase_def latch_reason_def split: if_splits)
qed

lemma Runner_start_inv:
  assumes "runner_fresh core" "Runner_start on_configured rt_ok now core = (Inr (), core')"
  shows "loop_inv core'"
proof -
  obtain core1 where c: "em_for [0..<length (controls core)] (\<lambda>i core.
        let a = controls core ! i in
        case on_configured (at_slave_id a) (at_control a) (rt_master core) of
          (Inl e, m) \<Rightarrow> (Inl e, core\<lparr>rt_master := m\<rparr>)
        | (Inr s, m) \<Rightarrow> (Inr (), core\<lparr>rt_master := m, controls := (controls core)[i := a\<lparr>at_control := s\<rparr>]\<rparr>)) core
      = (Inr (), core1)"
    and core': "core' = rt_prelude rt_ok now (core1\<lparr>started := True, phase := PhBringingUp\<rparr>)"
    using assms(2) by (auto simp: Runner_start_def em_bind_apply em_seq_Inr_iff split: if_splits)
  have "runner_fresh core1" by (rule start_configure_fresh [OF assms(1) c]) auto
  then show ?thesis unfolding core' by (rule rt_prelude_inv)
qed


subsection \<open>Stopping\<close>

lemma request_stop_keeps_flag [simp]: "stop_flag core \<Longrightarrow> stop_flag (apply_ctx s c core)"
  by (simp add: apply_ctx_def Let_def)

lemma dispatch_flag: "stop_flag core \<Longrightarrow> stop_flag (snd (dispatch n dc st h fn a core))"
  by (simp add: dispatch_def split_beta)

lemma dispatch_all_flag: "stop_flag core \<Longrightarrow> stop_flag (snd (dispatch_all n dc st h fn as core))"
  by (induction as arbitrary: core) (simp_all add: split_beta dispatch_flag)

lemma run_hooks_flag: "stop_flag core \<Longrightarrow> stop_flag (run_hooks n dc st h fn core)"
  by (simp add: run_hooks_def split_beta dispatch_all_flag)

lemma steady_tail_sel:
  "stop_flag (steady_tail core) = stop_flag core" "reason (steady_tail core) = reason core"
  "rt_cfg (steady_tail core) = rt_cfg core" "rt_stopping (steady_tail core) = rt_stopping core"
  by (simp_all add: steady_tail_def Let_def)

text \<open>A turn of the steady loop in, or entering, the stopping window.\<close>

definition must_stop :: "'w soem \<Rightarrow> ('w, 's) RtCore \<Rightarrow> bool" where
  "must_stop S core \<longleftrightarrow> stop_flag core \<or> fault_latched (Master_process S (rt_master core))"

lemma steady_head_stop:
  assumes "\<not> rt_stopping core" "must_stop S core"
  shows "rt_stopping (steady_head S core)" "stop_flag (steady_head S core)"
    "window_left (steady_head S core) = teardown_cycles (rt_cfg core)"
    "rt_cfg (steady_head S core) = rt_cfg core"
    "pc (steady_head S core) = pc core"
  using assms by (auto simp: steady_head_def must_stop_def Let_def)

lemma steady_head_stopping:
  assumes "rt_stopping core"
  shows "steady_head S core = core\<lparr>rt_master := Master_process S (rt_master core)\<rparr>"
  using assms by (simp add: steady_head_def Let_def)

lemma steady_turn_window:
  assumes "rt_stopping (steady_head S core)" "pc (steady_head S core) = PcSteady"
  shows "let core' = rt_steady_turn S env core; h = steady_head S core in
     rt_stopping core' \<and> (stop_flag h \<longrightarrow> stop_flag core') \<and> rt_cfg core' = rt_cfg h \<and>
     (pc core' = PcEnd \<or> pc core' = PcSteady \<and> window_left core' = window_left h - 1)"
  using assms run_hooks_flag [of "steady_head S core"]
  by (auto simp: rt_steady_turn_def Let_def steady_tail_sel) (auto simp: steady_tail_def Let_def split: if_splits)

definition stop_pending :: "('w, 's) RtCore \<Rightarrow> bool" where
  "stop_pending core \<longleftrightarrow> loop_inv core \<and> (pc core \<noteq> PcEnd \<longrightarrow> stop_flag core)"

definition stop_bound :: "('w, 's) RtCore \<Rightarrow> nat" where
  "stop_bound core =
     (case pc core of
        PcBringup \<Rightarrow> 1
      | PcSteady \<Rightarrow> if rt_stopping core then unat (window_left core) else unat (teardown_cycles (rt_cfg core))
      | PcEnd \<Rightarrow> 0)"

lemma bringup_turn_stops: "stop_flag core \<Longrightarrow> pc (rt_bringup_turn S env core) = PcEnd"
  by (simp add: rt_bringup_turn_def finish_without_op_def Let_def)

lemma steady_turn_stops:
  assumes "loop_inv core" "pc core = PcSteady" "stop_flag core \<or> \<not> rt_stopping core \<and> must_stop S core"
  shows "pc (rt_steady_turn S env core) = PcEnd \<or>
     stop_flag (rt_steady_turn S env core) \<and> stop_bound (rt_steady_turn S env core) < stop_bound core"
proof (cases "rt_stopping core")
  case True
  then have w: "0 < window_left core" using assms by (simp add: loop_inv_def)
  have "stop_flag core" using assms True by simp
  then show ?thesis
    using steady_turn_window [of S core env] steady_head_stopping [OF True, of S] True assms(2) unat_window [OF w]
    by (auto simp: Let_def stop_bound_def)
next
  case False
  then have m: "must_stop S core" using assms(3) by (auto simp: must_stop_def)
  have w: "0 < teardown_cycles (rt_cfg core)" using assms by (simp add: loop_inv_def)
  show ?thesis
    using steady_turn_window [of S core env] steady_head_stop [OF False m] False assms(2) unat_window [OF w]
    by (auto simp: Let_def stop_bound_def)
qed

lemma stop_bound_request [simp]: "stop_bound (RtCore_request_stop core) = stop_bound core"
  by (simp add: stop_bound_def split: rt_pc.split)

lemma rt_cycle_stops:
  assumes "loop_inv core" "stop_flag core \<or> pc core = PcSteady \<and> \<not> rt_stopping core \<and> must_stop S core"
    "pc core \<noteq> PcEnd"
  shows "stop_pending (rt_cycle S core env) \<and>
     (pc (rt_cycle S core env) = PcEnd \<or> stop_bound (rt_cycle S core env) < stop_bound core)"
proof -
  define c where "c = (if e_stop env then RtCore_request_stop core else core)"
  have c: "loop_inv c" "pc c = pc core" "stop_bound c = stop_bound core"
    "stop_flag c \<or> pc c = PcSteady \<and> \<not> rt_stopping c \<and> must_stop S c"
    using assms by (auto simp: c_def loop_inv_request must_stop_def)
  have cyc: "rt_cycle S core env = (if pc core = PcBringup then rt_bringup_turn S env c else rt_steady_turn S env c)"
    using assms(3) c(2) by (cases "pc core") (simp_all add: rt_cycle_def c_def [symmetric])
  have "loop_inv (rt_cycle S core env)" by (rule rt_loop.step_inv) (rule assms(1))
  moreover have "pc (rt_cycle S core env) = PcEnd \<or>
      stop_flag (rt_cycle S core env) \<and> stop_bound (rt_cycle S core env) < stop_bound core"
    using bringup_turn_stops [of c S env] steady_turn_stops [OF c(1), of S env] c assms(3)
    by (cases "pc core") (auto simp: cyc)
  ultimately show ?thesis by (auto simp: stop_pending_def)
qed

interpretation rt_stop: cyclic_progress "rt_cycle S" stop_pending "\<lambda>_. True" "\<lambda>core. pc core = PcEnd" stop_bound
  for S
proof
  fix core :: "('a, 'b) RtCore" and env :: rt_env
  have ended: "rt_cycle S core env = (if e_stop env then RtCore_request_stop core else core)" if "pc core = PcEnd"
    using that by (simp add: rt_cycle_def)
  show "stop_pending core \<Longrightarrow> stop_pending (rt_cycle S core env)"
    using rt_cycle_stops [of core S env] ended by (cases "pc core = PcEnd") (auto simp: stop_pending_def loop_inv_request)
  show "stop_pending core \<Longrightarrow> pc core \<noteq> PcEnd \<Longrightarrow> stop_bound (rt_cycle S core env) < stop_bound core"
  proof -
    assume "stop_pending core" "pc core \<noteq> PcEnd"
    moreover have "0 < stop_bound core"
      using calculation by (auto simp: stop_bound_def stop_pending_def loop_inv_def word_less_nat_alt split: rt_pc.splits)
    moreover have "stop_bound c = 0" if "pc c = PcEnd" for c :: "('a, 'b) RtCore" using that by (simp add: stop_bound_def)
    ultimately show "stop_bound (rt_cycle S core env) < stop_bound core"
      using rt_cycle_stops [of core S env] by (auto simp: stop_pending_def)
  qed
  show "pc core = PcEnd \<Longrightarrow> pc (rt_cycle S core env) = PcEnd" by (simp add: ended)
qed

text \<open>
  C17. Stopping is bounded. In a started runner, once a stop has been requested (by any thread or hook),
  or once the bus fault latches in the steady loop, the runner is Stopped after at most
  \<^verbatim>\<open>teardown_cycles\<close> cycles of the loop, the cycle that sees the cause included, whatever the controls do
  and whether or not the bus still answers.
\<close>

theorem stop_reaches_stopped:
  assumes "loop_inv core"
    "stop_flag core \<or> pc core = PcSteady \<and> \<not> rt_stopping core \<and> fault_latched (Master_process S (rt_master core))"
    "unat (teardown_cycles (rt_cfg core)) \<le> length envs"
  shows "phase (foldl (rt_cycle S) core envs) = PhStopped"
proof -
  have inv: "loop_inv (foldl (rt_cycle S) core envs)" by (rule rt_loop.run_inv) (rule assms(1))
  have td: "0 < unat (teardown_cycles (rt_cfg core))" using assms(1) by (simp add: loop_inv_def word_less_nat_alt)
  have le: "stop_bound core \<le> unat (teardown_cycles (rt_cfg core))"
    using assms(1) td
    by (auto simp: stop_bound_def loop_inv_def word_le_nat_alt split: rt_pc.splits)
  have "pc (foldl (rt_cycle S) core envs) = PcEnd"
  proof (cases "pc core = PcEnd")
    case True
    then have "stop_pending core" using assms(1) by (simp add: stop_pending_def)
    with True show ?thesis by (intro rt_stop.run_stays_done) (simp_all add: list_all_iff)
  next
    case False
    obtain e es where e: "envs = e # es" using td assms(3) by (cases envs) auto
    have "stop_flag core \<or> pc core = PcSteady \<and> \<not> rt_stopping core \<and> must_stop S core"
      using assms(2) by (auto simp: must_stop_def)
    note st = rt_cycle_stops [OF assms(1) this False, of e]
    show ?thesis
    proof (cases "pc (rt_cycle S core e) = PcEnd")
      case True
      then show ?thesis unfolding e by (simp add: rt_stop.run_stays_done [of es] list_all_iff st)
    next
      case False
      with st le assms(3) have lt: "stop_bound (rt_cycle S core e) \<le> length es" by (simp add: e)
      moreover have "es \<noteq> []"
        using lt st False
        by (auto simp: stop_bound_def stop_pending_def loop_inv_def word_less_nat_alt split: rt_pc.splits if_splits)
      ultimately show ?thesis unfolding e by (simp add: rt_stop.run_reaches_done [of es] list_all_iff st)
    qed
  qed
  with inv show ?thesis by (simp add: loop_inv_def loop_phase_def)
qed

lemma finish_reason: "reason core \<noteq> NoReason \<Longrightarrow> reason (finish_without_op core) = reason core"
  by (simp add: finish_without_op_def Let_def)

lemma bringup_turn_reason:
  assumes "reason core \<noteq> NoReason" shows "reason (rt_bringup_turn S env core) = reason core"
proof -
  obtain as f p core1 where d: "bringup_dispatch (cycle_dc (rt_master core)) (controls core) (False, True) core = (as, (f, p), core1)"
    by (metis prod_cases3 surj_pair)
  have "reason core1 = reason core"
    using bringup_dispatch_frame(5) [of core "cycle_dc (rt_master core)" "controls core" "(False, True)"] assms d by simp
  then show ?thesis
    using assms
    by (simp add: rt_bringup_turn_def d finish_reason enter_operational_def split_beta Let_def)
qed

lemma steady_turn_reason:
  assumes "reason core \<noteq> NoReason" shows "reason (rt_steady_turn S env core) = reason core"
proof -
  have "reason (steady_head S core) = reason core" using assms by (simp add: steady_head_def Let_def)
  then show ?thesis using assms by (simp add: rt_steady_turn_def Let_def steady_tail_sel)
qed

interpretation first_cause: cyclic_invariant "rt_cycle S" "\<lambda>core. r \<noteq> NoReason \<and> reason core = r" for S r
proof
  fix core :: "('a, 'b) RtCore" and env :: rt_env
  assume "r \<noteq> NoReason \<and> reason core = r"
  then show "r \<noteq> NoReason \<and> reason (rt_cycle S core env) = r"
    by (auto simp: rt_cycle_def Let_def bringup_turn_reason steady_turn_reason split: rt_pc.split)
qed

text \<open>
  The first cause wins. A runner that has latched a stop reason keeps it through every further cycle:
  a bus fault, a bring-up abort or a second request that comes later does not change what \<^verbatim>\<open>on_stop\<close> is
  told and what \<^verbatim>\<open>stop_reason\<close> reports. Without an earlier cause, a fault latched by the exchange of a
  steady cycle makes the reason \<^verbatim>\<open>BusFault\<close>.
\<close>

theorem first_cause_wins:
  "(reason core \<noteq> NoReason \<longrightarrow> reason (foldl (rt_cycle S) core envs) = reason core)
   \<and> (reason core = NoReason \<and> pc core = PcSteady \<and> \<not> rt_stopping core
       \<and> fault_latched (Master_process S (rt_master core)) \<and> \<not> e_stop env
      \<longrightarrow> reason (foldl (rt_cycle S) core (env # envs)) = BusFault)"
proof
  show "reason core \<noteq> NoReason \<longrightarrow> reason (foldl (rt_cycle S) core envs) = reason core"
    using first_cause.run_inv [of "reason core" core S envs] by blast
  have "reason (rt_cycle S core env) = BusFault"
    if "reason core = NoReason" "pc core = PcSteady" "\<not> rt_stopping core"
      "fault_latched (Master_process S (rt_master core))" "\<not> e_stop env"
  proof -
    have "reason (steady_head S core) = BusFault" using that by (simp add: steady_head_def latch_reason_def Let_def)
    then show ?thesis using that by (simp add: rt_cycle_def rt_steady_turn_def Let_def steady_tail_sel)
  qed
  then show "reason core = NoReason \<and> pc core = PcSteady \<and> \<not> rt_stopping core
       \<and> fault_latched (Master_process S (rt_master core)) \<and> \<not> e_stop env
      \<longrightarrow> reason (foldl (rt_cycle S) core (env # envs)) = BusFault"
    using first_cause.run_inv [of BusFault "rt_cycle S core env" S envs] by simp
qed

subsection \<open>A concrete runner\<close>

definition idle_control :: "(ec_errort list, unit) SlaveControl" where
  "idle_control = \<lparr>sc_on_operational = Pair, sc_on_stop = (\<lambda>_ _ s. s), sc_step = Pair,
     sc_sync_faulted = (\<lambda>_ s. (False, s)), sc_drive_present = (\<lambda>_ _. True),
     sc_stage_bringup_outputs = Pair, sc_teardown_complete = (\<lambda>_. False)\<rparr>"

definition demo_runner :: "(ec_errort list, unit) RtCore" where
  "demo_runner = (Runner_new demo_master
     \<lparr>rt_priority = 80, require_realtime = False, bringup_timeout_ms = 1000, teardown_cycles = 2, stop_join_timeout_ms = 0\<rparr>)
     \<lparr>controls := [\<lparr>at_slave_id = 1, at_ops = idle_control, at_control = (), at_trace = []\<rparr>]\<rparr>"

definition demo_running :: "(ec_errort list, unit) RtCore" where
  "demo_running = demo_runner\<lparr>pc := PcSteady, phase := PhRunning, stop_flag := True, reason := Requested,
     controls := [\<lparr>at_slave_id = 1, at_ops = idle_control, at_control = (), at_trace = [HBringup, HOperational, HStep False]\<rparr>]\<rparr>"

definition demo_env :: rt_env where
  "demo_env = \<lparr>e_stop = False, e_now = 0, e_skips = 0\<rparr>"

lemma demo_runner_fresh: "runner_fresh demo_runner"
  by (simp add: runner_fresh_def demo_runner_def Runner_new_def traces_def)

lemma demo_running_inv: "loop_inv demo_running"
proof -
  have "running_history [HBringup, HOperational, HStep False]"
    unfolding running_history_def by (intro exI [of _ 1]) simp
  then show ?thesis
    by (simp add: loop_inv_def demo_running_def demo_runner_def Runner_new_def stop_ok_def loop_phase_def
        traces_def loop_history_def)
qed


theorem stop_reaches_stopped_witness:
  "phase (foldl (rt_cycle demo_soem) demo_running [demo_env, demo_env]) = PhStopped"
  using stop_reaches_stopped [OF demo_running_inv, of demo_soem "[demo_env, demo_env]"]
  by (simp add: demo_running_def demo_runner_def Runner_new_def)

end
