(* ===== verification/CommandQueue.thy ===== *)
theory CommandQueue
  imports Prelude "HOL-Library.Monad_Syntax"
begin

text \<open>
  The command channel of \<^verbatim>\<open>src/src/ethercat/pdo_cache.hpp\<close> and \<^verbatim>\<open>pdo_cache.cpp\<close>: what the non-RT
  threads push, and how the RT consumer drains and coalesces it once per cycle. The ring itself is
  \<^verbatim>\<open>boost::lockfree::spsc_queue\<close>, outside the repository: its push and pop are a parameter, and its
  documented behaviour, a bounded FIFO, is the hypothesis \<open>fifo_contract\<close>. The producer mutex makes
  the pushes of several threads one sequence. A drain is modelled without pushes during it.
\<close>

subsection \<open>Commands\<close>

record SetTarget =
  st_counts :: i32
  st_profile_velocity :: u32
  st_relative :: bool
  st_generation :: u32

record StartHoming =
  sh_generation :: u32
  sh_timeout_cycles :: u32

datatype Command =
    CSetTarget SetTarget
  | CSetVelocity i32
  | CStartHoming StartHoming
  | CEnable
  | CDisable
  | CHalt
  | CQuickStop
  | CFaultReset
  | CSetZero

record CommandBatch =
  set_target :: "SetTarget option"
  set_velocity :: "i32 option"
  start_homing :: "StartHoming option"
  enable_flag :: bool
  disable_flag :: bool
  halt_flag :: bool
  quick_stop_flag :: bool
  fault_reset_flag :: bool
  set_zero_flag :: bool
  halt_supersedes :: bool

definition CommandBatch_empty :: CommandBatch where
  "CommandBatch_empty = \<lparr>set_target = None, set_velocity = None, start_homing = None,
     enable_flag = False, disable_flag = False, halt_flag = False, quick_stop_flag = False,
     fault_reset_flag = False, set_zero_flag = False, halt_supersedes = False\<rparr>"

definition CommandBatch_any :: "CommandBatch \<Rightarrow> bool" where
  "CommandBatch_any b \<longleftrightarrow> set_target b \<noteq> None \<or> set_velocity b \<noteq> None \<or> start_homing b \<noteq> None
     \<or> enable_flag b \<or> disable_flag b \<or> halt_flag b \<or> quick_stop_flag b \<or> fault_reset_flag b \<or> set_zero_flag b"

text \<open>The visitor of \<^verbatim>\<open>drain\<close>.\<close>

fun coalesce :: "Command \<Rightarrow> CommandBatch \<Rightarrow> CommandBatch" where
  "coalesce (CSetTarget t) b = b\<lparr>set_target := Some t, halt_supersedes := False\<rparr>"
| "coalesce (CSetVelocity v) b = b\<lparr>set_velocity := Some v, halt_supersedes := False\<rparr>"
| "coalesce (CStartHoming h) b = b\<lparr>start_homing := Some h\<rparr>"
| "coalesce CEnable b = b\<lparr>enable_flag := True\<rparr>"
| "coalesce CDisable b = b\<lparr>disable_flag := True\<rparr>"
| "coalesce CHalt b = b\<lparr>halt_flag := True, halt_supersedes := True\<rparr>"
| "coalesce CQuickStop b = b\<lparr>quick_stop_flag := True\<rparr>"
| "coalesce CFaultReset b = b\<lparr>fault_reset_flag := True\<rparr>"
| "coalesce CSetZero b = b\<lparr>set_zero_flag := True\<rparr>"

subsection \<open>The queue\<close>

record 'q spsc_queue =
  spsc_push :: "Command \<Rightarrow> 'q \<Rightarrow> bool \<times> 'q"
  spsc_pop :: "'q \<Rightarrow> Command option \<times> 'q"

definition CommandQueue_push :: "'q spsc_queue \<Rightarrow> Command \<Rightarrow> 'q \<Rightarrow> bool \<times> 'q" where
  "CommandQueue_push Q command q = spsc_push Q command q"

partial_function (option) drain_loop ::
    "'q spsc_queue \<Rightarrow> 'q \<Rightarrow> CommandBatch \<Rightarrow> (CommandBatch \<times> 'q) option" where
  "drain_loop Q q batch =
     (case spsc_pop Q q of
        (None, q') \<Rightarrow> Some (batch, q')
      | (Some command, q') \<Rightarrow> drain_loop Q q' (coalesce command batch))"

definition CommandQueue_drain :: "'q spsc_queue \<Rightarrow> 'q \<Rightarrow> (CommandBatch \<times> 'q) option" where
  "CommandQueue_drain Q q = drain_loop Q q CommandBatch_empty"

subsection \<open>Specification\<close>

text \<open>The documented behaviour of the ring: a FIFO of the commands in it, that refuses a push when full.\<close>

definition fifo_contract :: "'q spsc_queue \<Rightarrow> ('q \<Rightarrow> Command list) \<Rightarrow> nat \<Rightarrow> bool" where
  "fifo_contract Q contents cap \<longleftrightarrow>
     (\<forall>q c. (if length (contents q) < cap
             then fst (spsc_push Q c q) \<and> contents (snd (spsc_push Q c q)) = contents q @ [c]
             else \<not> fst (spsc_push Q c q) \<and> contents (snd (spsc_push Q c q)) = contents q))
     \<and> (\<forall>q. case contents q of
              [] \<Rightarrow> fst (spsc_pop Q q) = None \<and> contents (snd (spsc_pop Q q)) = []
            | c # cs \<Rightarrow> fst (spsc_pop Q q) = Some c \<and> contents (snd (spsc_pop Q q)) = cs)"

text \<open>What a sequence of commands amounts to: the latest setpoints, and which discrete commands occur.\<close>

definition latest :: "(Command \<Rightarrow> 'a option) \<Rightarrow> Command list \<Rightarrow> 'a option" where
  "latest f cs = (let ds = filter (\<lambda>c. f c \<noteq> None) cs in if ds = [] then None else f (last ds))"

fun as_target :: "Command \<Rightarrow> SetTarget option" where
  "as_target (CSetTarget t) = Some t" | "as_target _ = None"

fun as_velocity :: "Command \<Rightarrow> i32 option" where
  "as_velocity (CSetVelocity v) = Some v" | "as_velocity _ = None"

fun as_homing :: "Command \<Rightarrow> StartHoming option" where
  "as_homing (CStartHoming h) = Some h" | "as_homing _ = None"

fun stop_relevant :: "Command \<Rightarrow> bool option" where
  "stop_relevant CHalt = Some True"
| "stop_relevant (CSetTarget _) = Some False"
| "stop_relevant (CSetVelocity _) = Some False"
| "stop_relevant _ = None"

definition batch_spec :: "Command list \<Rightarrow> CommandBatch" where
  "batch_spec cs = \<lparr>set_target = latest as_target cs, set_velocity = latest as_velocity cs,
     start_homing = latest as_homing cs, enable_flag = (CEnable \<in> set cs), disable_flag = (CDisable \<in> set cs),
     halt_flag = (CHalt \<in> set cs), quick_stop_flag = (CQuickStop \<in> set cs),
     fault_reset_flag = (CFaultReset \<in> set cs), set_zero_flag = (CSetZero \<in> set cs),
     halt_supersedes = (latest stop_relevant cs = Some True)\<rparr>"

lemma latest_snoc [simp]:
  "latest f [] = None"
  "latest f (cs @ [c]) = (case f c of None \<Rightarrow> latest f cs | Some y \<Rightarrow> Some y)"
  by (auto simp: latest_def Let_def split: option.splits)

lemma coalesce_batch_spec: "coalesce c (batch_spec cs) = batch_spec (cs @ [c])"
  by (cases c) (simp_all add: batch_spec_def)

lemma fold_coalesce: "fold coalesce cs CommandBatch_empty = batch_spec cs"
proof (induction cs rule: rev_induct)
  case Nil
  show ?case by (simp add: batch_spec_def CommandBatch_empty_def)
qed (simp add: coalesce_batch_spec)

lemma fifo_popD:
  assumes "fifo_contract Q contents cap" "spsc_pop Q q = (r, q')"
  shows "contents q = [] \<Longrightarrow> r = None \<and> contents q' = []"
    "contents q = c # cs \<Longrightarrow> r = Some c \<and> contents q' = cs"
proof -
  have pop: "case contents q of
      [] \<Rightarrow> fst (spsc_pop Q q) = None \<and> contents (snd (spsc_pop Q q)) = []
    | c # cs \<Rightarrow> fst (spsc_pop Q q) = Some c \<and> contents (snd (spsc_pop Q q)) = cs"
    using assms(1) by (simp add: fifo_contract_def)
  show "contents q = [] \<Longrightarrow> r = None \<and> contents q' = []"
    "contents q = c # cs \<Longrightarrow> r = Some c \<and> contents q' = cs"
    using pop assms(2) by simp_all
qed

lemma drain_loop_fifo:
  assumes "fifo_contract Q contents cap"
  shows "\<exists>q'. drain_loop Q q b = Some (fold coalesce (contents q) b, q') \<and> contents q' = []"
proof (induction "contents q" arbitrary: q b)
  case Nil
  obtain r q' where "spsc_pop Q q = (r, q')" by fastforce
  with fifo_popD(1) [OF assms this] Nil show ?case by (simp add: drain_loop.simps)
next
  case (Cons c cs)
  obtain r q1 where pop: "spsc_pop Q q = (r, q1)" by fastforce
  with fifo_popD(2) [OF assms this, of c cs] Cons(2) have "r = Some c" "cs = contents q1" by auto
  with Cons pop show ?case by (metis (no_types, lifting) drain_loop.simps fold_simps(2) option.simps(5) prod.simps(2))
qed

text \<open>
  C25. A drain ends and coalesces exactly. On a ring that behaves as a bounded FIFO the loop
  terminates with the ring empty, and the batch is what the queued commands amount to in order: the
  latest target, velocity and homing request, every discrete command that occurs, and
  \<^verbatim>\<open>halt_supersedes\<close> set exactly if a Halt comes after every motion command.
\<close>

theorem CommandQueue_drain_spec:
  assumes "fifo_contract Q contents cap"
  shows "\<exists>q'. CommandQueue_drain Q q = Some (batch_spec (contents q), q') \<and> contents q' = []"
  using drain_loop_fifo [OF assms, of q CommandBatch_empty]
  by (simp add: CommandQueue_drain_def fold_coalesce)

definition list_queue :: "nat \<Rightarrow> Command list spsc_queue" where
  "list_queue cap = \<lparr>spsc_push = (\<lambda>c q. if length q < cap then (True, q @ [c]) else (False, q)),
     spsc_pop = (\<lambda>q. case q of [] \<Rightarrow> (None, []) | c # cs \<Rightarrow> (Some c, cs))\<rparr>"

theorem CommandQueue_drain_spec_witness:
  "fifo_contract (list_queue 8) id 8
   \<and> CommandQueue_drain (list_queue 8) [CHalt, CSetVelocity 3, CEnable] =
       Some (batch_spec [CHalt, CSetVelocity 3, CEnable], [])
   \<and> \<not> halt_supersedes (batch_spec [CHalt, CSetVelocity 3, CEnable])"
proof -
  have c: "fifo_contract (list_queue 8) id 8"
    by (auto simp: fifo_contract_def list_queue_def split: list.splits)
  then show ?thesis
    using CommandQueue_drain_spec [OF c, of "[CHalt, CSetVelocity 3, CEnable]"]
    by (auto simp: batch_spec_def latest_def)
qed

end
