(* ===== verification/ServoController.thy ===== *)
theory ServoController
  imports ServoConfig MotionMode Runner CommandQueue
begin

text \<open>
  The RT side of the servo controller, \<^verbatim>\<open>src/src/viam/lib/servo_controller.hpp\<close> and
  \<^verbatim>\<open>servo_controller.cpp\<close>: the published state, the lifecycle state machine that one cycle steps, the
  fault tiers, the move generations and the hooks the runner calls. The device seams a subclass
  overrides (\<^verbatim>\<open>a6_servo_driver.hpp\<close>) are a record.

  \<open>ServoController\<close> has the members of the class except the master and the runner, which belong to the
  theory of the non-RT side. An atomic is a plain field: one hook call is one step of the model, and the
  interleaving with the non-RT threads is at that grain. The queue of commands is the parameter \<open>'q\<close>
  of the command-queue theory. Log lines are left out.
\<close>

subsection \<open>Device seams\<close>

record ServoDevice =
  default_motion_mode :: MotionModeKind
  vendor_fault_reset_sdo :: "SdoWrite option"
  sync_fault_code :: "u16 option"
  fault_description :: "u16 \<Rightarrow> string"
  target_reached_bit_usable :: bool

definition generic_device :: ServoDevice where
  "generic_device = \<lparr>default_motion_mode = CyclicPosition, vendor_fault_reset_sdo = None, sync_fault_code = None,
     fault_description = (\<lambda>_. []), target_reached_bit_usable = True\<rparr>"

definition kFaultResetIndex :: u16 where "kFaultResetIndex = 0x2031"
definition kFaultResetSub :: u8 where "kFaultResetSub = 0x01"
definition kNoSyncCode :: u16 where "kNoSyncCode = 0x8700"

definition a6_device :: ServoDevice where
  "a6_device = \<lparr>default_motion_mode = Profile,
     vendor_fault_reset_sdo = Some \<lparr>sdo_index = kFaultResetIndex, sdo_subindex = kFaultResetSub, sdo_data = [0x01, 0x00]\<rparr>,
     sync_fault_code = Some kNoSyncCode,
     fault_description = (\<lambda>code. if code = kNoSyncCode then ''Er74.1 / no SYNC0'' else []),
     target_reached_bit_usable = False\<rparr>"

subsection \<open>State\<close>

datatype HomingState = HomingIdle | HomingRunning | HomingDone | HomingFailed

datatype HomingFail =
  HfNone | HfModeNotAdopted | HfDriveError | HfTimeout | HfCancelled | HfDriveFault | HfNotOperational

fun to_string_homing_state :: "HomingState \<Rightarrow> string" where
  "to_string_homing_state HomingIdle = ''idle''"
| "to_string_homing_state HomingRunning = ''running''"
| "to_string_homing_state HomingDone = ''done''"
| "to_string_homing_state HomingFailed = ''failed''"

fun to_string_homing_fail :: "HomingFail \<Rightarrow> string" where
  "to_string_homing_fail HfNone = []"
| "to_string_homing_fail HfModeNotAdopted = ''the drive did not adopt homing mode (0x6061 never echoed 6)''"
| "to_string_homing_fail HfDriveError = ''the drive reported a homing error (statusword bit 13)''"
| "to_string_homing_fail HfTimeout = ''the drive did not attain home within the timeout''"
| "to_string_homing_fail HfCancelled = ''cancelled by stop or disable''"
| "to_string_homing_fail HfDriveFault = ''the drive faulted during the run''"
| "to_string_homing_fail HfNotOperational = ''the drive was not operational when the run was to start''"

record ControllerState =
  position_counts :: i32
  pub_velocity :: i32
  powered :: bool
  moving :: bool
  pub_mode_echo :: i8
  faulted :: bool
  pub_fault_wkc :: int
  pub_expected_wkc :: int
  wkc_faulted :: bool
  drive_faulted :: bool
  drive_warning :: bool
  drive_fault_code :: u16
  pub_bringup_al_code :: u16
  loop_cycle :: u64
  zero_offset_counts :: i32
  active_generation :: u32
  completed_generation :: u32
  failed_generation :: u32
  homing_state :: HomingState
  homing_fail :: HomingFail
  homed :: bool
  home_counts :: i32

datatype Lifecycle = LInit | LEnabling | LOperational | LResetting | LHoming | LDisabled

datatype RtError =
  RtNone | HandshakeTimeout | NotOperational | MotorStopped | MotorDisabled | ModeMismatch | RtNoRealtime

record ServoFields =
  f_ctrlword :: FieldLocation
  f_statusword :: FieldLocation
  f_actual :: FieldLocation
  f_mode_wr :: "FieldLocation option"
  f_mode_disp :: "FieldLocation option"
  f_fault_code :: "FieldLocation option"
  f_velocity_actual :: "FieldLocation option"

record 'q ServoController =
  sv_config :: ServoConfig
  device :: ServoDevice
  fld :: ServoFields
  motion :: "MotionMode option"
  qs_decel_echoed :: u32
  vel_budget_cps :: int
  pub :: ControllerState
  rt_error :: RtError
  sv_stopping :: bool
  next_generation :: u32
  motion_slot :: u32
  rt_exited :: bool
  wake_seq :: u64
  bus_lost :: bool
  degraded :: bool
  degraded_reason :: string
  sv_last_cw :: u16
  last_logged_fault_code :: u16
  reset_cycles :: u32
  clear_streak :: u32
  mode_echo_wait :: u32
  homing_cycles :: u32
  homing_timeout_cycles :: u32
  homing_echo_wait :: u32
  prev_actual :: i32
  first_cycle :: bool
  pos_hist :: "i32 list"
  pos_hist_idx :: nat
  pos_hist_filled :: u32
  at_rest :: bool
  stop_at_rest :: bool
  latched_ctrl_error :: RtError
  last_sync_code :: u16
  commands :: 'q
  lifecycle :: Lifecycle

subsection \<open>Construction\<close>

definition ControllerState_init :: ControllerState where
  "ControllerState_init = \<lparr>position_counts = 0, pub_velocity = 0, powered = False, moving = False, pub_mode_echo = 0,
     faulted = False, pub_fault_wkc = 0, pub_expected_wkc = 0, wkc_faulted = False, drive_faulted = False,
     drive_warning = False, drive_fault_code = 0, pub_bringup_al_code = 0, loop_cycle = 0, zero_offset_counts = 0,
     active_generation = 0, completed_generation = 0, failed_generation = 0, homing_state = HomingIdle,
     homing_fail = HfNone, homed = False, home_counts = 0\<rparr>"

definition ServoFields_init :: ServoFields where
  "ServoFields_init = \<lparr>f_ctrlword = \<lparr>byte_offset = 0\<rparr>, f_statusword = \<lparr>byte_offset = 0\<rparr>,
     f_actual = \<lparr>byte_offset = 0\<rparr>, f_mode_wr = None, f_mode_disp = None, f_fault_code = None,
     f_velocity_actual = None\<rparr>"

definition ServoController_init :: "ServoDevice \<Rightarrow> ServoConfig \<Rightarrow> 'q \<Rightarrow> 'q ServoController" where
  "ServoController_init dev c q = \<lparr>sv_config = c, device = dev, fld = ServoFields_init, motion = None,
     qs_decel_echoed = 0, vel_budget_cps = 0, pub = ControllerState_init, rt_error = RtNone, sv_stopping = False,
     next_generation = 0, motion_slot = 0, rt_exited = False, wake_seq = 0, bus_lost = False, degraded = False,
     degraded_reason = [], sv_last_cw = 0, last_logged_fault_code = 0, reset_cycles = 0, clear_streak = 0,
     mode_echo_wait = 0, homing_cycles = 0, homing_timeout_cycles = 0, homing_echo_wait = 0, prev_actual = 0,
     first_cycle = True, pos_hist = [], pos_hist_idx = 0, pos_hist_filled = 0, at_rest = False, stop_at_rest = False,
     latched_ctrl_error = RtNone, last_sync_code = 0, commands = q, lifecycle = LInit\<rparr>"

text \<open>The constructor validates the configuration; the queue is made with the configured capacity.\<close>

definition ServoController_new :: "ServoDevice \<Rightarrow> (nat \<Rightarrow> 'q) \<Rightarrow> ServoConfig \<Rightarrow> ec_error + 'q ServoController" where
  "ServoController_new dev new_queue c =
     (case validated c of
        Inl e \<Rightarrow> Inl e
      | Inr c' \<Rightarrow> Inr (ServoController_init dev c' (new_queue (command_queue_capacity c'))))"

text \<open>The selected mode, and an update of it: a null pointer is never dereferenced on the RT path.\<close>

definition mode_of :: "'q ServoController \<Rightarrow> MotionMode" where
  "mode_of s = the (motion s)"

definition upd_motion :: "(MotionMode \<Rightarrow> MotionMode) \<Rightarrow> 'q ServoController \<Rightarrow> 'q ServoController" where
  "upd_motion f s = s\<lparr>motion := map_option f (motion s)\<rparr>"

definition upd_pub :: "(ControllerState \<Rightarrow> ControllerState) \<Rightarrow> 'q ServoController \<Rightarrow> 'q ServoController" where
  "upd_pub f s = s\<lparr>pub := f (pub s)\<rparr>"

subsection \<open>Helpers of the RT path\<close>

definition bump_wake :: "'q ServoController \<Rightarrow> 'q ServoController" where
  "bump_wake s = s\<lparr>wake_seq := wake_seq s + 1\<rparr>"

definition load_opt :: "FieldLocation option \<Rightarrow> CycleContext \<Rightarrow> 'a::len word" where
  "load_opt l c = (case l of None \<Rightarrow> 0 | Some loc \<Rightarrow> ctx_load c loc)"

definition estop_present :: "CycleContext \<Rightarrow> 'q ServoController \<Rightarrow> bool" where
  "estop_present c s \<longleftrightarrow>
     estop_fault_code (sv_config s) \<noteq> 0 \<and> load_opt (f_fault_code (fld s)) c = estop_fault_code (sv_config s)"

definition enter_resetting :: "CycleContext \<Rightarrow> 'q ServoController \<Rightarrow> 'q ServoController \<times> u16" where
  "enter_resetting c s =
     (upd_motion mm_reset (s\<lparr>lifecycle := LResetting, reset_cycles := 0, clear_streak := 0\<rparr>),
      if estop_present c s then disable_voltage else fault_reset)"

definition abort_active_move :: "RtError \<Rightarrow> 'q ServoController \<Rightarrow> 'q ServoController" where
  "abort_active_move why s =
     (let s1 = s\<lparr>latched_ctrl_error := why, rt_error := why\<rparr>;
          g = active_generation (pub s1)
      in if g \<noteq> 0 \<and> completed_generation (pub s1) \<noteq> g
         then bump_wake (upd_pub (\<lambda>p. p\<lparr>failed_generation := g\<rparr>) s1) else s1)"

definition smin :: "i32 \<Rightarrow> i32 \<Rightarrow> i32" where "smin a b = (if sint b < sint a then b else a)"
definition smax :: "i32 \<Rightarrow> i32 \<Rightarrow> i32" where "smax a b = (if sint a < sint b then b else a)"

definition position_stable :: "i32 \<Rightarrow> 'q ServoController \<Rightarrow> bool \<times> 'q ServoController" where
  "position_stable actual s =
     (if pos_hist s = [] then (False, s)
      else
        let s1 = s\<lparr>pos_hist := (pos_hist s)[pos_hist_idx s := actual],
                   pos_hist_idx := (pos_hist_idx s + 1) mod length (pos_hist s)\<rparr>
        in if unat (pos_hist_filled s1) < length (pos_hist s1)
           then (False, s1\<lparr>pos_hist_filled := pos_hist_filled s1 + 1\<rparr>)
           else
             let lo = foldl smin (pos_hist s1 ! 0) (pos_hist s1);
                 hi = foldl smax (pos_hist s1 ! 0) (pos_hist s1)
             in (sint (hi - lo) \<le> sint (position_tolerance_counts (sv_config s1)), s1))"

definition commanded_cia402_mode :: "'q ServoController \<Rightarrow> Cia402Mode" where
  "commanded_cia402_mode s = (case motion s of None \<Rightarrow> ProfilePosition | Some m \<Rightarrow> mm_commanded_mode m)"

definition feedback :: "CycleContext \<Rightarrow> Status \<Rightarrow> i32 \<Rightarrow> 'q ServoController \<Rightarrow> MotionFeedback" where
  "feedback c status actual s =
     \<lparr>fb_status = status, fb_actual = actual,
      fb_mode_echo = map_option (ctx_load c) (f_mode_disp (fld s)),
      fb_at_rest = at_rest s,
      fb_near_target = (\<bar>sint actual - sint (mm_target (mode_of s))\<bar> \<le> sint (position_tolerance_counts (sv_config s))),
      fb_bit_usable = target_reached_bit_usable (device s)\<rparr>"

definition publish_homing_result :: "HomingFail \<Rightarrow> 'q ServoController \<Rightarrow> 'q ServoController" where
  "publish_homing_result fail s =
     bump_wake (upd_pub (\<lambda>p. p\<lparr>homing_fail := fail,
        homing_state := (if fail = HfNone then HomingDone else HomingFailed)\<rparr>) s)"

definition finish_homing :: "HomingFail \<Rightarrow> 'q ServoController \<Rightarrow> 'q ServoController" where
  "finish_homing fail s =
     (upd_motion mm_reset ((publish_homing_result fail s)\<lparr>homing_cycles := 0, homing_echo_wait := 0\<rparr>))
       \<lparr>lifecycle := LEnabling, mode_echo_wait := 0\<rparr>"

subsection \<open>The lifecycle\<close>

text \<open>The commands of the batch reach the selected mode before the state machine runs.\<close>

definition route_stops :: "CommandBatch \<Rightarrow> 'q ServoController \<Rightarrow> 'q ServoController" where
  "route_stops b s =
     (let s1 = (if halt_flag b
                then let s' = abort_active_move MotorStopped s
                     in if halt_supersedes b then upd_motion mm_halt s' else s'
                else s)
      in if disable_flag b then abort_active_move MotorDisabled s1 else s1)"

definition adopt_target :: "CommandBatch \<Rightarrow> i32 \<Rightarrow> 'q ServoController \<Rightarrow> 'q ServoController" where
  "adopt_target b actual s =
     (case set_target b of
        None \<Rightarrow> s
      | Some t \<Rightarrow>
          if st_generation t \<noteq> active_generation (pub s)
          then upd_pub (\<lambda>p. p\<lparr>active_generation := st_generation t\<rparr>)
                 ((upd_motion (if st_relative t then mm_go_for (st_counts t) (st_profile_velocity t) actual
                               else mm_go_to (st_counts t) (st_profile_velocity t)) s)\<lparr>latched_ctrl_error := RtNone\<rparr>)
          else s)"

definition route_commands :: "CommandBatch \<Rightarrow> i32 \<Rightarrow> 'q ServoController \<Rightarrow> 'q ServoController" where
  "route_commands b actual s =
     (let s1 = adopt_target b actual (route_stops b s);
          s2 = (case set_velocity b of None \<Rightarrow> s1 | Some v \<Rightarrow> upd_motion (mm_set_velocity v) s1)
      in if start_homing b \<noteq> None \<and> lifecycle s2 \<noteq> LOperational then publish_homing_result HfNotOperational s2 else s2)"

definition life_init ::
    "CycleContext \<Rightarrow> Status \<Rightarrow> 'q ServoController \<Rightarrow> 'q ServoController \<times> CycleContext \<times> u16" where
  "life_init c status s =
     (if Status_decode status = Fault then let (s', cw) = enter_resetting c s in (s', c, cw)
      else (s\<lparr>lifecycle := LEnabling, mode_echo_wait := 0\<rparr>, c, disable_voltage))"

definition mode_echoed :: "CycleContext \<Rightarrow> Cia402Mode \<Rightarrow> 'q ServoController \<Rightarrow> bool" where
  "mode_echoed c want s = (case f_mode_disp (fld s) of None \<Rightarrow> True | Some loc \<Rightarrow> ctx_load c loc = want)"

definition life_enabling ::
    "CycleContext \<Rightarrow> Status \<Rightarrow> 'q ServoController \<Rightarrow> 'q ServoController \<times> CycleContext \<times> u16" where
  "life_enabling c status s =
     (let dev = Status_decode status in
      if dev = Fault then let (s', cw) = enter_resetting c s in (s', c, cw)
      else
        let want = commanded_cia402_mode s;
            c1 = ctx_store_opt (f_mode_wr (fld s)) want c;
            echoed = mode_echoed c1 want s
        in if \<not> echoed \<and> (dev = SwitchedOn \<or> dev = OperationEnabled)
           then let s1 = s\<lparr>mode_echo_wait := mode_echo_wait s + 1\<rparr>
                in (if mode_echo_wait s1 = kModeEchoCycles then s1\<lparr>latched_ctrl_error := ModeMismatch\<rparr> else s1,
                    c1, Cia402Fsm_step status SwitchedOn)
           else
             let s1 = (if echoed
                       then let s' = s\<lparr>mode_echo_wait := 0\<rparr>
                            in if latched_ctrl_error s' = ModeMismatch then s'\<lparr>latched_ctrl_error := RtNone\<rparr> else s'
                       else s);
                 s2 = (if dev = OperationEnabled then s1\<lparr>lifecycle := LOperational\<rparr> else s1)
             in (s2, c1, Cia402Fsm_step status OperationEnabled))"

definition fault_reason :: "MotionFault \<Rightarrow> RtError" where
  "fault_reason f = (if f = ModeNotAdopted then ModeMismatch else HandshakeTimeout)"

definition life_motion ::
    "CycleContext \<Rightarrow> Status \<Rightarrow> i32 \<Rightarrow> 'q ServoController \<Rightarrow> 'q ServoController \<times> CycleContext \<times> u16" where
  "life_motion c status actual s =
     (let (m, c1, cw) = mm_step (mode_of s) c (feedback c status actual s);
          s1 = s\<lparr>motion := Some m\<rparr>
      in (if mm_fault m \<noteq> NoMotionFault then abort_active_move (fault_reason (mm_fault m)) s1 else s1, c1, cw))"

definition life_operational ::
    "CycleContext \<Rightarrow> Status \<Rightarrow> CommandBatch \<Rightarrow> i32 \<Rightarrow> 'q ServoController \<Rightarrow> 'q ServoController \<times> CycleContext \<times> u16" where
  "life_operational c status b actual s =
     (if Status_decode status = Fault \<or> cc_fault c
      then let (s', cw) = enter_resetting c (abort_active_move NotOperational s) in (s', c, cw)
      else if disable_flag b then (upd_motion mm_reset (s\<lparr>lifecycle := LDisabled\<rparr>), c, disable_voltage)
      else case start_homing b of
        Some h \<Rightarrow>
          (upd_motion mm_reset (s\<lparr>lifecycle := LHoming, homing_cycles := 0, homing_echo_wait := 0,
             homing_timeout_cycles := sh_timeout_cycles h\<rparr>), c, enable_operation)
      | None \<Rightarrow>
          if quick_stop_flag b then (s, c, quick_stop)
          else life_motion c status actual s)"

definition life_homing ::
    "CycleContext \<Rightarrow> Status \<Rightarrow> CommandBatch \<Rightarrow> i32 \<Rightarrow> 'q ServoController \<Rightarrow> 'q ServoController \<times> CycleContext \<times> u16" where
  "life_homing c status b actual s =
     (if Status_decode status = Fault \<or> cc_fault c
      then let (s', cw) = enter_resetting c (finish_homing HfDriveFault s) in (s', c, cw)
      else if disable_flag b \<or> halt_flag b \<or> quick_stop_flag b
      then let s1 = finish_homing HfCancelled s
           in (if disable_flag b then s1\<lparr>lifecycle := LDisabled\<rparr> else s1, c, disable_voltage)
      else
        let c1 = ctx_store_opt (f_mode_wr (fld s)) Mode_Homing c
        in if \<not> mode_echoed c1 Mode_Homing s
           then let s1 = s\<lparr>homing_echo_wait := homing_echo_wait s + 1\<rparr>
                in (if homing_echo_wait s1 \<ge> kModeEchoCycles then finish_homing HfModeNotAdopted s1 else s1,
                    c1, enable_operation)
           else if homing_error status then (finish_homing HfDriveError s, c1, with_halt enable_operation True)
           else if homing_attained status
           then (finish_homing HfNone
                   (upd_pub (\<lambda>p. p\<lparr>zero_offset_counts := 0, home_counts := actual, homed := True\<rparr>) s),
                 c1, enable_operation)
           else
             let s1 = s\<lparr>homing_cycles := homing_cycles s + 1\<rparr>
             in if homing_cycles s1 \<ge> homing_timeout_cycles s1
                then (finish_homing HfTimeout s1, c1, with_halt enable_operation True)
                else (s1, c1, with_new_setpoint enable_operation True))"

definition life_resetting ::
    "CycleContext \<Rightarrow> Status \<Rightarrow> CommandBatch \<Rightarrow> 'q ServoController \<Rightarrow> 'q ServoController \<times> CycleContext \<times> u16" where
  "life_resetting c status b s =
     (if disable_flag b then (s\<lparr>lifecycle := LDisabled\<rparr>, c, disable_voltage)
      else
        let dev = Status_decode status;
            s1 = s\<lparr>clear_streak := (if dev \<noteq> Fault then clear_streak s + 1 else 0)\<rparr>
        in if clear_streak s1 \<ge> fault_reset_clear_confirm_cycles (sv_config s1)
           then (s1\<lparr>lifecycle := LEnabling, mode_echo_wait := 0\<rparr>, c, Cia402Fsm_step status OperationEnabled)
           else
             let s2 = s1\<lparr>reset_cycles := reset_cycles s1 + 1\<rparr>
             in if fault_reset_flag b then (s2\<lparr>reset_cycles := 0\<rparr>, c, fault_reset)
                else (s2, c,
                      if dev = Fault \<and> \<not> estop_present c s2
                         \<and> reset_cycles s2 mod fault_reset_window_cycles (sv_config s2) = 0
                      then fault_reset else disable_voltage))"

definition life_disabled ::
    "CycleContext \<Rightarrow> CommandBatch \<Rightarrow> 'q ServoController \<Rightarrow> 'q ServoController \<times> CycleContext \<times> u16" where
  "life_disabled c b s =
     (if enable_flag b then s\<lparr>lifecycle := LEnabling, mode_echo_wait := 0\<rparr> else s, c, disable_voltage)"

definition step_lifecycle ::
    "CycleContext \<Rightarrow> Status \<Rightarrow> CommandBatch \<Rightarrow> i32 \<Rightarrow> 'q ServoController \<Rightarrow> 'q ServoController \<times> CycleContext \<times> u16" where
  "step_lifecycle c status b actual s0 =
     (let s = route_commands b actual s0 in
      case lifecycle s of
        LInit \<Rightarrow> life_init c status s
      | LEnabling \<Rightarrow> life_enabling c status s
      | LOperational \<Rightarrow> life_operational c status b actual s
      | LHoming \<Rightarrow> life_homing c status b actual s
      | LResetting \<Rightarrow> life_resetting c status b s
      | LDisabled \<Rightarrow> life_disabled c b s)"

subsection \<open>Publication\<close>

definition move_live :: "ControllerState \<Rightarrow> bool" where
  "move_live p \<longleftrightarrow> active_generation p \<noteq> 0 \<and> completed_generation p \<noteq> active_generation p
     \<and> failed_generation p \<noteq> active_generation p"

definition publish_motion ::
    "CycleContext \<Rightarrow> Status \<Rightarrow> i32 \<Rightarrow> i32 \<Rightarrow> 'q ServoController \<Rightarrow> 'q ServoController" where
  "publish_motion c status actual velocity s =
     (let s1 = upd_pub (\<lambda>p. p\<lparr>position_counts := actual, pub_velocity := velocity, powered := operation_enabled status\<rparr>) s;
          g = active_generation (pub s1);
          move_active = move_live (pub s1);
          (pos_stable, s2) = position_stable actual s1;
          s3 = s2\<lparr>at_rest := pos_stable\<rparr>;
          at_target = mm_is_target_reached (mode_of s3) (feedback c status actual s3);
          is_moving = (operation_enabled status \<and> (lifecycle s3 = LHoming \<or> mm_is_moving (mode_of s3)
                        \<or> (move_active \<and> \<not> at_target) \<or> \<not> pos_stable));
          s4 = upd_pub (\<lambda>p. p\<lparr>moving := is_moving, pub_mode_echo := load_opt (f_mode_disp (fld s3)) c\<rparr>) s3
      in if operation_enabled status \<and> move_active \<and> at_target
         then bump_wake (upd_pub (\<lambda>p. p\<lparr>completed_generation := g\<rparr>) s4) else s4)"

definition publish_faults :: "CycleContext \<Rightarrow> Status \<Rightarrow> 'q ServoController \<Rightarrow> 'q ServoController" where
  "publish_faults c status s =
     (let now_faulted = (cc_fault c \<or> status_fault status);
          was_faulted = faulted (pub s);
          s1 = (upd_pub (\<lambda>p. p\<lparr>pub_fault_wkc := ws_last (cc_wkc c), wkc_faulted := cc_fault c,
                  drive_fault_code := load_opt (f_fault_code (fld s)) c, drive_warning := status_warning status,
                  drive_faulted := status_fault status, faulted := now_faulted\<rparr>) s)\<lparr>rt_error := latched_ctrl_error s\<rparr>;
          s2 = (if now_faulted \<and> \<not> was_faulted then bump_wake s1 else s1)
      in upd_pub (\<lambda>p. p\<lparr>loop_cycle := loop_cycle p + 1\<rparr>) s2)"

definition publish_state ::
    "CycleContext \<Rightarrow> Status \<Rightarrow> i32 \<Rightarrow> i32 \<Rightarrow> 'q ServoController \<Rightarrow> 'q ServoController" where
  "publish_state c status actual velocity s = publish_faults c status (publish_motion c status actual velocity s)"

subsection \<open>The runner's hooks\<close>

definition kStopWindowMarginS :: real where "kStopWindowMarginS = 0.05"

definition teardown_window_cycles :: "'q ServoController \<Rightarrow> u32" where
  "teardown_window_cycles s =
     (let mode_cycles = (case motion s of None \<Rightarrow> 0 | Some m \<Rightarrow> mm_shutdown_cycles m) in
      if sv_quick_stop_decel (sv_config s) = 0 then max 2 mode_cycles
      else
        let rate = (ucast (sv_loop_rate_hz (sv_config s)) :: u64);
            cyc = (ucast (controlled_stop_window_ms (sv_config s)) * rate + 999) div 1000
        in max (ucast (max cyc 2)) mode_cycles)"

text \<open>
  The velocity the echoed deceleration can ramp to zero within the window less the margin. The signed
  64-bit value is an integer here: it is below \<open>2 ^ 63\<close> for every window under two hours.
\<close>

definition stop_budget :: "u32 \<Rightarrow> u32 \<Rightarrow> u32 \<Rightarrow> int" where
  "stop_budget echoed window_cycles rate =
     (if echoed > 0
      then \<lfloor>real (unat echoed) * max 0 (real (unat window_cycles) / real (unat rate) - kStopWindowMarginS)\<rfloor>
      else 0)"

definition on_configured :: "'w soem \<Rightarrow> u16 \<Rightarrow> 'q ServoController \<Rightarrow> ('w Master, 'q ServoController) em" where
  "on_configured S slave s =
     em_bind (mm_resolve S slave (mode_of s)) (\<lambda>(m, echoed).
       let s1 = s\<lparr>motion := Some m, qs_decel_echoed := echoed\<rparr>
       in em_return (s1\<lparr>vel_budget_cps :=
            stop_budget echoed (teardown_window_cycles s1) (sv_loop_rate_hz (sv_config s1))\<rparr>))"

definition on_operational :: "CycleContext \<Rightarrow> 'q ServoController \<Rightarrow> CycleContext \<times> 'q ServoController" where
  "on_operational c s = (c, s)"

definition track_motion ::
    "CycleContext \<Rightarrow> Status \<Rightarrow> i32 \<Rightarrow> 'q ServoController \<Rightarrow> CycleContext \<times> 'q ServoController" where
  "track_motion c status actual s =
     (let (m, c1) = mm_track (mode_of s) c (feedback c status actual s) in (c1, s\<lparr>motion := Some m\<rparr>))"

definition stage_bringup_outputs :: "CycleContext \<Rightarrow> 'q ServoController \<Rightarrow> CycleContext \<times> 'q ServoController" where
  "stage_bringup_outputs c s =
     track_motion c \<lparr>sw_raw = ctx_load c (f_statusword (fld s))\<rparr> (ctx_load c (f_actual (fld s))) s"

definition drive_present :: "CycleContext \<Rightarrow> 'q ServoController \<Rightarrow> bool" where
  "drive_present c s \<longleftrightarrow> (ctx_load c (f_statusword (fld s)) :: u16) \<noteq> 0"

definition sync_faulted :: "CycleContext \<Rightarrow> 'q ServoController \<Rightarrow> bool \<times> 'q ServoController" where
  "sync_faulted c s =
     (let code = load_opt (f_fault_code (fld s)) c
      in (sync_fault_code (device s) = Some code, s\<lparr>last_sync_code := code\<rparr>))"

definition velocity_now :: "CycleContext \<Rightarrow> i32 \<Rightarrow> 'q ServoController \<Rightarrow> i32" where
  "velocity_now c actual s =
     (case f_velocity_actual (fld s) of
        Some loc \<Rightarrow> ctx_load c loc
      | None \<Rightarrow> word_of_int (sint (actual - prev_actual s) * uint (sv_loop_rate_hz (sv_config s))))"

definition ctl_step_stopping :: "CycleContext \<Rightarrow> 'q ServoController \<Rightarrow> CycleContext \<times> 'q ServoController" where
  "ctl_step_stopping c s =
     (let status = \<lparr>sw_raw = ctx_load c (f_statusword (fld s))\<rparr>;
          actual = ctx_load c (f_actual (fld s));
          vel = velocity_now c actual s;
          s1 = s\<lparr>prev_actual := actual\<rparr>;
          (m, c1, cw) = mm_step_shutdown (mode_of s1) c (feedback c status actual s1);
          c2 = ctx_store (f_ctrlword (fld s)) cw c1;
          s2 = s1\<lparr>motion := Some m, sv_last_cw := cw, stop_at_rest := switch_on_disabled status\<rparr>
      in (c2, publish_state c2 status actual vel s2))"

definition begin_cycle :: "CycleContext \<Rightarrow> i32 \<Rightarrow> 'q ServoController \<Rightarrow> i32 \<times> 'q ServoController" where
  "begin_cycle c actual s0 =
     (let s1 = (if first_cycle s0 then s0\<lparr>prev_actual := actual, first_cycle := False\<rparr> else s0)
      in (velocity_now c actual s1,
          s1\<lparr>prev_actual := actual,
             last_logged_fault_code := (case f_fault_code (fld s1) of None \<Rightarrow> last_logged_fault_code s1
                                         | Some loc \<Rightarrow> ctx_load c loc)\<rparr>))"

definition write_outputs ::
    "CycleContext \<Rightarrow> Status \<Rightarrow> i32 \<Rightarrow> u16 \<Rightarrow> 'q ServoController \<Rightarrow> CycleContext \<times> 'q ServoController" where
  "write_outputs c status actual cw s =
     (let c1 = ctx_store (f_ctrlword (fld s)) cw c;
          s1 = s\<lparr>sv_last_cw := cw\<rparr>
      in if lifecycle s1 \<noteq> LOperational then track_motion c1 status actual s1 else (c1, s1))"

definition ctl_step_batch :: "CommandBatch \<Rightarrow> CycleContext \<Rightarrow> 'q ServoController \<Rightarrow> CycleContext \<times> 'q ServoController" where
  "ctl_step_batch b c s0 =
     (let status = \<lparr>sw_raw = ctx_load c (f_statusword (fld s0))\<rparr>;
          actual = ctx_load c (f_actual (fld s0));
          (velocity, s1) = begin_cycle c actual s0;
          (s2, c2, cw) = step_lifecycle c status b actual s1;
          (c3, s3) = write_outputs c2 status actual cw s2
      in (c3, publish_state c3 status actual velocity s3))"

text \<open>The hook: a stopping cycle, or the drained commands and one step. \<open>None\<close> is a drain that never returns.\<close>

definition ServoController_step ::
    "'q spsc_queue \<Rightarrow> CycleContext \<Rightarrow> 'q ServoController \<Rightarrow> (CycleContext \<times> 'q ServoController) option" where
  "ServoController_step Q c s =
     (if cc_stopping c then Some (ctl_step_stopping c s)
      else case CommandQueue_drain Q (commands s) of
             None \<Rightarrow> None
           | Some (b, q) \<Rightarrow> Some (ctl_step_batch b c (s\<lparr>commands := q\<rparr>)))"

text \<open>
  What \<^verbatim>\<open>on_stop\<close> reads from the master on the RT thread: the AL code latched at bring-up, the live
  one, and the last working counter; \<open>None\<close> is a null master.
\<close>

record MasterView =
  mv_bringup_al :: u16
  mv_al_status :: u16
  mv_last_wkc :: int

definition on_stop :: "MasterView option \<Rightarrow> StopReason \<Rightarrow> 'q ServoController \<Rightarrow> 'q ServoController" where
  "on_stop mv why s0 =
     (let s = bump_wake (s0\<lparr>rt_exited := True\<rparr>) in
      if why = BringupAbortedReason then
        let latched = (case mv of None \<Rightarrow> 0 | Some v \<Rightarrow> mv_bringup_al v);
            al = (if latched = 0 then (case mv of None \<Rightarrow> 0 | Some v \<Rightarrow> mv_al_status v) else latched);
            s1 = upd_pub (\<lambda>p. p\<lparr>pub_bringup_al_code := al\<rparr>) s;
            sync_fault = (last_sync_code s1 \<noteq> 0 \<and> sync_fault_code (device s1) = Some (last_sync_code s1));
            s2 = (if sync_fault
                  then upd_pub (\<lambda>p. p\<lparr>drive_fault_code := last_sync_code s1, drive_faulted := True\<rparr>) s1 else s1)
        in upd_pub (\<lambda>p. p\<lparr>faulted := True\<rparr>) (s2\<lparr>rt_error := NotOperational, degraded := True\<rparr>)
      else if why = RtSetupFailed then s\<lparr>rt_error := RtNoRealtime, degraded := True\<rparr>
      else if why = BusFault then
        (upd_pub (\<lambda>p. p\<lparr>pub_fault_wkc := (case mv of None \<Rightarrow> - 1 | Some v \<Rightarrow> mv_last_wkc v), wkc_faulted := True\<rparr>) s)
          \<lparr>bus_lost := True\<rparr>
      else s)"

subsection \<open>What the operations leave alone\<close>

lemma upd_motion_frame [simp]:
  "lifecycle (upd_motion f s) = lifecycle s" "pub (upd_motion f s) = pub s" "sv_config (upd_motion f s) = sv_config s"
  "device (upd_motion f s) = device s" "fld (upd_motion f s) = fld s" "wake_seq (upd_motion f s) = wake_seq s"
  "sv_stopping (upd_motion f s) = sv_stopping s" "rt_exited (upd_motion f s) = rt_exited s"
  "latched_ctrl_error (upd_motion f s) = latched_ctrl_error s" "reset_cycles (upd_motion f s) = reset_cycles s"
  "clear_streak (upd_motion f s) = clear_streak s" "mode_echo_wait (upd_motion f s) = mode_echo_wait s"
  "homing_cycles (upd_motion f s) = homing_cycles s" "homing_echo_wait (upd_motion f s) = homing_echo_wait s"
  "homing_timeout_cycles (upd_motion f s) = homing_timeout_cycles s"
  "motion (upd_motion f s) = map_option f (motion s)"
  by (simp_all add: upd_motion_def)

lemma upd_pub_frame [simp]:
  "lifecycle (upd_pub f s) = lifecycle s" "pub (upd_pub f s) = f (pub s)" "sv_config (upd_pub f s) = sv_config s"
  "device (upd_pub f s) = device s" "fld (upd_pub f s) = fld s" "wake_seq (upd_pub f s) = wake_seq s"
  "sv_stopping (upd_pub f s) = sv_stopping s" "rt_exited (upd_pub f s) = rt_exited s" "motion (upd_pub f s) = motion s"
  "latched_ctrl_error (upd_pub f s) = latched_ctrl_error s" "reset_cycles (upd_pub f s) = reset_cycles s"
  "clear_streak (upd_pub f s) = clear_streak s" "mode_echo_wait (upd_pub f s) = mode_echo_wait s"
  "homing_cycles (upd_pub f s) = homing_cycles s" "homing_echo_wait (upd_pub f s) = homing_echo_wait s"
  "homing_timeout_cycles (upd_pub f s) = homing_timeout_cycles s"
  "pos_hist (upd_pub f s) = pos_hist s" "pos_hist_idx (upd_pub f s) = pos_hist_idx s"
  "pos_hist_filled (upd_pub f s) = pos_hist_filled s"
  by (simp_all add: upd_pub_def)

lemma bump_wake_frame [simp]:
  "lifecycle (bump_wake s) = lifecycle s" "pub (bump_wake s) = pub s" "sv_config (bump_wake s) = sv_config s"
  "device (bump_wake s) = device s" "fld (bump_wake s) = fld s" "wake_seq (bump_wake s) = wake_seq s + 1"
  "sv_stopping (bump_wake s) = sv_stopping s" "rt_exited (bump_wake s) = rt_exited s" "motion (bump_wake s) = motion s"
  "latched_ctrl_error (bump_wake s) = latched_ctrl_error s" "reset_cycles (bump_wake s) = reset_cycles s"
  "clear_streak (bump_wake s) = clear_streak s" "mode_echo_wait (bump_wake s) = mode_echo_wait s"
  "homing_cycles (bump_wake s) = homing_cycles s" "homing_echo_wait (bump_wake s) = homing_echo_wait s"
  "homing_timeout_cycles (bump_wake s) = homing_timeout_cycles s"
  by (simp_all add: bump_wake_def)

lemma abort_active_move_frame [simp]:
  "lifecycle (abort_active_move w s) = lifecycle s" "sv_config (abort_active_move w s) = sv_config s"
  "device (abort_active_move w s) = device s" "fld (abort_active_move w s) = fld s"
  "sv_stopping (abort_active_move w s) = sv_stopping s" "rt_exited (abort_active_move w s) = rt_exited s"
  "motion (abort_active_move w s) = motion s" "reset_cycles (abort_active_move w s) = reset_cycles s"
  "clear_streak (abort_active_move w s) = clear_streak s" "mode_echo_wait (abort_active_move w s) = mode_echo_wait s"
  "homing_cycles (abort_active_move w s) = homing_cycles s" "homing_echo_wait (abort_active_move w s) = homing_echo_wait s"
  "homing_timeout_cycles (abort_active_move w s) = homing_timeout_cycles s"
  "active_generation (pub (abort_active_move w s)) = active_generation (pub s)"
  "completed_generation (pub (abort_active_move w s)) = completed_generation (pub s)"
  "homing_state (pub (abort_active_move w s)) = homing_state (pub s)"
  "faulted (pub (abort_active_move w s)) = faulted (pub s)"
  by (simp_all add: abort_active_move_def Let_def)

lemma failed_abort:
  "failed_generation (pub (abort_active_move w s)) =
     (if active_generation (pub s) \<noteq> 0 \<and> completed_generation (pub s) \<noteq> active_generation (pub s)
      then active_generation (pub s) else failed_generation (pub s))"
  by (simp add: abort_active_move_def Let_def)

lemma publish_homing_result_frame [simp]:
  "lifecycle (publish_homing_result h s) = lifecycle s" "sv_config (publish_homing_result h s) = sv_config s"
  "device (publish_homing_result h s) = device s" "fld (publish_homing_result h s) = fld s"
  "motion (publish_homing_result h s) = motion s" "reset_cycles (publish_homing_result h s) = reset_cycles s"
  "clear_streak (publish_homing_result h s) = clear_streak s"
  "homing_cycles (publish_homing_result h s) = homing_cycles s"
  "homing_echo_wait (publish_homing_result h s) = homing_echo_wait s"
  "homing_timeout_cycles (publish_homing_result h s) = homing_timeout_cycles s"
  "active_generation (pub (publish_homing_result h s)) = active_generation (pub s)"
  "completed_generation (pub (publish_homing_result h s)) = completed_generation (pub s)"
  "failed_generation (pub (publish_homing_result h s)) = failed_generation (pub s)"
  by (simp_all add: publish_homing_result_def)

lemma finish_homing_frame [simp]:
  "lifecycle (finish_homing h s) = LEnabling" "sv_config (finish_homing h s) = sv_config s"
  "device (finish_homing h s) = device s" "fld (finish_homing h s) = fld s"
  "motion (finish_homing h s) = map_option mm_reset (motion s)"
  "active_generation (pub (finish_homing h s)) = active_generation (pub s)"
  "completed_generation (pub (finish_homing h s)) = completed_generation (pub s)"
  "failed_generation (pub (finish_homing h s)) = failed_generation (pub s)"
  "homing_state (pub (finish_homing h s)) = (if h = HfNone then HomingDone else HomingFailed)"
  by (simp_all add: finish_homing_def publish_homing_result_def)

lemma route_stops_frame [simp]:
  "lifecycle (route_stops b s) = lifecycle s" "sv_config (route_stops b s) = sv_config s"
  "device (route_stops b s) = device s" "fld (route_stops b s) = fld s"
  "reset_cycles (route_stops b s) = reset_cycles s" "clear_streak (route_stops b s) = clear_streak s"
  "homing_cycles (route_stops b s) = homing_cycles s" "homing_echo_wait (route_stops b s) = homing_echo_wait s"
  "homing_timeout_cycles (route_stops b s) = homing_timeout_cycles s"
  "active_generation (pub (route_stops b s)) = active_generation (pub s)"
  "completed_generation (pub (route_stops b s)) = completed_generation (pub s)"
  by (simp_all add: route_stops_def Let_def)

lemma adopt_target_frame [simp]:
  "lifecycle (adopt_target b a s) = lifecycle s" "sv_config (adopt_target b a s) = sv_config s"
  "device (adopt_target b a s) = device s" "fld (adopt_target b a s) = fld s"
  "reset_cycles (adopt_target b a s) = reset_cycles s" "clear_streak (adopt_target b a s) = clear_streak s"
  "homing_cycles (adopt_target b a s) = homing_cycles s" "homing_echo_wait (adopt_target b a s) = homing_echo_wait s"
  "homing_timeout_cycles (adopt_target b a s) = homing_timeout_cycles s"
  "completed_generation (pub (adopt_target b a s)) = completed_generation (pub s)"
  "failed_generation (pub (adopt_target b a s)) = failed_generation (pub s)"
  "active_generation (pub (adopt_target b a s)) =
     (case set_target b of None \<Rightarrow> active_generation (pub s) | Some t \<Rightarrow> st_generation t)"
  by (simp_all add: adopt_target_def split: option.splits)

lemma route_commands_frame [simp]:
  "lifecycle (route_commands b a s) = lifecycle s" "sv_config (route_commands b a s) = sv_config s"
  "device (route_commands b a s) = device s" "fld (route_commands b a s) = fld s"
  "reset_cycles (route_commands b a s) = reset_cycles s" "clear_streak (route_commands b a s) = clear_streak s"
  "homing_cycles (route_commands b a s) = homing_cycles s" "homing_echo_wait (route_commands b a s) = homing_echo_wait s"
  "homing_timeout_cycles (route_commands b a s) = homing_timeout_cycles s"
  by (simp_all add: route_commands_def Let_def split: option.splits)

lemma route_commands_gen [simp]:
  "completed_generation (pub (route_commands b a s)) = completed_generation (pub s)"
  "failed_generation (pub (route_commands b a s)) = failed_generation (pub (route_stops b s))"
  "active_generation (pub (route_commands b a s)) =
     (case set_target b of None \<Rightarrow> active_generation (pub s) | Some t \<Rightarrow> st_generation t)"
  by (simp_all add: route_commands_def Let_def split: option.splits)

lemma position_stable_frame [simp]:
  "pub (snd (position_stable a s)) = pub s" "lifecycle (snd (position_stable a s)) = lifecycle s"
  "motion (snd (position_stable a s)) = motion s" "fld (snd (position_stable a s)) = fld s"
  "sv_config (snd (position_stable a s)) = sv_config s" "wake_seq (snd (position_stable a s)) = wake_seq s"
  "sv_stopping (snd (position_stable a s)) = sv_stopping s" "rt_exited (snd (position_stable a s)) = rt_exited s"
  "latched_ctrl_error (snd (position_stable a s)) = latched_ctrl_error s"
  "homing_cycles (snd (position_stable a s)) = homing_cycles s"
  "homing_echo_wait (snd (position_stable a s)) = homing_echo_wait s"
  "homing_timeout_cycles (snd (position_stable a s)) = homing_timeout_cycles s"
  by (simp_all add: position_stable_def Let_def)

lemma begin_cycle_frame [simp]:
  "fld (snd (begin_cycle c a s)) = fld s" "lifecycle (snd (begin_cycle c a s)) = lifecycle s"
  "pub (snd (begin_cycle c a s)) = pub s" "motion (snd (begin_cycle c a s)) = motion s"
  "sv_config (snd (begin_cycle c a s)) = sv_config s"
  "homing_cycles (snd (begin_cycle c a s)) = homing_cycles s"
  "homing_echo_wait (snd (begin_cycle c a s)) = homing_echo_wait s"
  "homing_timeout_cycles (snd (begin_cycle c a s)) = homing_timeout_cycles s"
  by (simp_all add: begin_cycle_def Let_def)

lemma write_outputs_frame [simp]:
  "fld (snd (write_outputs c st a cw s)) = fld s" "lifecycle (snd (write_outputs c st a cw s)) = lifecycle s"
  "pub (snd (write_outputs c st a cw s)) = pub s" "sv_config (snd (write_outputs c st a cw s)) = sv_config s"
  "homing_cycles (snd (write_outputs c st a cw s)) = homing_cycles s"
  "homing_echo_wait (snd (write_outputs c st a cw s)) = homing_echo_wait s"
  "homing_timeout_cycles (snd (write_outputs c st a cw s)) = homing_timeout_cycles s"
  by (simp_all add: write_outputs_def track_motion_def Let_def split_beta)

lemma publish_frame [simp]:
  "lifecycle (publish_state c st a v s) = lifecycle s" "fld (publish_state c st a v s) = fld s"
  "homing_state (pub (publish_state c st a v s)) = homing_state (pub s)"
  "homing_cycles (publish_state c st a v s) = homing_cycles s"
  "homing_echo_wait (publish_state c st a v s) = homing_echo_wait s"
  "homing_timeout_cycles (publish_state c st a v s) = homing_timeout_cycles s"
  by (simp_all add: publish_state_def publish_faults_def publish_motion_def Let_def split_beta)

text \<open>The cycle as a composition, for reasoning about one part at a time.\<close>

lemma step_batch_parts:
  obtains s1 c2 cw c3 v
  where "s1 = snd (begin_cycle c (ctx_load c (f_actual (fld s))) s)"
    and "snd (ctl_step_batch b c s) = publish_state c3 \<lparr>sw_raw = ctx_load c (f_statusword (fld s))\<rparr>
           (ctx_load c (f_actual (fld s))) v
           (snd (write_outputs c2 \<lparr>sw_raw = ctx_load c (f_statusword (fld s))\<rparr> (ctx_load c (f_actual (fld s))) cw
              (fst (step_lifecycle c \<lparr>sw_raw = ctx_load c (f_statusword (fld s))\<rparr> b (ctx_load c (f_actual (fld s))) s1))))"
  by (simp add: ctl_step_batch_def Let_def split_beta)

definition ctl_cycle :: "'q ServoController \<Rightarrow> CommandBatch \<times> CycleContext \<Rightarrow> 'q ServoController" where
  "ctl_cycle s i = snd (ctl_step_batch (fst i) (snd i) s)"

subsection \<open>A concrete controller\<close>

text \<open>A controller in profile mode with statusword and position at the start of the input image.\<close>

definition demo_controller :: "Lifecycle \<Rightarrow> Command list ServoController" where
  "demo_controller l = (ServoController_init generic_device demo_servo_config [])
     \<lparr>fld := ServoFields_init\<lparr>f_actual := \<lparr>byte_offset = 2\<rparr>\<rparr>, motion := Some (PP (pp_new 500000 2)), lifecycle := l\<rparr>"

definition demo_inputs :: "byte \<Rightarrow> CycleContext" where
  "demo_inputs sw = \<lparr>cc_inputs = [sw, 0, 0, 0, 0, 0], cc_outputs = replicate 16 0, cc_cycle = 1, cc_dc_time = 0,
     cc_stopping = False, cc_wkc = \<lparr>ws_expected = 3, ws_last = 3, ws_total_cycles = 1, ws_bad_cycles = 0\<rparr>,
     cc_fault = False, cc_stop_requested = False\<rparr>"

lemma demo_controller_sel [simp]:
  "lifecycle (demo_controller l) = l" "motion (demo_controller l) = Some (PP (pp_new 500000 2))"
  "pub (demo_controller l) = ControllerState_init" "sv_config (demo_controller l) = demo_servo_config"
  "reset_cycles (demo_controller l) = 0" "homing_cycles (demo_controller l) = 0"
  "homing_echo_wait (demo_controller l) = 0" "homing_timeout_cycles (demo_controller l) = 0"
  "f_mode_disp (fld (demo_controller l)) = None" "f_fault_code (fld (demo_controller l)) = None"
  "sv_stopping (demo_controller l) = False" "rt_exited (demo_controller l) = False"
  "pos_hist (demo_controller l) = []" "pos_hist_idx (demo_controller l) = 0" "pos_hist_filled (demo_controller l) = 0"
  by (simp_all add: demo_controller_def ServoController_init_def ServoFields_init_def)

end
