(* ===== verification/ServoWaiters.thy ===== *)
theory ServoWaiters
  imports ServoController
begin

text \<open>
  The callers parked on the servo controller's published state (\<^verbatim>\<open>await_move\<close> and \<^verbatim>\<open>await_homing\<close> of
  \<^verbatim>\<open>src/src/viam/lib/servo_controller.cpp\<close>) and the move generations they wait for: every change they
  wait for bumps the wake sequence, and the first terminal outcome of a move is final.
\<close>

subsection \<open>Parked callers\<close>

text \<open>
  \<^verbatim>\<open>await_move\<close> and \<^verbatim>\<open>await_homing\<close> read the wake sequence, classify the published state, and park until
  the sequence changes. One pass over the state is a function; \<open>MoveWait\<close> and \<open>None\<close> mean ``park''.
\<close>

datatype move_verdict = MoveWait | MoveDone | MoveStopped | MoveAborted | MoveFaulted

definition await_move_poll :: "u32 \<Rightarrow> 'q ServoController \<Rightarrow> move_verdict" where
  "await_move_poll g s =
     (if completed_generation (pub s) \<ge> g \<or> active_generation (pub s) > g then MoveDone
      else if sv_stopping s \<or> rt_exited s then MoveStopped
      else if failed_generation (pub s) \<ge> g then MoveAborted
      else if faulted (pub s) then MoveFaulted
      else MoveWait)"

datatype homing_verdict = HomingAttained bool | HomingThrows

definition await_homing_poll :: "'q ServoController \<Rightarrow> homing_verdict option" where
  "await_homing_poll s =
     (if homing_state (pub s) \<noteq> HomingRunning then Some (HomingAttained (homing_state (pub s) = HomingDone))
      else if sv_stopping s \<or> rt_exited s then Some HomingThrows else None)"

text \<open>
  \<open>signals n\<close>: a step either leaves everything a parked caller looks at (a fault may clear, a newer move
  may be adopted) or bumps the wake sequence, at most \<open>n\<close> times.
\<close>

definition quiet :: "'q ServoController \<Rightarrow> 'q ServoController \<Rightarrow> bool" where
  "quiet s s' \<longleftrightarrow> completed_generation (pub s') = completed_generation (pub s)
     \<and> failed_generation (pub s') = failed_generation (pub s)
     \<and> homing_state (pub s') = homing_state (pub s)
     \<and> sv_stopping s' = sv_stopping s \<and> rt_exited s' = rt_exited s
     \<and> (faulted (pub s') \<longrightarrow> faulted (pub s)) \<and> wake_seq s' = wake_seq s"

definition signals :: "nat \<Rightarrow> 'q ServoController \<Rightarrow> 'q ServoController \<Rightarrow> bool" where
  "signals n s s' \<longleftrightarrow> quiet s s' \<or> (\<exists>k. 0 < k \<and> k \<le> n \<and> wake_seq s' = wake_seq s + of_nat k)"

lemma signals_quiet [simp]: "signals 0 s s' \<longleftrightarrow> quiet s s'"
  by (simp add: signals_def)

lemma signals_trans [trans]: "signals m s s1 \<Longrightarrow> signals n s1 s2 \<Longrightarrow> signals (m + n) s s2"
proof -
  have 1: "quiet s s1 \<Longrightarrow> quiet s1 s2 \<Longrightarrow> quiet s s2" by (auto simp: quiet_def)
  assume "signals m s s1" "signals n s1 s2"
  then consider "quiet s s1" "quiet s1 s2"
    | k where "quiet s s1" "0 < k" "k \<le> n" "wake_seq s2 = wake_seq s1 + of_nat k"
    | k where "quiet s1 s2" "0 < k" "k \<le> m" "wake_seq s1 = wake_seq s + of_nat k"
    | k l where "0 < k" "k \<le> m" "wake_seq s1 = wake_seq s + of_nat k" "0 < l" "l \<le> n" "wake_seq s2 = wake_seq s1 + of_nat l"
    unfolding signals_def by metis
  then show ?thesis
  proof cases
    case 1
    with \<open>quiet s s1 \<Longrightarrow> quiet s1 s2 \<Longrightarrow> quiet s s2\<close> show ?thesis by (simp add: signals_def)
  next
    case (2 k)
    then show ?thesis by (auto simp: signals_def quiet_def intro!: exI [of _ k])
  next
    case (3 k)
    then show ?thesis by (auto simp: signals_def quiet_def intro!: exI [of _ k])
  next
    case (4 k l)
    then show ?thesis by (auto simp: signals_def intro!: exI [of _ "k + l"])
  qed
qed

lemma signals_mono: "signals m s s' \<Longrightarrow> m \<le> n \<Longrightarrow> signals n s s'"
  by (auto simp: signals_def)

lemma signals_bump:
  "quiet s s' \<Longrightarrow> signals 1 s (bump_wake (upd_pub f s'))"
  "quiet s s' \<Longrightarrow> signals 1 s (bump_wake s')"
  by (auto simp: signals_def quiet_def intro!: exI [of _ 1])

lemma quiet_refl [simp]: "quiet s s"
  by (simp add: quiet_def)

lemma quiet_upd_motion [simp]: "quiet s (upd_motion f s') \<longleftrightarrow> quiet s s'" "quiet s (s'\<lparr>motion := x\<rparr>) \<longleftrightarrow> quiet s s'"
  by (simp_all add: quiet_def)

lemma signals_upd_motion [simp]:
  "signals n s (upd_motion f s') \<longleftrightarrow> signals n s s'" "signals n s (s'\<lparr>motion := x\<rparr>) \<longleftrightarrow> signals n s s'"
  by (simp_all add: signals_def)

lemma signals_abort: "signals 1 s (abort_active_move w s)"
  by (auto simp: abort_active_move_def Let_def signals_def quiet_def intro!: exI [of _ 1])

lemma signals_route_stops: "signals 2 s (route_stops b s)"
proof -
  let ?s1 = "if halt_flag b then let s' = abort_active_move MotorStopped s in if halt_supersedes b then upd_motion mm_halt s' else s' else s"
  have "signals 1 s ?s1" using signals_abort [of s MotorStopped] signals_mono [of 0 s s 1] by (simp add: Let_def)
  also have "signals 1 ?s1 (route_stops b s)"
    using signals_abort [of ?s1 MotorDisabled] signals_mono [of 0 ?s1 ?s1 1] by (simp add: route_stops_def Let_def)
  finally show ?thesis by (simp add: numeral_2_eq_2)
qed

lemma signals_homing_result: "signals 1 s (publish_homing_result h s)"
  unfolding publish_homing_result_def by (rule signals_bump) simp

lemma quiet_adopt: "quiet s (adopt_target b a s)"
  by (simp add: adopt_target_def quiet_def split: option.splits)

lemma signals_route: "signals 3 s (route_commands b a s)"
proof -
  let ?s1 = "adopt_target b a (route_stops b s)"
  let ?s2 = "case set_velocity b of None \<Rightarrow> ?s1 | Some v \<Rightarrow> upd_motion (mm_set_velocity v) ?s1"
  have "signals 2 s (route_stops b s)" by (rule signals_route_stops)
  also have "signals 0 (route_stops b s) ?s2" by (simp add: quiet_adopt split: option.splits)
  also have "signals 1 ?s2 (route_commands b a s)"
    using signals_homing_result [of ?s2 HfNotOperational] signals_mono [of 0 ?s2 ?s2 1]
    by (simp add: route_commands_def Let_def)
  finally show ?thesis by (simp add: numeral_3_eq_3)
qed

lemma signals_finish: "signals 1 s (finish_homing h s)"
  using signals_homing_result [of s h] by (simp add: finish_homing_def upd_motion_def signals_def quiet_def)

lemma signals_enter_resetting: "signals n s s' \<Longrightarrow> signals n s (fst (enter_resetting c s'))"
  by (simp add: enter_resetting_def signals_def quiet_def)

text \<open>Updates of the RT-only working state are invisible to a parked caller.\<close>

lemma signals_work [simp]:
  "signals n s (s'\<lparr>lifecycle := l\<rparr>) = signals n s s'" "signals n s (s'\<lparr>mode_echo_wait := w\<rparr>) = signals n s s'"
  "signals n s (s'\<lparr>latched_ctrl_error := e\<rparr>) = signals n s s'" "signals n s (s'\<lparr>reset_cycles := w\<rparr>) = signals n s s'"
  "signals n s (s'\<lparr>clear_streak := w\<rparr>) = signals n s s'" "signals n s (s'\<lparr>homing_cycles := w\<rparr>) = signals n s s'"
  "signals n s (s'\<lparr>homing_echo_wait := w\<rparr>) = signals n s s'"
  "signals n s (s'\<lparr>homing_timeout_cycles := w\<rparr>) = signals n s s'" "signals n s (s'\<lparr>sv_last_cw := v\<rparr>) = signals n s s'"
  "signals n s (s'\<lparr>prev_actual := x\<rparr>) = signals n s s'" "signals n s (s'\<lparr>first_cycle := y\<rparr>) = signals n s s'"
  "signals n s (s'\<lparr>last_logged_fault_code := v\<rparr>) = signals n s s'" "signals n s (s'\<lparr>stop_at_rest := y\<rparr>) = signals n s s'"
  "signals n s (s'\<lparr>at_rest := y\<rparr>) = signals n s s'"
  by (simp_all add: signals_def quiet_def)

lemma signals_refl [simp]: "signals n s s"
  by (simp add: signals_def)

lemma signals_finish_upd: "signals 1 s s \<Longrightarrow> signals 1 s (finish_homing h (s\<lparr>homing_echo_wait := w\<rparr>))"
  "signals 1 s (finish_homing h (s\<lparr>homing_cycles := w\<rparr>))"
  "signals 1 s (finish_homing HfNone (upd_pub (\<lambda>p. p\<lparr>zero_offset_counts := 0, home_counts := a, homed := True\<rparr>) s))"
  by (auto simp: finish_homing_def publish_homing_result_def upd_motion_def signals_def quiet_def intro!: exI [of _ 1])

lemma signals_life_motion: "signals 1 s (fst (life_motion c st a s))"
proof -
  let ?m = "fst (mm_step (mode_of s) c (feedback c st a s))"
  have "signals 1 (s\<lparr>motion := Some ?m\<rparr>) (abort_active_move w (s\<lparr>motion := Some ?m\<rparr>))" for w by (rule signals_abort)
  then have "signals 1 s (abort_active_move w (s\<lparr>motion := Some ?m\<rparr>))" for w by (simp add: signals_def quiet_def)
  then show ?thesis by (simp add: life_motion_def Let_def split_beta)
qed

lemma signals_operational: "signals 1 s (fst (life_operational c st b a s))"
  using signals_abort [of s NotOperational] signals_life_motion [of s c st a]
  by (simp add: life_operational_def Let_def split_beta signals_enter_resetting split: option.splits)

lemma signals_homing: "signals 1 s (fst (life_homing c st b a s))"
  using signals_finish [of s] signals_finish_upd [of s]
  by (simp add: life_homing_def Let_def split_beta signals_enter_resetting)

lemma signals_lifecycle: "signals 4 s (fst (step_lifecycle c st b a s))"
proof -
  let ?r = "route_commands b a s"
  have 1: "signals 1 ?r (fst (life_init c st ?r))"
    by (simp add: life_init_def split_beta signals_enter_resetting)
  have 2: "signals 1 ?r (fst (life_enabling c st ?r))"
    by (simp add: life_enabling_def Let_def split_beta signals_enter_resetting)
  have 3: "signals 1 ?r (fst (life_resetting c st b ?r))"
    by (simp add: life_resetting_def Let_def)
  have 4: "signals 1 ?r (fst (life_disabled c b ?r))"
    by (simp add: life_disabled_def)
  have "signals 3 s ?r" by (rule signals_route)
  also have "signals 1 ?r (fst (step_lifecycle c st b a s))"
    using 1 2 3 4 signals_operational signals_homing
    by (cases "lifecycle ?r") (simp_all add: step_lifecycle_def Let_def)
  finally show ?thesis by simp
qed

lemma signals_publish_motion: "signals 1 s (publish_motion c st a v s)"
  by (auto simp: publish_motion_def Let_def split_beta signals_def quiet_def intro!: exI [of _ 1])

lemma signals_publish_faults: "signals 1 s (publish_faults c st s)"
  by (auto simp: publish_faults_def Let_def signals_def quiet_def intro!: exI [of _ 1])

lemma signals_publish: "signals 2 s (publish_state c st a v s)"
proof -
  have "signals 1 s (publish_motion c st a v s)" by (rule signals_publish_motion)
  also have "signals 1 (publish_motion c st a v s) (publish_state c st a v s)"
    unfolding publish_state_def by (rule signals_publish_faults)
  finally show ?thesis by (simp add: numeral_2_eq_2)
qed

lemma signals_begin_cycle [simp]: "signals 0 s (snd (begin_cycle c a s))"
  by (simp add: begin_cycle_def Let_def quiet_def)

lemma signals_write_outputs [simp]: "signals 0 s (snd (write_outputs c st a cw s))"
  by (simp add: write_outputs_def track_motion_def Let_def split_beta quiet_def)

lemma signals_step_batch: "signals 6 s (snd (ctl_step_batch b c s))"
proof -
  let ?st = "\<lparr>sw_raw = ctx_load c (f_statusword (fld s))\<rparr>" and ?a = "ctx_load c (f_actual (fld s))"
  obtain s1 c2 cw c3 v where s1: "s1 = snd (begin_cycle c ?a s)"
    and e: "snd (ctl_step_batch b c s) = publish_state c3 ?st ?a v (snd (write_outputs c2 ?st ?a cw (fst (step_lifecycle c ?st b ?a s1))))"
    by (rule step_batch_parts)
  have "signals 0 s s1" unfolding s1 by (rule signals_begin_cycle)
  also have "signals 4 s1 (fst (step_lifecycle c ?st b ?a s1))" by (rule signals_lifecycle)
  also have "signals 0 \<dots> (snd (write_outputs c2 ?st ?a cw (fst (step_lifecycle c ?st b ?a s1))))"
    by (rule signals_write_outputs)
  also have "signals 2 \<dots> (snd (ctl_step_batch b c s))" unfolding e by (rule signals_publish)
  finally show ?thesis by simp
qed

lemma signals_step_stopping: "signals 2 s (snd (ctl_step_stopping c s))"
proof -
  obtain c2 st a v s2 where e: "snd (ctl_step_stopping c s) = publish_state c2 st a v s2" and q: "signals 0 s s2"
    by (rule that) (auto simp: ctl_step_stopping_def Let_def split_beta quiet_def)
  note q
  also have "signals 2 s2 (snd (ctl_step_stopping c s))" unfolding e by (rule signals_publish)
  finally show ?thesis by (simp add: numeral_2_eq_2)
qed

lemma signals_on_stop: "signals 1 s (on_stop mv r s)"
  by (auto simp: on_stop_def Let_def signals_def quiet_def intro!: exI [of _ 1])

subsection \<open>Generations\<close>

lemma life_generations:
  "active_generation (pub (fst (life_init c st s))) = active_generation (pub s)"
  "active_generation (pub (fst (life_enabling c st s))) = active_generation (pub s)"
  "active_generation (pub (fst (life_operational c st b a s))) = active_generation (pub s)"
  "active_generation (pub (fst (life_homing c st b a s))) = active_generation (pub s)"
  "active_generation (pub (fst (life_resetting c st b s))) = active_generation (pub s)"
  "active_generation (pub (fst (life_disabled c b s))) = active_generation (pub s)"
  "completed_generation (pub (fst (life_init c st s))) = completed_generation (pub s)"
  "completed_generation (pub (fst (life_enabling c st s))) = completed_generation (pub s)"
  "completed_generation (pub (fst (life_operational c st b a s))) = completed_generation (pub s)"
  "completed_generation (pub (fst (life_homing c st b a s))) = completed_generation (pub s)"
  "completed_generation (pub (fst (life_resetting c st b s))) = completed_generation (pub s)"
  "completed_generation (pub (fst (life_disabled c b s))) = completed_generation (pub s)"
  by (simp_all add: life_init_def life_enabling_def life_operational_def life_motion_def life_homing_def life_resetting_def
      life_disabled_def enter_resetting_def Let_def split_beta split: option.splits)

lemma lifecycle_active:
  "active_generation (pub (fst (step_lifecycle c st b a s))) =
     (case set_target b of None \<Rightarrow> active_generation (pub s) | Some t \<Rightarrow> st_generation t)"
  "completed_generation (pub (fst (step_lifecycle c st b a s))) = completed_generation (pub s)"
  by (cases "lifecycle s"; simp add: step_lifecycle_def Let_def life_generations)+

lemma publish_active [simp]:
  "active_generation (pub (publish_state c st a v s)) = active_generation (pub s)"
  "failed_generation (pub (publish_state c st a v s)) = failed_generation (pub s)"
  by (simp_all add: publish_state_def publish_faults_def publish_motion_def Let_def split_beta)

lemma step_batch_active:
  "active_generation (pub (snd (ctl_step_batch b c s))) =
     (case set_target b of None \<Rightarrow> active_generation (pub s) | Some t \<Rightarrow> st_generation t)"
  by (rule step_batch_parts [of c s b]) (simp add: lifecycle_active split: option.splits)

lemma step_stopping_active: "active_generation (pub (snd (ctl_step_stopping c s))) = active_generation (pub s)"
  by (simp add: ctl_step_stopping_def Let_def split_beta)

lemma on_stop_active: "active_generation (pub (on_stop mv r s)) = active_generation (pub s)"
  by (simp add: on_stop_def Let_def)

lemma signals_wakes:
  assumes "signals n s s'" "n \<le> 6" "active_generation (pub s') \<le> g \<or> active_generation (pub s') = active_generation (pub s)"
    and "await_move_poll g s = MoveWait \<and> await_move_poll g s' \<noteq> MoveWait \<or>
         await_homing_poll s = None \<and> await_homing_poll s' \<noteq> None"
  shows "wake_seq s' \<noteq> wake_seq s"
proof -
  have "\<not> quiet s s'"
    using assms(3,4) by (auto simp: quiet_def await_move_poll_def await_homing_poll_def split: if_splits)
  then obtain k where k: "0 < k" "k \<le> n" "wake_seq s' = wake_seq s + of_nat k"
    using assms(1) by (auto simp: signals_def)
  with assms(2) have "(of_nat k :: u64) \<noteq> 0"
    by (auto simp: word_of_nat_eq_0_iff dest: dvd_imp_le)
  with k(3) show ?thesis by simp
qed

text \<open>
  C1. No lost wake-up. A caller parked in \<open>await_move\<close> for generation \<open>g\<close>, or in \<open>await_homing\<close>, read the
  wake sequence and found nothing to report. Whichever hook the runner calls next (a steady cycle, a
  cycle of the stopping window, the exit of the loop), if the caller would now have something to report
  then the sequence it waits on has changed, so it wakes and sees it. (A cycle may adopt a newer move
  without a wake-up; that only happens after the caller's own move has ended, hence the hypothesis.)
\<close>

theorem parked_callers_are_woken:
  assumes "s' = snd (ctl_step_batch b c s) \<and> (case set_target b of None \<Rightarrow> True | Some t \<Rightarrow> st_generation t \<le> g)
      \<or> s' = snd (ctl_step_stopping c s) \<or> s' = on_stop mv r s"
    and "await_move_poll g s = MoveWait \<and> await_move_poll g s' \<noteq> MoveWait \<or>
         await_homing_poll s = None \<and> await_homing_poll s' \<noteq> None"
  shows "wake_seq s' \<noteq> wake_seq s"
  using assms(1)
proof (elim disjE conjE)
  assume s': "s' = snd (ctl_step_batch b c s)" and t: "case set_target b of None \<Rightarrow> True | Some t \<Rightarrow> st_generation t \<le> g"
  show ?thesis
  proof (rule signals_wakes [OF _ order_refl _ assms(2)])
    show "signals 6 s s'" unfolding s' by (rule signals_step_batch)
    show "active_generation (pub s') \<le> g \<or> active_generation (pub s') = active_generation (pub s)"
      using t by (auto simp: s' step_batch_active split: option.splits)
  qed
next
  assume s': "s' = snd (ctl_step_stopping c s)"
  show ?thesis
    by (rule signals_wakes [OF _ _ _ assms(2), of 2]) (simp_all add: s' signals_step_stopping step_stopping_active)
next
  assume s': "s' = on_stop mv r s"
  show ?thesis
    using signals_on_stop [of s mv r] by (intro signals_wakes [OF _ _ _ assms(2), of 1]) (simp_all add: s' on_stop_active)
qed

theorem parked_callers_are_woken_witness:
  "\<exists>s s' :: Command list ServoController. await_move_poll 1 s = MoveWait \<and> await_move_poll 1 s' = MoveStopped
     \<and> s' = on_stop None BusFault s \<and> wake_seq s' \<noteq> wake_seq s"
proof -
  let ?s = "demo_controller LOperational" and ?s' = "on_stop None BusFault (demo_controller LOperational)"
  have p: "await_move_poll 1 ?s = MoveWait" by (simp add: await_move_poll_def ControllerState_init_def)
  have p': "await_move_poll 1 ?s' = MoveStopped"
    by (simp add: await_move_poll_def on_stop_def ControllerState_init_def)
  have "wake_seq ?s' \<noteq> wake_seq ?s"
    by (rule parked_callers_are_woken [where g = 1 and b = CommandBatch_empty and c = "demo_inputs 0" and mv = None and r = BusFault])
      (simp_all add: p p')
  with p p' show ?thesis by blast
qed

text \<open>How the move of the active generation ended, if it has.\<close>

definition gen_outcome :: "ControllerState \<Rightarrow> bool option" where
  "gen_outcome p =
     (if completed_generation p = active_generation p then Some True
      else if failed_generation p = active_generation p then Some False else None)"

text \<open>A batch that brings no other move than the active one.\<close>

definition keeps_generation :: "u32 \<Rightarrow> CommandBatch \<times> CycleContext \<Rightarrow> bool" where
  "keeps_generation g i = (case set_target (fst i) of None \<Rightarrow> True | Some t \<Rightarrow> st_generation t = g)"

lemma life_failed:
  "failed_generation (pub (fst (life_init c st s))) = failed_generation (pub s)"
  "failed_generation (pub (fst (life_enabling c st s))) = failed_generation (pub s)"
  "failed_generation (pub (fst (life_homing c st b a s))) = failed_generation (pub s)"
  "failed_generation (pub (fst (life_resetting c st b s))) = failed_generation (pub s)"
  "failed_generation (pub (fst (life_disabled c b s))) = failed_generation (pub s)"
  "failed_generation (pub (fst (life_operational c st b a s))) \<in> {failed_generation (pub s), active_generation (pub s)}"
  by (simp_all add: life_init_def life_enabling_def life_operational_def life_motion_def life_homing_def life_resetting_def
      life_disabled_def enter_resetting_def failed_abort Let_def split_beta split: option.splits)

lemma route_stops_failed:
  "failed_generation (pub (route_stops b s)) \<in> {failed_generation (pub s), active_generation (pub s)}"
  by (simp add: route_stops_def failed_abort Let_def)

lemma lifecycle_failed:
  assumes "case set_target b of None \<Rightarrow> True | Some t \<Rightarrow> st_generation t = active_generation (pub s)"
  shows "failed_generation (pub (fst (step_lifecycle c st b a s))) \<in> {failed_generation (pub s), active_generation (pub s)}"
proof -
  let ?r = "route_commands b a s"
  have r: "failed_generation (pub ?r) \<in> {failed_generation (pub s), active_generation (pub s)}"
    using route_stops_failed by simp
  have act: "active_generation (pub ?r) = active_generation (pub s)"
    using assms by (simp split: option.splits)
  show ?thesis
    using r life_failed(6) [of c st b a ?r] act
    by (cases "lifecycle s") (auto simp: step_lifecycle_def Let_def life_failed(1-5))
qed

lemma publish_completed:
  "completed_generation (pub (publish_state c st a v s)) \<noteq> completed_generation (pub s) \<Longrightarrow> move_live (pub s)"
  by (auto simp: publish_state_def publish_faults_def publish_motion_def Let_def split_beta move_live_def split: if_splits)

lemma cycle_outcome:
  assumes "gen_outcome (pub s) = Some r" "keeps_generation (active_generation (pub s)) i"
  shows "gen_outcome (pub (ctl_cycle s i)) = Some r \<and> active_generation (pub (ctl_cycle s i)) = active_generation (pub s)"
proof -
  obtain b c where i: "i = (b, c)" by (cases i)
  let ?st = "\<lparr>sw_raw = ctx_load c (f_statusword (fld s))\<rparr>" and ?a = "ctx_load c (f_actual (fld s))"
  obtain s1 c2 cw c3 v where s1: "s1 = snd (begin_cycle c ?a s)"
    and e: "snd (ctl_step_batch b c s) = publish_state c3 ?st ?a v (snd (write_outputs c2 ?st ?a cw (fst (step_lifecycle c ?st b ?a s1))))"
    by (rule step_batch_parts)
  let ?l = "fst (step_lifecycle c ?st b ?a s1)"
  have p1: "pub s1 = pub s" by (simp add: s1)
  have kg: "case set_target b of None \<Rightarrow> True | Some t \<Rightarrow> st_generation t = active_generation (pub s)"
    using assms(2) by (simp add: keeps_generation_def i)
  then have act: "active_generation (pub ?l) = active_generation (pub s)"
    by (simp add: lifecycle_active p1 split: option.splits)
  have failed: "failed_generation (pub ?l) \<in> {failed_generation (pub s), active_generation (pub s)}"
    using lifecycle_failed [OF kg [folded p1], of c ?st ?a] by (simp add: p1)
  have comp: "completed_generation (pub ?l) = completed_generation (pub s)" by (simp add: lifecycle_active p1)
  have dead: "\<not> move_live (pub ?l)"
    using assms(1) act failed comp by (auto simp: move_live_def gen_outcome_def split: if_splits)
  have out: "completed_generation (pub (ctl_cycle s i)) = completed_generation (pub s)"
    "failed_generation (pub (ctl_cycle s i)) = failed_generation (pub ?l)"
    "active_generation (pub (ctl_cycle s i)) = active_generation (pub s)"
    using publish_completed [of c3 ?st ?a v "snd (write_outputs c2 ?st ?a cw ?l)"] dead act comp
    by (auto simp: ctl_cycle_def i e)
  show ?thesis using assms(1) failed by (auto simp: gen_outcome_def out split: if_splits)
qed

text \<open>
  C28. The first terminal outcome of a move is final. Once the active generation has been published as
  completed or as failed, no sequence of cycles changes that verdict, whatever commands (halt, disable,
  velocity, homing), faults or feedback they bring, as long as no other move is adopted: a cancelled move
  never turns into a success, and a stop issued after completion never turns it into a failure.
\<close>

theorem first_terminal_wins:
  assumes "gen_outcome (pub s) = Some r" and "list_all (keeps_generation (active_generation (pub s))) is"
  shows "gen_outcome (pub (foldl ctl_cycle s is)) = Some r
     \<and> active_generation (pub (foldl ctl_cycle s is)) = active_generation (pub s)"
  using assms
proof (induction "is" arbitrary: s)
  case (Cons i "is")
  from Cons.prems cycle_outcome [of s r i]
  have "gen_outcome (pub (ctl_cycle s i)) = Some r" "active_generation (pub (ctl_cycle s i)) = active_generation (pub s)"
    by simp_all
  with Cons.IH [of "ctl_cycle s i"] Cons.prems show ?case by simp
qed simp

theorem first_terminal_wins_witness:
  "gen_outcome (pub (foldl ctl_cycle (upd_pub (\<lambda>p. p\<lparr>active_generation := 1, completed_generation := 1\<rparr>)
     (demo_controller LOperational)) [(CommandBatch_empty\<lparr>halt_flag := True\<rparr>, demo_inputs 0x27)])) = Some True"
proof -
  let ?s = "upd_pub (\<lambda>p. p\<lparr>active_generation := 1, completed_generation := 1\<rparr>) (demo_controller LOperational)"
  let ?is = "[(CommandBatch_empty\<lparr>halt_flag := True\<rparr>, demo_inputs 0x27)]"
  have "gen_outcome (pub ?s) = Some True" by (simp add: gen_outcome_def)
  moreover have "list_all (keeps_generation (active_generation (pub ?s))) ?is"
    by (simp add: keeps_generation_def CommandBatch_empty_def)
  ultimately show ?thesis using first_terminal_wins by blast
qed

end
