(* ===== verification/ServoLifecycle.thy ===== *)
theory ServoLifecycle
  imports ServoWaiters
begin

text \<open>
  Properties of the lifecycle state machine of the servo controller: when it energises the drive, how it
  paces fault resets, that homing runs end, and what the position-stability window computes.
\<close>

subsection \<open>When the lifecycle energises\<close>

lemma low_nibble:
  "disable_voltage AND 0x000F \<noteq> 0x000F" "fault_reset AND 0x000F \<noteq> 0x000F"
  "Cia402Fsm_step st goal AND 0x000F = 0x000F \<longleftrightarrow> Cia402Fsm_step st goal = enable_operation"
  by (cases "Status_decode st"; cases goal; simp add: Cia402Fsm_step_def Let_def cw_defs cw_bit_defs)+

lemma enter_resetting_low: "snd (enter_resetting c s) AND 0x000F \<noteq> 0x000F"
  by (simp add: enter_resetting_def low_nibble)

lemma mode_echoed_store_opt [simp]: "mode_echoed (ctx_store_opt l v c) w s = mode_echoed c w s"
  by (simp add: mode_echoed_def ctx_load_def split: option.splits)

lemma mode_echoed_cong: "fld s = fld s' \<Longrightarrow> mode_echoed c w s = mode_echoed c w s'"
  by (simp add: mode_echoed_def)

text \<open>
  C27. When the lifecycle energises the drive outside normal motion and homing. The controlword of a
  cycle carries the enable-operation bits exactly in these cases: on the enable ladder, the drive is
  switched on or already enabled and 0x6061 echoes the commanded mode (or is not mapped), or the drive
  is in quick stop, where the echo is not consulted; and on the cycle that hands a cleared fault back
  to the ladder, the drive already reports a switched-on state. In particular no cycle in Init or
  Disabled energises, and none while a fault is unconfirmed as cleared.
\<close>

theorem lifecycle_energizes_iff:
  assumes "lifecycle s \<noteq> LOperational" "lifecycle s \<noteq> LHoming"
  shows "snd (snd (step_lifecycle c st b a s)) AND 0x000F = 0x000F \<longleftrightarrow>
     (lifecycle s = LEnabling \<and>
        (Status_decode st \<in> {SwitchedOn, OperationEnabled}
           \<and> mode_echoed c (commanded_cia402_mode (route_commands b a s)) s
         \<or> Status_decode st = QuickStopActive))
     \<or> (lifecycle s = LResetting \<and> \<not> disable_flag b
        \<and> (if Status_decode st \<noteq> Fault then clear_streak s + 1 else 0) \<ge> fault_reset_clear_confirm_cycles (sv_config s)
        \<and> Status_decode st \<in> {SwitchedOn, OperationEnabled, QuickStopActive})"
proof -
  let ?r = "route_commands b a s"
  have init: "snd (snd (life_init c st ?r)) AND 0x000F \<noteq> 0x000F"
    by (simp add: life_init_def split_beta enter_resetting_low low_nibble)
  have dis: "snd (snd (life_disabled c b ?r)) AND 0x000F \<noteq> 0x000F"
    by (simp add: life_disabled_def low_nibble)
  have en: "snd (snd (life_enabling c st ?r)) AND 0x000F = 0x000F \<longleftrightarrow>
      Status_decode st \<in> {SwitchedOn, OperationEnabled} \<and> mode_echoed c (commanded_cia402_mode ?r) s
      \<or> Status_decode st = QuickStopActive"
    by (auto simp: life_enabling_def Let_def split_beta enter_resetting_low low_nibble fsm_enable_iff
        mode_echoed_cong [of "route_commands b a s" s])
  have re: "snd (snd (life_resetting c st b ?r)) AND 0x000F = 0x000F \<longleftrightarrow>
      \<not> disable_flag b
      \<and> (if Status_decode st \<noteq> Fault then clear_streak s + 1 else 0) \<ge> fault_reset_clear_confirm_cycles (sv_config s)
      \<and> Status_decode st \<in> {SwitchedOn, OperationEnabled, QuickStopActive}"
    by (simp add: life_resetting_def Let_def low_nibble fsm_enable_iff)
  show ?thesis using assms init dis en re
    by (cases "lifecycle s") (simp_all add: step_lifecycle_def Let_def)
qed

theorem lifecycle_energizes_iff_witness:
  "snd (snd (step_lifecycle (demo_inputs 0) \<lparr>sw_raw = 0x0023\<rparr> CommandBatch_empty 0 (demo_controller LEnabling))) AND 0x000F = 0x000F
   \<and> snd (snd (step_lifecycle (demo_inputs 0) \<lparr>sw_raw = 0x0027\<rparr> CommandBatch_empty 0 (demo_controller LDisabled))) AND 0x000F \<noteq> 0x000F"
  using lifecycle_energizes_iff [of "demo_controller LEnabling" "demo_inputs 0" "\<lparr>sw_raw = 0x0023\<rparr>" CommandBatch_empty 0]
    lifecycle_energizes_iff [of "demo_controller LDisabled" "demo_inputs 0" "\<lparr>sw_raw = 0x0027\<rparr>" CommandBatch_empty 0]
  by (simp add: mode_echoed_def Status_decode_def kStateMaskLow_def kStateMaskFull_def)

subsection \<open>Homing runs\<close>

lemma homing_state_frame [simp]:
  "homing_state (pub (route_stops b s)) = homing_state (pub s)"
  "homing_state (pub (adopt_target b a s)) = homing_state (pub s)"
  by (simp_all add: route_stops_def adopt_target_def Let_def split: option.splits)

lemma route_homing_state [simp]: "start_homing b = None \<Longrightarrow> homing_state (pub (route_commands b a s)) = homing_state (pub s)"
  by (simp add: route_commands_def Let_def split: option.splits)

lemma life_homing_progress:
  assumes s'_def: "s' = fst (life_homing c st b a s)"
  shows "lifecycle s' \<noteq> LHoming \<and> homing_state (pub s') \<noteq> HomingRunning \<or>
    lifecycle s' = lifecycle s \<and> homing_timeout_cycles s' = homing_timeout_cycles s \<and>
      (homing_echo_wait s' = homing_echo_wait s + 1 \<and> homing_echo_wait s' < kModeEchoCycles \<and> homing_cycles s' = homing_cycles s
       \<or> homing_echo_wait s' = homing_echo_wait s \<and> homing_cycles s' = homing_cycles s + 1
         \<and> homing_cycles s' < homing_timeout_cycles s)"
  by (auto simp: s'_def life_homing_def Let_def split_beta enter_resetting_def not_le)

lemma life_not_homing:
  assumes "lifecycle s \<noteq> LHoming" "start_homing b = None" "homing_state (pub s) \<noteq> HomingRunning"
  shows "lifecycle (fst (step_lifecycle c st b a s)) \<noteq> LHoming
     \<and> homing_state (pub (fst (step_lifecycle c st b a s))) \<noteq> HomingRunning"
  using assms
  by (cases "lifecycle s")
    (simp_all add: step_lifecycle_def Let_def life_init_def life_enabling_def life_operational_def life_motion_def
      life_resetting_def life_disabled_def enter_resetting_def split_beta)

definition homing_inv :: "'q ServoController \<Rightarrow> bool" where
  "homing_inv s \<longleftrightarrow>
     (if lifecycle s = LHoming
      then homing_echo_wait s < kModeEchoCycles \<and> (homing_cycles s < homing_timeout_cycles s \<or> homing_cycles s = 0)
      else homing_state (pub s) \<noteq> HomingRunning)"

definition homing_bound :: "'q ServoController \<Rightarrow> nat" where
  "homing_bound s =
     (if lifecycle s = LHoming
      then (200 - unat (homing_echo_wait s)) + (unat (homing_timeout_cycles s) - unat (homing_cycles s)) else 0)"

definition no_new_homing :: "CommandBatch \<times> CycleContext \<Rightarrow> bool" where
  "no_new_homing i \<longleftrightarrow> start_homing (fst i) = None"

text \<open>The cycle as far as homing is concerned: the lifecycle step.\<close>

lemma cycle_homing:
  fixes s :: "'q ServoController"
  obtains s1 :: "'q ServoController" and st a where "lifecycle s1 = lifecycle s" "homing_cycles s1 = homing_cycles s" "pub s1 = pub s"
    "homing_echo_wait s1 = homing_echo_wait s" "homing_timeout_cycles s1 = homing_timeout_cycles s"
    "lifecycle (ctl_cycle s i) = lifecycle (fst (step_lifecycle (snd i) st (fst i) a s1))"
    "homing_cycles (ctl_cycle s i) = homing_cycles (fst (step_lifecycle (snd i) st (fst i) a s1))"
    "homing_echo_wait (ctl_cycle s i) = homing_echo_wait (fst (step_lifecycle (snd i) st (fst i) a s1))"
    "homing_timeout_cycles (ctl_cycle s i) = homing_timeout_cycles (fst (step_lifecycle (snd i) st (fst i) a s1))"
    "homing_state (pub (ctl_cycle s i)) = homing_state (pub (fst (step_lifecycle (snd i) st (fst i) a s1)))"
proof -
  let ?c = "snd i"
  let ?st = "\<lparr>sw_raw = ctx_load ?c (f_statusword (fld s))\<rparr>" and ?a = "ctx_load ?c (f_actual (fld s))"
  obtain s1 c2 cw c3 v where s1: "s1 = snd (begin_cycle ?c ?a s)"
    and e: "snd (ctl_step_batch (fst i) ?c s) =
        publish_state c3 ?st ?a v (snd (write_outputs c2 ?st ?a cw (fst (step_lifecycle ?c ?st (fst i) ?a s1))))"
    by (rule step_batch_parts)
  show thesis by (rule that [of s1 ?st ?a]) (simp_all add: s1 ctl_cycle_def e)
qed

lemma word_step_less: "w < (n :: 'a::len word) \<Longrightarrow> unat (w + 1) = Suc (unat w)"
proof -
  assume "w < n"
  then have "Suc (unat w) \<le> unat n" by (simp add: word_less_nat_alt Suc_le_eq)
  also have "unat n < 2 ^ LENGTH('a)" by simp
  finally show ?thesis by (rule unat_plus_one)
qed

lemma homing_cycle_shape:
  fixes s :: "'q ServoController"
  assumes "homing_inv s" "no_new_homing i" "s' = ctl_cycle s i"
  shows "lifecycle s' \<noteq> LHoming \<and> homing_state (pub s') \<noteq> HomingRunning \<or>
    lifecycle s = LHoming \<and> lifecycle s' = LHoming \<and> homing_timeout_cycles s' = homing_timeout_cycles s \<and>
      (homing_echo_wait s' = homing_echo_wait s + 1 \<and> homing_echo_wait s' < kModeEchoCycles \<and> homing_cycles s' = homing_cycles s
       \<or> homing_echo_wait s' = homing_echo_wait s \<and> homing_cycles s' = homing_cycles s + 1
         \<and> homing_cycles s' < homing_timeout_cycles s)"
proof -
  obtain s1 :: "'q ServoController" and st a where s1: "lifecycle s1 = lifecycle s" "homing_cycles s1 = homing_cycles s" "pub s1 = pub s"
    "homing_echo_wait s1 = homing_echo_wait s" "homing_timeout_cycles s1 = homing_timeout_cycles s"
    and eq: "lifecycle s' = lifecycle (fst (step_lifecycle (snd i) st (fst i) a s1))"
      "homing_cycles s' = homing_cycles (fst (step_lifecycle (snd i) st (fst i) a s1))"
      "homing_echo_wait s' = homing_echo_wait (fst (step_lifecycle (snd i) st (fst i) a s1))"
      "homing_timeout_cycles s' = homing_timeout_cycles (fst (step_lifecycle (snd i) st (fst i) a s1))"
      "homing_state (pub s') = homing_state (pub (fst (step_lifecycle (snd i) st (fst i) a s1)))"
    unfolding assms(3) by (rule cycle_homing [of s i])
  show ?thesis
  proof (cases "lifecycle s = LHoming")
    case True
    let ?r = "route_commands (fst i) a s1"
    have "fst (step_lifecycle (snd i) st (fst i) a s1) = fst (life_homing (snd i) st (fst i) a ?r)"
      using True s1 by (simp add: step_lifecycle_def)
    with life_homing_progress [OF refl, of "snd i" st "fst i" a ?r] eq True s1 show ?thesis by simp
  next
    case False
    with life_not_homing [of s1 "fst i" "snd i" st a] assms(1,2) eq s1 show ?thesis
      by (simp add: homing_inv_def no_new_homing_def)
  qed
qed

text \<open>
  A homing run is a bounded procedure: every cycle consumes one of the cycles the drive has to echo the
  mode or one of the cycles the caller allowed, or ends the run.
\<close>

lemma homing_keeps: "homing_inv s \<Longrightarrow> no_new_homing i \<Longrightarrow> homing_inv (ctl_cycle s i)"
proof -
  assume a: "homing_inv s" "no_new_homing i"
  from homing_cycle_shape [OF a refl] a(1) show ?thesis
    by (elim disjE conjE) (simp_all add: homing_inv_def)
qed

lemma homing_decr:
  assumes "homing_inv s" "no_new_homing i" "lifecycle s = LHoming"
  shows "homing_bound (ctl_cycle s i) < homing_bound s"
proof -
  have ew: "homing_echo_wait s < kModeEchoCycles" and cy: "homing_cycles s < homing_timeout_cycles s \<or> homing_cycles s = 0"
    using assms by (simp_all add: homing_inv_def)
  have u: "unat (homing_echo_wait s) < 200" using ew by (simp add: kModeEchoCycles_def word_less_nat_alt)
  note shape = homing_cycle_shape [OF assms(1,2) refl]
  then consider (ended) "lifecycle (ctl_cycle s i) \<noteq> LHoming"
    | (echo) "lifecycle (ctl_cycle s i) = LHoming" "homing_timeout_cycles (ctl_cycle s i) = homing_timeout_cycles s"
        "homing_echo_wait (ctl_cycle s i) = homing_echo_wait s + 1" "homing_cycles (ctl_cycle s i) = homing_cycles s"
    | (run) "lifecycle (ctl_cycle s i) = LHoming" "homing_timeout_cycles (ctl_cycle s i) = homing_timeout_cycles s"
        "homing_echo_wait (ctl_cycle s i) = homing_echo_wait s" "homing_cycles (ctl_cycle s i) = homing_cycles s + 1"
        "homing_cycles s + 1 < homing_timeout_cycles s"
    by auto
  then show ?thesis
  proof cases
    case ended
    with assms(3) u show ?thesis by (simp add: homing_bound_def)
  next
    case echo
    with assms(3) u show ?thesis by (simp add: homing_bound_def word_step_less [OF ew])
  next
    case run
    have "unat (homing_cycles s + 1) = Suc (unat (homing_cycles s))"
      using cy by (auto simp: word_step_less)
    moreover have "unat (homing_cycles s + 1) < unat (homing_timeout_cycles s)"
      using run by (simp add: word_less_nat_alt)
    ultimately show ?thesis using run assms(3) by (simp add: homing_bound_def)
  qed
qed

text \<open>Inputs that would start a new run are read as empty batches: the contract is about one run.\<close>

definition homing_cycle :: "'q ServoController \<Rightarrow> CommandBatch \<times> CycleContext \<Rightarrow> 'q ServoController" where
  "homing_cycle s i = ctl_cycle s ((fst i)\<lparr>start_homing := None\<rparr>, snd i)"

lemma homing_cycle_same: "no_new_homing i \<Longrightarrow> homing_cycle s i = ctl_cycle s i"
proof -
  assume "no_new_homing i"
  then have "(fst i)\<lparr>start_homing := None\<rparr> = fst i"
    by (cases "fst i") (simp add: no_new_homing_def)
  then show ?thesis by (simp add: homing_cycle_def)
qed

lemma foldl_homing_cycle: "list_all no_new_homing is \<Longrightarrow> foldl homing_cycle s is = foldl ctl_cycle s is"
  by (induction "is" arbitrary: s) (simp_all add: homing_cycle_same)

lemma stripped_batch [simp]: "no_new_homing ((fst i)\<lparr>start_homing := None\<rparr>, c)"
  by (simp add: no_new_homing_def)

interpretation homing_run: cyclic_progress homing_cycle homing_inv no_new_homing "\<lambda>s. lifecycle s \<noteq> LHoming" homing_bound
proof
  fix s :: "'q ServoController" and i
  assume inv: "homing_inv s"
  then show "homing_inv (homing_cycle s i)" by (simp add: homing_cycle_def homing_keeps)
  show "homing_bound (homing_cycle s i) < homing_bound s" if "\<not> lifecycle s \<noteq> LHoming"
    using that inv by (simp add: homing_cycle_def homing_decr)
  show "lifecycle (homing_cycle s i) \<noteq> LHoming" if "lifecycle s \<noteq> LHoming"
    using that homing_cycle_shape [OF inv stripped_batch [of i "snd i"] refl] by (auto simp: homing_cycle_def)
qed

text \<open>
  C29. A homing run ends. Started by the cycle that enters Homing with a bound of \<open>n\<close> cycles, and whatever
  the drive does and whatever commands arrive (short of another homing request), the lifecycle has left
  Homing after \<open>200 + n\<close> cycles, and the parked caller has its verdict.
\<close>

theorem homing_run_ends:
  assumes "lifecycle s = LHoming" "homing_cycles s = 0" "homing_echo_wait s = 0"
    and "list_all no_new_homing is" "200 + unat (homing_timeout_cycles s) \<le> length is"
  shows "lifecycle (foldl ctl_cycle s is) \<noteq> LHoming \<and> await_homing_poll (foldl ctl_cycle s is) \<noteq> None"
proof -
  have inv: "homing_inv s" using assms(1-3) by (simp add: homing_inv_def kModeEchoCycles_def)
  have "lifecycle (foldl homing_cycle s is) \<noteq> LHoming"
    using assms by (intro homing_run.run_reaches_done [OF assms(4) inv]) (auto simp: homing_bound_def)
  moreover have "homing_inv (foldl homing_cycle s is)" by (rule homing_run.run_inv [OF inv])
  ultimately show ?thesis
    using assms(4) by (simp add: foldl_homing_cycle homing_inv_def await_homing_poll_def)
qed

theorem homing_run_ends_witness:
  "lifecycle (foldl ctl_cycle (demo_controller LHoming) (replicate 200 (CommandBatch_empty, demo_inputs 0x27))) \<noteq> LHoming"
  using homing_run_ends [of "demo_controller LHoming" "replicate 200 (CommandBatch_empty, demo_inputs 0x27)"]
  by (simp add: no_new_homing_def CommandBatch_empty_def list_all_length)

subsection \<open>Fault resets\<close>

lemma enter_resetting_sel [simp]:
  "lifecycle (fst (enter_resetting c s)) = LResetting" "reset_cycles (fst (enter_resetting c s)) = 0"
  "clear_streak (fst (enter_resetting c s)) = 0" "motion (fst (enter_resetting c s)) = map_option mm_reset (motion s)"
  "pub (fst (enter_resetting c s)) = pub s" "sv_config (fst (enter_resetting c s)) = sv_config s"
  "fld (fst (enter_resetting c s)) = fld s"
  by (simp_all add: enter_resetting_def)

lemma route_motion_None:
  "motion (route_stops b s) = None \<longleftrightarrow> motion s = None" "motion (adopt_target b a s) = None \<longleftrightarrow> motion s = None"
  by (simp_all add: route_stops_def adopt_target_def Let_def split: option.splits)

lemma route_commands_motion: "motion (route_commands b a s) = None \<longleftrightarrow> motion s = None"
  by (simp add: route_commands_def Let_def route_motion_None split: option.splits)

text \<open>
  C2. No motion survives a fault. In every lifecycle state in which the drive may be energised or on its
  way there, a cycle that sees the drive in Fault (or, in normal motion and homing, the bus fault) goes to
  Resetting, writes a controlword that does not energise, resets the motion mode, so that recovery
  re-enables into a hold, and, in normal motion, fails the move that was in flight; a homing run in
  progress is published as failed.
\<close>

theorem fault_stops_motion:
  assumes "lifecycle s \<noteq> LResetting" "lifecycle s \<noteq> LDisabled"
    and "Status_decode st = Fault \<or> cc_fault c \<and> lifecycle s \<in> {LOperational, LHoming}"
    and "motion s = Some m"
  shows "case step_lifecycle c st b a s of (s', c', cw) \<Rightarrow>
      lifecycle s' = LResetting \<and> cw AND 0x000F \<noteq> 0x000F \<and> (\<exists>m'. motion s' = Some (mm_reset m'))
      \<and> (lifecycle s = LOperational \<longrightarrow> \<not> move_live (pub s'))
      \<and> (lifecycle s = LHoming \<longrightarrow> homing_state (pub s') = HomingFailed)"
proof -
  let ?r = "route_commands b a s"
  obtain m' where m': "motion ?r = Some m'"
    using assms(4) route_commands_motion [of b a s] by (cases "motion ?r") auto
  have dead: "\<not> move_live (pub (abort_active_move w t))" for w and t :: "'a ServoController"
    by (simp add: move_live_def failed_abort)
  show ?thesis
    using assms(1-3) m' dead
    by (cases "lifecycle s")
      (auto simp: step_lifecycle_def Let_def split_beta life_init_def life_enabling_def life_operational_def life_homing_def
        enter_resetting_low)
qed

theorem fault_stops_motion_witness:
  "lifecycle (fst (step_lifecycle (demo_inputs 0) \<lparr>sw_raw = 0x0008\<rparr> CommandBatch_empty 0 (demo_controller LOperational))) = LResetting"
proof -
  have "Status_decode \<lparr>sw_raw = 0x0008\<rparr> = Fault" by (simp add: Status_decode_def kStateMaskLow_def kStateMaskFull_def)
  then show ?thesis
    using fault_stops_motion [of "demo_controller LOperational" "\<lparr>sw_raw = 0x0008\<rparr>" "demo_inputs 0" _ CommandBatch_empty 0]
    by (simp add: split_beta)
qed

text \<open>The cycles of a recovery: the drive in Fault, no emergency stop, no operator command.\<close>

definition plain_fault :: "'q ServoController \<Rightarrow> CycleContext \<times> Status \<Rightarrow> bool" where
  "plain_fault s i \<longleftrightarrow> Status_decode (snd i) = Fault \<and> \<not> estop_present (fst i) s"

definition reset_cycle :: "i32 \<Rightarrow> 'q ServoController \<Rightarrow> CycleContext \<times> Status \<Rightarrow> 'q ServoController" where
  "reset_cycle a s i = fst (step_lifecycle (fst i) (snd i) CommandBatch_empty a s)"

lemma empty_batch [simp]:
  "set_target CommandBatch_empty = None" "set_velocity CommandBatch_empty = None" "start_homing CommandBatch_empty = None"
  "\<not> halt_flag CommandBatch_empty" "\<not> disable_flag CommandBatch_empty" "\<not> fault_reset_flag CommandBatch_empty"
  "\<not> enable_flag CommandBatch_empty" "\<not> quick_stop_flag CommandBatch_empty"
  by (simp_all add: CommandBatch_empty_def)

lemma route_empty [simp]: "route_commands CommandBatch_empty a s = s"
  by (simp add: route_commands_def route_stops_def adopt_target_def)

lemma estop_present_cong: "sv_config s = sv_config s' \<Longrightarrow> fld s = fld s' \<Longrightarrow> estop_present c s = estop_present c s'"
  by (simp add: estop_present_def)

lemma reset_cycle_step:
  assumes "lifecycle s = LResetting" "0 < fault_reset_clear_confirm_cycles (sv_config s)" "Status_decode (snd i) = Fault"
  shows "step_lifecycle (fst i) (snd i) CommandBatch_empty a s =
      (s\<lparr>clear_streak := 0, reset_cycles := reset_cycles s + 1\<rparr>, fst i,
       if \<not> estop_present (fst i) s \<and> (reset_cycles s + 1) mod fault_reset_window_cycles (sv_config s) = 0
       then fault_reset else disable_voltage)"
  using assms
  by (simp add: step_lifecycle_def life_resetting_def Let_def word_gt_0 estop_present_def)

lemma reset_run_state:
  assumes "lifecycle s = LResetting" "0 < fault_reset_clear_confirm_cycles (sv_config s)"
    and "list_all (\<lambda>i. Status_decode (snd i) = Fault) is"
  shows "lifecycle (foldl (reset_cycle a) s is) = LResetting \<and> sv_config (foldl (reset_cycle a) s is) = sv_config s
     \<and> fld (foldl (reset_cycle a) s is) = fld s
     \<and> reset_cycles (foldl (reset_cycle a) s is) = reset_cycles s + of_nat (length is)"
  using assms
proof (induction "is" arbitrary: s)
  case (Cons i "is")
  then show ?case by (simp add: reset_cycle_def reset_cycle_step)
qed simp

text \<open>
  C33. Fault-reset edges are paced. From the cycle that enters Resetting on, while the drive stays in Fault
  and no command arrives, the controlword of the \<open>n\<close>-th cycle has the fault-reset bit exactly if \<open>n\<close> is a
  multiple of the configured window and the emergency-stop code is not present, and is disable-voltage
  otherwise: a reset that is working is not pulsed again, the bit is low in between (the window is at
  least two), and an engaged emergency stop is never answered with a reset.
\<close>

theorem fault_reset_edges_paced:
  assumes "lifecycle s = LResetting" "reset_cycles s = 0" "0 < fault_reset_clear_confirm_cycles (sv_config s)"
    and "list_all (\<lambda>i. Status_decode (snd i) = Fault) is" "Status_decode st = Fault"
    and "Suc (length is) < 2 ^ 32"
  shows "snd (snd (step_lifecycle c st CommandBatch_empty a (foldl (reset_cycle a) s is))) =
      (if Suc (length is) mod unat (fault_reset_window_cycles (sv_config s)) = 0 \<and> \<not> estop_present c s
       then fault_reset else disable_voltage)"
proof -
  let ?t = "foldl (reset_cycle a) s is"
  have t: "lifecycle ?t = LResetting" "sv_config ?t = sv_config s" "fld ?t = fld s" "reset_cycles ?t = of_nat (length is)"
    using reset_run_state [OF assms(1,3,4)] assms(2) by simp_all
  have n: "unat (of_nat (length is) + 1 :: u32) = Suc (length is)"
    using assms(6) by (simp add: unat_plus_one unat_of_nat take_bit_nat_eq_self)
  have m: "(of_nat (length is) + 1 :: u32) mod w = 0 \<longleftrightarrow> Suc (length is) mod unat w = 0" for w
  proof -
    have "unat ((of_nat (length is) + 1 :: u32) mod w) = Suc (length is) mod unat w" by (simp only: unat_mod n)
    then show ?thesis by (simp only: flip: unat_eq_zero)
  qed
  show ?thesis
    using m reset_cycle_step [of ?t "(c, st)" a] t assms(3,5) by (simp add: estop_present_cong [OF t(2,3)])
qed

theorem fault_reset_edges_paced_witness:
  "snd (snd (step_lifecycle (demo_inputs 8) \<lparr>sw_raw = 0x0008\<rparr> CommandBatch_empty 0
     (foldl (reset_cycle 0) (demo_controller LResetting) (replicate 199 (demo_inputs 8, \<lparr>sw_raw = 0x0008\<rparr>))))) = fault_reset"
proof -
  have "Status_decode \<lparr>sw_raw = 0x0008\<rparr> = Fault" by (simp add: Status_decode_def kStateMaskLow_def kStateMaskFull_def)
  then show ?thesis
    using fault_reset_edges_paced [of "demo_controller LResetting" "replicate 199 (demo_inputs 8, \<lparr>sw_raw = 0x0008\<rparr>)"
        "\<lparr>sw_raw = 0x0008\<rparr>" "demo_inputs 8" 0]
    by (simp add: list_all_length demo_servo_config_def ServoConfig_default_def estop_present_def)
qed

subsection \<open>The position-stability window\<close>

text \<open>
  The ring holds the last \<open>N\<close> samples: after \<open>n\<close> of them, sample \<open>i\<close> of the last \<open>N\<close> is in slot \<open>i mod N\<close>.
\<close>

definition ring_inv :: "nat \<Rightarrow> i32 list \<Rightarrow> 'q ServoController \<Rightarrow> bool" where
  "ring_inv N xs s \<longleftrightarrow> length (pos_hist s) = N \<and> pos_hist_idx s = length xs mod N
     \<and> unat (pos_hist_filled s) = min (length xs) N
     \<and> (\<forall>i. length xs \<le> i + N \<longrightarrow> i < length xs \<longrightarrow> pos_hist s ! (i mod N) = xs ! i)"

definition push_sample :: "'q ServoController \<Rightarrow> i32 \<Rightarrow> 'q ServoController" where
  "push_sample s x = snd (position_stable x s)"

lemma push_sample_config [simp]: "sv_config (push_sample s x) = sv_config s"
  by (simp add: push_sample_def)

lemma push_samples_config [simp]: "sv_config (foldl push_sample s xs) = sv_config s"
  by (induction xs arbitrary: s) simp_all

lemma same_slot: "i mod N = j mod N \<Longrightarrow> i < j + N \<Longrightarrow> j < i + N \<Longrightarrow> i = (j :: nat)"
proof (rule ccontr)
  assume a: "i mod N = j mod N" "i < j + N" "j < i + N" "i \<noteq> j"
  have "int i mod int N = int j mod int N" using a(1) by (metis zmod_int)
  then have "int N dvd int i - int j" by (rule mod_eq_dvd_iff [THEN iffD1])
  moreover have "\<bar>int i - int j\<bar> < int N" using a(2,3) by linarith
  ultimately have "int i - int j = 0" using dvd_imp_le_int [of "int i - int j" "int N"] by linarith
  with a(4) show False by simp
qed

lemma window_slots:
  assumes "0 < (N :: nat)" "N \<le> n"
  shows "(\<lambda>i. i mod N) ` {n - N..<n} = {..<N}"
proof (rule card_subset_eq)
  show "(\<lambda>i. i mod N) ` {n - N..<n} \<subseteq> {..<N}" using assms(1) by (auto intro: mod_less_divisor)
  have "inj_on (\<lambda>i. i mod N) {n - N..<n}" by (rule inj_onI) (auto intro: same_slot)
  then show "card ((\<lambda>i. i mod N) ` {n - N..<n}) = card {..<N}" using assms by (simp add: card_image)
qed simp

lemma ring_window:
  assumes "ring_inv N xs s" "0 < N" "N \<le> length xs"
  shows "set (pos_hist s) = set (drop (length xs - N) xs)"
proof -
  let ?n = "length xs"
  have "set (pos_hist s) = (\<lambda>j. pos_hist s ! j) ` {..<N}"
    using assms(1) by (auto simp: ring_inv_def set_conv_nth)
  also have "\<dots> = (\<lambda>i. pos_hist s ! (i mod N)) ` {?n - N..<?n}"
    by (simp only: window_slots [OF assms(2,3), symmetric] image_image)
  also have "\<dots> = (\<lambda>i. xs ! i) ` {?n - N..<?n}"
    using assms(1) by (intro image_cong) (auto simp: ring_inv_def)
  also have "\<dots> = set (drop (?n - N) xs)"
    by (auto simp: set_conv_nth image_iff) (metis add.commute le_add_diff_inverse2 less_diff_conv diff_le_self nat_le_iff_add assms(3) le_add_diff_inverse)+
  finally show ?thesis .
qed

lemma ring_push:
  assumes "ring_inv N xs s" "0 < N" "N < 2 ^ 32"
  shows "ring_inv N (xs @ [x]) (push_sample s x)"
proof -
  let ?n = "length xs" and ?t = "push_sample s x"
  have r: "length (pos_hist s) = N" "pos_hist_idx s = ?n mod N" "unat (pos_hist_filled s) = min ?n N"
    and el: "\<And>i. ?n \<le> i + N \<Longrightarrow> i < ?n \<Longrightarrow> pos_hist s ! (i mod N) = xs ! i"
    using assms(1) by (simp_all add: ring_inv_def)
  have ne: "pos_hist s \<noteq> []" using r(1) assms(2) by auto
  have t: "pos_hist ?t = (pos_hist s)[?n mod N := x]" "pos_hist_idx ?t = Suc (?n mod N) mod N"
    "pos_hist_filled ?t = (if ?n < N then pos_hist_filled s + 1 else pos_hist_filled s)"
    using ne r by (auto simp: push_sample_def position_stable_def Let_def)
  have f: "unat (pos_hist_filled ?t) = min (Suc ?n) N"
  proof (cases "?n < N")
    case True
    with r(3) assms(3) have "unat (pos_hist_filled s + 1) = Suc ?n" by (subst unat_plus_one) simp_all
    with True t(3) show ?thesis by simp
  qed (simp add: t(3) r(3))
  have "pos_hist ?t ! (i mod N) = (xs @ [x]) ! i" if "Suc ?n \<le> i + N" "i < Suc ?n" for i
  proof (cases "i = ?n")
    case True
    with r(1) assms(2) show ?thesis by (simp add: t(1))
  next
    case False
    with that have i: "i < ?n" "?n \<le> i + N" by simp_all
    have "i mod N \<noteq> ?n mod N" using same_slot [of i N ?n] i(1) that(1) by auto
    then show ?thesis using el [OF i(2,1)] i by (simp add: t(1) nth_append)
  qed
  then show ?thesis using r t f by (simp add: ring_inv_def mod_Suc_eq)
qed

lemma ring_run:
  assumes "0 < N" "N < 2 ^ 32" "pos_hist s = replicate N 0" "pos_hist_idx s = 0" "pos_hist_filled s = 0"
  shows "ring_inv N xs (foldl push_sample s xs)"
proof (induction xs rule: rev_induct)
  case Nil
  with assms show ?case by (simp add: ring_inv_def)
next
  case (snoc x xs)
  then show ?case using ring_push [OF _ assms(1,2)] by simp
qed

lemma sint_fold_smin: "sint (foldl smin a xs) = Min (sint ` set (a # xs))"
proof (induction xs arbitrary: a)
  case (Cons x xs)
  have "sint (smin a x) = min (sint a) (sint x)" by (simp add: smin_def)
  with Cons.IH [of "smin a x"] show ?case by (cases "xs = []") (simp_all add: min.assoc insert_commute)
qed simp

lemma sint_fold_smax: "sint (foldl smax a xs) = Max (sint ` set (a # xs))"
proof (induction xs arbitrary: a)
  case (Cons x xs)
  have "sint (smax a x) = max (sint a) (sint x)" by (simp add: smax_def)
  with Cons.IH [of "smax a x"] show ?case by (cases "xs = []") (simp_all add: max.assoc insert_commute)
qed simp

lemma sint_i32_diff: "0 \<le> sint a - sint b \<Longrightarrow> sint a - sint b < 2 ^ 31 \<Longrightarrow> sint (a - b :: i32) = sint a - sint b"
  by (simp add: sint_word_ariths signed_take_bit_int_eq_self)

text \<open>
  C30. What ``at rest'' means. Fed with the positions of successive cycles from the empty window of \<open>N\<close>
  slots that \<open>resolve_fields\<close> prepares, the stability test holds after the newest position exactly if more
  than \<open>N\<close> positions have been seen and the last \<open>N\<close> of them lie within the configured tolerance of one
  another: the ring buffer computes the sliding-window range. (The positions are assumed to lie within
  \<open>2 ^ 31\<close> counts of one another: the code subtracts them in 32 bits.)
\<close>

theorem position_stable_window:
  assumes "0 < N" "N < 2 ^ 32" "pos_hist s = replicate N 0" "pos_hist_idx s = 0" "pos_hist_filled s = 0"
    and "\<forall>p\<in>set (xs @ [x]). \<forall>q\<in>set (xs @ [x]). sint p - sint q < 2 ^ 31"
  shows "fst (position_stable x (foldl push_sample s xs)) \<longleftrightarrow>
     N \<le> length xs \<and>
     (let w = drop (length (xs @ [x]) - N) (xs @ [x])
      in Max (sint ` set w) - Min (sint ` set w) \<le> sint (position_tolerance_counts (sv_config s)))"
proof -
  let ?t = "foldl push_sample s xs" and ?w = "drop (length (xs @ [x]) - N) (xs @ [x])"
  let ?h = "(pos_hist ?t)[length xs mod N := x]"
  have inv: "ring_inv N xs ?t" by (rule ring_run [OF assms(1-5)])
  have r: "length (pos_hist ?t) = N" "pos_hist_idx ?t = length xs mod N" "unat (pos_hist_filled ?t) = min (length xs) N"
    using inv by (simp_all add: ring_inv_def)
  have ne: "pos_hist ?t \<noteq> []" using r(1) assms(1) by auto
  show ?thesis
  proof (cases "length xs < N")
    case True
    with ne r show ?thesis by (simp add: position_stable_def Let_def)
  next
    case False
    have inv': "ring_inv N (xs @ [x]) (push_sample ?t x)" by (rule ring_push [OF inv assms(1,2)])
    have h: "pos_hist (push_sample ?t x) = ?h"
      using ne r False by (simp add: push_sample_def position_stable_def Let_def)
    have w: "set ?h = set ?w" using ring_window [OF inv' assms(1)] False by (simp add: h)
    have hne: "?h \<noteq> []" using ne by simp
    have "?h ! 0 \<in> set ?h" using hne by (metis length_greater_0_conv nth_mem)
    then have "set (?h ! 0 # ?h) = set ?h" by (simp only: list.set insert_absorb)
    then have mem: "set (?h ! 0 # ?h) = set ?w" using w by (rule trans)
    have sub: "set ?w \<subseteq> set (xs @ [x])" by (rule set_drop_subset)
    have wne: "sint ` set ?w \<noteq> {}" unfolding w [symmetric] using hne by simp
    have fin: "finite (sint ` set ?w)" by simp
    obtain p where p: "p \<in> set ?w" "Max (sint ` set ?w) = sint p" using Max_in [OF fin wne] by auto
    obtain q where q: "q \<in> set ?w" "Min (sint ` set ?w) = sint q" using Min_in [OF fin wne] by auto
    have le: "Min (sint ` set ?w) \<le> Max (sint ` set ?w)" using fin wne by (meson Max_ge Min_in)
    have lt: "Max (sint ` set ?w) - Min (sint ` set ?w) < 2 ^ 31"
      unfolding p(2) q(2) using assms(6) subsetD [OF sub p(1)] subsetD [OF sub q(1)] by blast
    have "sint (foldl smax (?h ! 0) ?h - foldl smin (?h ! 0) ?h) = Max (sint ` set ?w) - Min (sint ` set ?w)"
      using le lt by (subst sint_i32_diff) (simp_all only: sint_fold_smin sint_fold_smax mem)
    then show ?thesis using ne r False by (simp add: position_stable_def Let_def not_less)
  qed
qed

theorem position_stable_window_witness:
  "fst (position_stable 6 (foldl push_sample ((demo_controller LOperational)\<lparr>pos_hist := replicate 3 0,
     sv_config := demo_servo_config\<lparr>position_tolerance_counts := 1\<rparr>\<rparr>) [9, 5, 5]))"
proof -
  let ?s = "(demo_controller LOperational)\<lparr>pos_hist := replicate 3 0,
     sv_config := demo_servo_config\<lparr>position_tolerance_counts := 1\<rparr>\<rparr>"
  show ?thesis
    using position_stable_window [of 3 ?s "[9, 5, 5]" 6] by simp
qed

end
