(* ===== verification/SdoCodec.thy ===== *)
theory SdoCodec
  imports PdoBuffer Units
begin

text \<open>
  The typed payloads of the raw SDO verbs, \<^verbatim>\<open>src/src/viam/lib/sdo_codec.hpp\<close> and \<^verbatim>\<open>sdo_codec.cpp\<close>,
  with the two standard functions they parse with and print by (\<^verbatim>\<open>std::from_chars\<close>,
  \<^verbatim>\<open>std::to_string\<close>) and \<open>hex_bytes\<close> of \<^verbatim>\<open>src/src/ethercat/log.cpp\<close>. An encoder ends with a value, with
  an exception, or in undefined behaviour (the value \<open>None\<close>): converting a double outside the range
  of \<^verbatim>\<open>int64_t\<close> and negating its least value.
\<close>

subsection \<open>The standard library: numerals\<close>

definition to_string_int :: "int \<Rightarrow> string" where
  "to_string_int i = (if i < 0 then CHR ''-'' # to_string_nat (nat (- i)) else to_string_nat (nat i))"

datatype errc = Errc_ok | Errc_invalid_argument | Errc_result_out_of_range

text \<open>The value of a digit in a base up to 36, letters of either case.\<close>

definition digit_value :: "char \<Rightarrow> nat option" where
  "digit_value c =
     (let n = (of_char c :: nat)
      in if 48 \<le> n \<and> n \<le> 57 then Some (n - 48)
         else if 65 \<le> n \<and> n \<le> 90 then Some (n - 55)
         else if 97 \<le> n \<and> n \<le> 122 then Some (n - 87)
         else None)"

definition digit_of :: "nat \<Rightarrow> char \<Rightarrow> nat option" where
  "digit_of base c = (case digit_value c of Some d \<Rightarrow> if d < base then Some d else None | None \<Rightarrow> None)"

text \<open>The longest prefix of digits, folded into a value, and the rest.\<close>

fun scan_digits :: "nat \<Rightarrow> nat \<Rightarrow> string \<Rightarrow> nat \<times> string" where
  "scan_digits base acc [] = (acc, [])"
| "scan_digits base acc (c # cs) =
     (case digit_of base c of
        None \<Rightarrow> (acc, c # cs)
      | Some d \<Rightarrow> scan_digits base (acc * base + d) cs)"

text \<open>
  \<^verbatim>\<open>std::from_chars\<close> on an integer type with the range \<open>lo .. hi\<close>: a minus sign only for a signed
  type, no plus sign, no prefix, no blanks. It returns the error code, the value (unchanged on an
  error) and what it did not consume.
\<close>

definition from_chars :: "int \<Rightarrow> int \<Rightarrow> nat \<Rightarrow> string \<Rightarrow> int \<Rightarrow> errc \<times> int \<times> string" where
  "from_chars lo hi base s v0 =
     (let neg = lo < 0 \<and> s \<noteq> [] \<and> hd s = CHR ''-'';
          body = (if neg then tl s else s);
          (n, rest) = scan_digits base 0 body;
          x = (if neg then - int n else int n)
      in if rest = body then (Errc_invalid_argument, v0, s)
         else if lo \<le> x \<and> x \<le> hi then (Errc_ok, x, rest)
         else (Errc_result_out_of_range, v0, rest))"

definition int64_min :: int where "int64_min = - (2 ^ 63)"
definition int64_max :: int where "int64_max = 2 ^ 63 - 1"

subsection \<open>Values and types\<close>

record Input =
  in_number :: "double option"
  in_text :: "string option"

record Decoded =
  dec_number :: "double option"
  dec_text :: string

text \<open>The outcome of an encoder; \<open>None\<close> is undefined behaviour.\<close>

type_synonym 'a enc = "(ec_error + 'a) option"

record TypeInfo =
  ti_name :: string
  ti_width :: nat
  ti_encode :: "Input \<Rightarrow> byte list enc"
  ti_decode :: "byte list \<Rightarrow> ec_error + Decoded"

subsection \<open>Integers\<close>

definition drop_prefix :: "nat \<Rightarrow> bool \<Rightarrow> string \<Rightarrow> string" where
  "drop_prefix n b s = (if b then drop n s else s)"

definition quote :: "string \<Rightarrow> string" where
  "quote t = [CHR 0x27] @ t @ [CHR 0x27]"

definition not_an_integer :: "string \<Rightarrow> ec_error" where
  "not_an_integer t =
     Error (''integer value '' @ quote t @ '' is not a decimal or 0x-prefixed integer'')"

definition to_integer :: "Input \<Rightarrow> int enc" where
  "to_integer value =
     (case in_number value of
        Some d \<Rightarrow>
          (case d of
             Fin x \<Rightarrow>
               if of_int \<lfloor>x\<rfloor> \<noteq> x then Some (Inl (Error ''integer value must be a whole number''))
               else if int64_min \<le> \<lfloor>x\<rfloor> \<and> \<lfloor>x\<rfloor> \<le> int64_max then Some (Inr \<lfloor>x\<rfloor>)
               else None
           | _ \<Rightarrow> Some (Inl (Error ''integer value must be a whole number'')))
      | None \<Rightarrow>
          (case in_text value of
             None \<Rightarrow> Some (Inl (Error ''value is missing''))
           | Some t \<Rightarrow>
               let neg = take 1 t = ''-'';
                   s1 = drop_prefix 1 neg t;
                   hex = take 2 s1 = ''0x'' \<or> take 2 s1 = ''0X'';
                   s = drop_prefix 2 hex s1;
                   (ec, v, rest) = from_chars int64_min int64_max (if hex then 16 else 10) s 0
               in if s = [] \<or> ec \<noteq> Errc_ok \<or> rest \<noteq> [] then Some (Inl (not_an_integer t))
                  else if neg \<and> v = int64_min then None
                  else Some (Inr (if neg then - v else v))))"

text \<open>The range of an integer type, from its signedness and width.\<close>

definition type_min :: "bool \<Rightarrow> nat \<Rightarrow> int" where
  "type_min sg w = (if sg then - (2 ^ (w - 1)) else 0)"

definition type_max :: "bool \<Rightarrow> nat \<Rightarrow> int" where
  "type_max sg w = (if sg then 2 ^ (w - 1) - 1 else 2 ^ w - 1)"

definition encode_int :: "bool \<Rightarrow> 'a::len itself \<Rightarrow> Input \<Rightarrow> byte list enc" where
  "encode_int sg T value =
     (case to_integer value of
        None \<Rightarrow> None
      | Some (Inl e) \<Rightarrow> Some (Inl e)
      | Some (Inr v) \<Rightarrow>
          if v < type_min sg LENGTH('a) \<or> v > type_max sg LENGTH('a)
          then Some (Inl (Error (''value '' @ to_string_int v @ '' out of range ['' @
                 to_string_int (type_min sg LENGTH('a)) @ '', '' @ to_string_int (type_max sg LENGTH('a)) @ '']'')))
          else Some (Inr (store_le (replicate (LENGTH('a) div 8) 0) (word_of_int v :: 'a word))))"

definition decode_int :: "bool \<Rightarrow> 'a::len itself \<Rightarrow> byte list \<Rightarrow> ec_error + Decoded" where
  "decode_int sg T bytes =
     (if length bytes < LENGTH('a) div 8
      then Inl (Error (''drive returned '' @ to_string_nat (length bytes) @ '' byte(s), expected '' @
                 to_string_nat (LENGTH('a) div 8)))
      else let v = (load_le bytes :: 'a word)
           in Inr \<lparr>dec_number = Some (Fin (real_of_int (if sg then sint v else uint v))), dec_text = []\<rparr>)"

subsection \<open>Text and raw bytes\<close>

definition text_of :: "Input \<Rightarrow> ec_error + string" where
  "text_of value =
     (case in_text value of None \<Rightarrow> Inl (Error ''string/bytes value must be a string'') | Some t \<Rightarrow> Inr t)"

definition encode_string :: "Input \<Rightarrow> byte list enc" where
  "encode_string value =
     (case text_of value of Inl e \<Rightarrow> Some (Inl e) | Inr t \<Rightarrow> Some (Inr (map of_char t)))"

definition decode_string :: "byte list \<Rightarrow> ec_error + Decoded" where
  "decode_string bytes =
     Inr \<lparr>dec_number = None, dec_text = map (\<lambda>b. char_of (unat b)) (takeWhile (\<lambda>b. b \<noteq> 0) bytes)\<rparr>"

fun byte_pairs :: "ec_error \<Rightarrow> string \<Rightarrow> ec_error + byte list" where
  "byte_pairs e (a # b # rest) =
     (case from_chars 0 (2 ^ 32 - 1) 16 [a, b] 0 of (ec, v, left) \<Rightarrow>
        if ec \<noteq> Errc_ok \<or> left \<noteq> [] then Inl e
        else case byte_pairs e rest of Inl e' \<Rightarrow> Inl e' | Inr bs \<Rightarrow> Inr (word_of_int v # bs))"
| "byte_pairs e _ = Inr []"

definition encode_bytes :: "Input \<Rightarrow> byte list enc" where
  "encode_bytes value =
     (case text_of value of
        Inl e \<Rightarrow> Some (Inl e)
      | Inr t \<Rightarrow>
          let digits = filter (\<lambda>c. c \<noteq> CHR '' '') t
          in if length digits mod 2 \<noteq> 0
             then Some (Inl (Error ''bytes value must have an even number of hex digits''))
             else Some (byte_pairs (Error (''bytes value '' @ quote t @ '' is not a hex byte string'')) digits))"

definition kDigits :: string where "kDigits = ''0123456789ABCDEF''"

definition hex_bytes :: "byte list \<Rightarrow> string" where
  "hex_bytes bytes =
     fold (\<lambda>b s. (if s = [] then [] else s @ '' '') @
                 [kDigits ! unat (drop_bit 4 b), kDigits ! unat (b AND 0x0F)]) bytes []"

definition decode_bytes :: "byte list \<Rightarrow> ec_error + Decoded" where
  "decode_bytes bytes = Inr \<lparr>dec_number = None, dec_text = hex_bytes bytes\<rparr>"

subsection \<open>The type table\<close>

definition kTypes :: "TypeInfo list" where
  "kTypes =
     [\<lparr>ti_name = ''u8'', ti_width = 1, ti_encode = encode_int False TYPE(8), ti_decode = decode_int False TYPE(8)\<rparr>,
      \<lparr>ti_name = ''i8'', ti_width = 1, ti_encode = encode_int True TYPE(8), ti_decode = decode_int True TYPE(8)\<rparr>,
      \<lparr>ti_name = ''u16'', ti_width = 2, ti_encode = encode_int False TYPE(16), ti_decode = decode_int False TYPE(16)\<rparr>,
      \<lparr>ti_name = ''i16'', ti_width = 2, ti_encode = encode_int True TYPE(16), ti_decode = decode_int True TYPE(16)\<rparr>,
      \<lparr>ti_name = ''u32'', ti_width = 4, ti_encode = encode_int False TYPE(32), ti_decode = decode_int False TYPE(32)\<rparr>,
      \<lparr>ti_name = ''i32'', ti_width = 4, ti_encode = encode_int True TYPE(32), ti_decode = decode_int True TYPE(32)\<rparr>,
      \<lparr>ti_name = ''string'', ti_width = 0, ti_encode = encode_string, ti_decode = decode_string\<rparr>,
      \<lparr>ti_name = ''bytes'', ti_width = 0, ti_encode = encode_bytes, ti_decode = decode_bytes\<rparr>]"

definition find_type :: "string \<Rightarrow> TypeInfo option" where
  "find_type name = find (\<lambda>t. ti_name t = name) kTypes"

subsection \<open>Numerals are read back\<close>

lemma digit_of_digit_char [simp]: "digit_of 10 (digit_char n) = Some (n mod 10)"
proof -
  obtain m where m: "n mod 10 = m" "m < 10" by simp
  then have "(of_char (char_of (48 + m) :: char) :: nat) = 48 + m" by simp
  with m show ?thesis by (simp add: digit_of_def digit_value_def Let_def)
qed

lemma scan_digits_snoc:
  "scan_digits b acc xs = (v, []) \<Longrightarrow> digit_of b c = Some d \<Longrightarrow>
   scan_digits b acc (xs @ [c]) = (v * b + d, [])"
  by (induction b acc xs rule: scan_digits.induct) (auto split: option.splits)

lemma scan_to_string_nat [simp]: "scan_digits 10 0 (to_string_nat n) = (n, [])"
proof (induction n rule: to_string_nat.induct)
  case (1 n)
  show ?case
  proof (cases "n < 10")
    case True
    then show ?thesis by (simp add: to_string_nat.simps [of n] del: digit_char.simps)
  next
    case False
    with 1 scan_digits_snoc [of 10 0 "to_string_nat (n div 10)" "n div 10" "digit_char n" "n mod 10"]
    show ?thesis by (simp add: to_string_nat.simps [of n] del: digit_char.simps)
  qed
qed

lemma to_string_nat_not_Nil [simp]: "to_string_nat n \<noteq> []"
  by (subst to_string_nat.simps) simp

lemma to_string_nat_digits: "c \<in> set (to_string_nat n) \<Longrightarrow> digit_of 10 c \<noteq> None"
proof (induction n rule: to_string_nat.induct)
  case (1 n)
  then show ?case
    by (subst (asm) (2) to_string_nat.simps) (auto split: if_splits simp del: digit_char.simps)
qed

lemma no_digit [simp]: "digit_of 10 CHR ''-'' = None" "digit_of 10 CHR ''x'' = None" "digit_of 10 CHR ''X'' = None"
  by (simp_all add: digit_of_def digit_value_def)

lemma take_has_digits: "take k (to_string_nat n) = ys \<Longrightarrow> c \<in> set ys \<Longrightarrow> digit_of 10 c \<noteq> None"
  using to_string_nat_digits in_set_takeD by metis

lemma to_string_nat_no_prefix [simp]:
  "take (Suc 0) (to_string_nat n) \<noteq> ''-''"
  "hd (to_string_nat n) \<noteq> CHR ''-''"
  "take 2 (to_string_nat n) \<noteq> ''0x''"
  "take 2 (to_string_nat n) \<noteq> ''0X''"
proof -
  show "take (Suc 0) (to_string_nat n) \<noteq> ''-''"
    using take_has_digits [of "Suc 0" n "''-''" "CHR ''-''"] by auto
  show "hd (to_string_nat n) \<noteq> CHR ''-''"
    using to_string_nat_digits [of "hd (to_string_nat n)" n] by auto
  show "take 2 (to_string_nat n) \<noteq> ''0x''"
    using take_has_digits [of 2 n "''0x''" "CHR ''x''"] by auto
  show "take 2 (to_string_nat n) \<noteq> ''0X''"
    using take_has_digits [of 2 n "''0X''" "CHR ''X''"] by auto
qed

lemma from_chars_decimal:
  "from_chars lo hi 10 (to_string_nat n) v0
   = (if lo \<le> int n \<and> int n \<le> hi then (Errc_ok, int n, []) else (Errc_result_out_of_range, v0, []))"
  using to_string_nat_not_Nil [of n] by (auto simp: from_chars_def Let_def dest: sym)

text \<open>The decimal text of an integer of the range is read as that integer.\<close>

lemma to_integer_decimal:
  assumes "\<bar>i\<bar> \<le> int64_max"
  shows "to_integer \<lparr>in_number = None, in_text = Some (to_string_int i)\<rparr> = Some (Inr i)"
proof (cases "i < 0")
  case True
  with assms show ?thesis
    by (simp add: to_integer_def to_string_int_def drop_prefix_def from_chars_decimal int64_min_def
        int64_max_def)
next
  case False
  with assms show ?thesis
    by (simp add: to_integer_def to_string_int_def drop_prefix_def from_chars_decimal int64_min_def
        int64_max_def)
qed

lemma to_integer_whole:
  "to_integer \<lparr>in_number = Some (Fin (of_int i)), in_text = t\<rparr>
   = (if int64_min \<le> i \<and> i \<le> int64_max then Some (Inr i) else None)"
  by (simp add: to_integer_def)

subsection \<open>Integers survive the wire\<close>

lemma sint_word_of_int_range:
  "- (2 ^ (LENGTH('a) - 1)) \<le> v \<Longrightarrow> v < 2 ^ (LENGTH('a) - 1) \<Longrightarrow> sint (word_of_int v :: 'a::len word) = v"
  by (simp add: signed_of_int signed_take_bit_int_eq_self)

lemma uint_word_of_int_range:
  "0 \<le> v \<Longrightarrow> v < 2 ^ LENGTH('a) \<Longrightarrow> uint (word_of_int v :: 'a::len word) = v"
  by (simp add: unsigned_of_int take_bit_int_eq_self)

text \<open>
  What an integer row of the table promises: an accepted value fills the width and decodes to the
  integer it denotes, a value outside the range is refused with an exception, and nothing else
  happens to an integer that was read.
\<close>

definition int_codec :: "bool \<Rightarrow> nat \<Rightarrow> TypeInfo \<Rightarrow> bool" where
  "int_codec sg w t \<longleftrightarrow>
     ti_width t = w div 8 \<and>
     (\<forall>value i. to_integer value = Some (Inr i) \<longrightarrow>
        (if type_min sg w \<le> i \<and> i \<le> type_max sg w
         then \<exists>bs. ti_encode t value = Some (Inr bs) \<and> length bs = ti_width t \<and>
                (\<forall>more. ti_decode t (bs @ more) = Inr \<lparr>dec_number = Some (Fin (of_int i)), dec_text = []\<rparr>)
         else \<exists>m. ti_encode t value = Some (Inl (Error m)))) \<and>
     (\<forall>value e. to_integer value = Some (Inl e) \<longrightarrow> ti_encode t value = Some (Inl e)) \<and>
     (\<forall>bs. length bs < ti_width t \<longrightarrow> (\<exists>m. ti_decode t bs = Inl (Error m)))"

lemma int_codecD:
  assumes "int_codec sg w t"
  shows int_codec_accept: "to_integer value = Some (Inr i) \<Longrightarrow> type_min sg w \<le> i \<Longrightarrow> i \<le> type_max sg w \<Longrightarrow>
      \<exists>bs. ti_encode t value = Some (Inr bs) \<and> length bs = w div 8 \<and>
        (\<forall>more. ti_decode t (bs @ more) = Inr \<lparr>dec_number = Some (Fin (of_int i)), dec_text = []\<rparr>)"
    and int_codec_range: "to_integer value = Some (Inr i) \<Longrightarrow> \<not> (type_min sg w \<le> i \<and> i \<le> type_max sg w) \<Longrightarrow>
      \<exists>m. ti_encode t value = Some (Inl (Error m))"
    and int_codec_refuse: "to_integer value = Some (Inl e) \<Longrightarrow> ti_encode t value = Some (Inl e)"
  using assms unfolding int_codec_def by metis+

lemma load_le_append:
  "8 dvd LENGTH('a) \<Longrightarrow> LENGTH('a) div 8 \<le> length f \<Longrightarrow> load_le (f @ g) = (load_le f :: 'a::len word)"
  by (rule bit_word_eqI) (auto simp: bit_load_le nth_append elim!: dvdE)

lemma encode_decode_int:
  fixes T :: "'a::len itself"
  assumes w: "8 dvd LENGTH('a)"
    and v: "to_integer value = Some (Inr i)"
    and r: "type_min sg LENGTH('a) \<le> i" "i \<le> type_max sg LENGTH('a)"
  shows "\<exists>bs. encode_int sg T value = Some (Inr bs) \<and> length bs = LENGTH('a) div 8 \<and>
    (\<forall>more. decode_int sg T (bs @ more) = Inr \<lparr>dec_number = Some (Fin (of_int i)), dec_text = []\<rparr>)"
proof -
  let ?bs = "store_le (replicate (LENGTH('a) div 8) 0) (word_of_int i :: 'a word)"
  have "(load_le (?bs @ more) :: 'a word) = word_of_int i" for more
    using w by (simp add: load_le_append load_store_le)
  moreover have "(if sg then sint (word_of_int i :: 'a word) else uint (word_of_int i :: 'a word)) = i"
    using r by (auto simp: type_min_def type_max_def sint_word_of_int_range uint_word_of_int_range)
  ultimately show ?thesis
    using v r by (auto simp: encode_int_def decode_int_def Let_def)
qed

lemma encode_int_codec:
  "8 dvd LENGTH('a::len) \<Longrightarrow>
   int_codec sg LENGTH('a) \<lparr>ti_name = n, ti_width = LENGTH('a) div 8,
     ti_encode = encode_int sg TYPE('a), ti_decode = decode_int sg TYPE('a)\<rparr>"
  unfolding int_codec_def
  by (auto simp: encode_decode_int) (auto simp: encode_int_def decode_int_def)

lemma find_type_rows:
  "find_type ''u8'' = Some \<lparr>ti_name = ''u8'', ti_width = 1, ti_encode = encode_int False TYPE(8), ti_decode = decode_int False TYPE(8)\<rparr>"
  "find_type ''i8'' = Some \<lparr>ti_name = ''i8'', ti_width = 1, ti_encode = encode_int True TYPE(8), ti_decode = decode_int True TYPE(8)\<rparr>"
  "find_type ''u16'' = Some \<lparr>ti_name = ''u16'', ti_width = 2, ti_encode = encode_int False TYPE(16), ti_decode = decode_int False TYPE(16)\<rparr>"
  "find_type ''i16'' = Some \<lparr>ti_name = ''i16'', ti_width = 2, ti_encode = encode_int True TYPE(16), ti_decode = decode_int True TYPE(16)\<rparr>"
  "find_type ''u32'' = Some \<lparr>ti_name = ''u32'', ti_width = 4, ti_encode = encode_int False TYPE(32), ti_decode = decode_int False TYPE(32)\<rparr>"
  "find_type ''i32'' = Some \<lparr>ti_name = ''i32'', ti_width = 4, ti_encode = encode_int True TYPE(32), ti_decode = decode_int True TYPE(32)\<rparr>"
  "find_type ''string'' = Some \<lparr>ti_name = ''string'', ti_width = 0, ti_encode = encode_string, ti_decode = decode_string\<rparr>"
  "find_type ''bytes'' = Some \<lparr>ti_name = ''bytes'', ti_width = 0, ti_encode = encode_bytes, ti_decode = decode_bytes\<rparr>"
  by (simp_all add: find_type_def kTypes_def)

text \<open>The integer rows of the documented table: name, signedness, width in bits.\<close>

definition int_rows :: "(string \<times> bool \<times> nat) list" where
  "int_rows = [(''u8'', False, 8), (''i8'', True, 8), (''u16'', False, 16), (''i16'', True, 16),
               (''u32'', False, 32), (''i32'', True, 32)]"

lemma int_rows_codec:
  "(name, sg, w) \<in> set int_rows \<Longrightarrow> \<exists>t. find_type name = Some t \<and> int_codec sg w t"
  using encode_int_codec [where 'a = 8] encode_int_codec [where 'a = 16] encode_int_codec [where 'a = 32]
  unfolding int_rows_def by (auto simp: find_type_rows)

subsection \<open>Raw bytes survive printing\<close>

lemma hex_digit_value:
  assumes "n < 16"
  shows "digit_of 16 (kDigits ! n) = Some n" and "kDigits ! n \<noteq> CHR '' ''"
proof -
  have "n \<in> set [0..<16]" using assms by simp
  then have "digit_of 16 (kDigits ! n) = Some n \<and> kDigits ! n \<noteq> CHR '' ''"
    unfolding kDigits_def by (simp add: upt_rec numeral_eq_Suc digit_of_def digit_value_def) (elim disjE; simp)
  then show "digit_of 16 (kDigits ! n) = Some n" "kDigits ! n \<noteq> CHR '' ''" by auto
qed

definition hex_pair :: "byte \<Rightarrow> string" where
  "hex_pair b = [kDigits ! unat (drop_bit 4 b), kDigits ! unat (b AND 0x0F)]"

lemma nibbles:
  "unat (drop_bit 4 (b :: byte)) < 16" "unat (b AND 0x0F :: byte) < 16"
  "unat (drop_bit 4 b) * 16 + unat (b AND 0x0F) = unat b"
proof -
  have "(b AND 0x0F) = take_bit 4 b"
    using take_bit_eq_mask [of 4 b] by (simp add: mask_eq_exp_minus_1)
  then have lo: "unat (b AND 0x0F :: byte) = unat b mod 16"
    by (simp add: take_bit_eq_mod unat_mod)
  have hi: "unat (drop_bit 4 b) = unat b div 16"
    by (simp add: drop_bit_eq_div unat_div)
  have "unat b < 256" using unsigned_less [of b] by simp
  with lo hi show "unat (drop_bit 4 b) < 16" "unat (b AND 0x0F :: byte) < 16"
    "unat (drop_bit 4 b) * 16 + unat (b AND 0x0F) = unat b"
    by (auto simp: div_mult_mod_eq)
qed

lemma from_chars_hex_pair: "from_chars 0 (2 ^ 32 - 1) 16 (hex_pair b) 0 = (Errc_ok, uint b, [])"
proof -
  have "int (unat b) < 2 ^ 32" using unsigned_less [of b, where ?'a = int] by simp
  then show ?thesis
    using nibbles [of b] by (simp add: hex_pair_def from_chars_def hex_digit_value)
qed

lemma byte_pairs_hex: "byte_pairs e (concat (map hex_pair bs)) = Inr bs"
proof (induction bs)
  case (Cons b bs)
  then show ?case using from_chars_hex_pair [of b] by (simp add: hex_pair_def)
qed simp

lemma hex_bytes_snoc:
  "hex_bytes (bs @ [b]) = (if hex_bytes bs = [] then [] else hex_bytes bs @ '' '') @ hex_pair b"
  by (simp add: hex_bytes_def hex_pair_def)

lemma hex_bytes_digits: "filter (\<lambda>c. c \<noteq> CHR '' '') (hex_bytes bs) = concat (map hex_pair bs)"
proof (induction bs rule: rev_induct)
  case (snoc b bs)
  moreover have "filter (\<lambda>c. c \<noteq> CHR '' '') (hex_pair b) = hex_pair b"
    using nibbles [of b] by (simp add: hex_pair_def hex_digit_value)
  ultimately show ?case by (auto simp: hex_bytes_snoc)
qed (simp add: hex_bytes_def)

lemma length_hex_pairs: "length (concat (map hex_pair bs)) = 2 * length bs"
  by (induction bs) (simp_all add: hex_pair_def)

lemma unat_of_char [simp]: "unat (of_char c :: byte) = of_char c"
proof -
  have "of_char c < (256 :: nat)"
    using of_char_mod_256 [of c, where ?'a = nat] by (metis mod_less_divisor zero_less_numeral)
  then show ?thesis
    by (subst of_nat_of_char [symmetric]) (simp add: unsigned_of_nat take_bit_nat_eq_self)
qed

lemma of_char_zero [simp]: "(of_char c :: byte) = 0 \<longleftrightarrow> c = CHR 0x00"
proof -
  have "(of_char c :: byte) = 0 \<longleftrightarrow> (of_char c :: nat) = of_char (CHR 0x00)"
    unfolding unat_of_char [symmetric] by (simp add: unat_eq_zero del: unat_of_char)
  then show ?thesis by (simp only: of_char_eq_iff)
qed

subsection \<open>Properties of the codec\<close>

text \<open>
  C20. An integer of a documented type (u8, i8, u16, i16, u32, i32), given as a JSON number or as its
  decimal text, is encoded to exactly the bytes of its type and read back as the same number, also
  when the drive's reply is longer than the type.
\<close>

theorem sdo_int_roundtrip:
  assumes row: "(name, sg, w) \<in> set int_rows"
    and range: "type_min sg w \<le> i" "i \<le> type_max sg w"
    and inp: "value \<in> {\<lparr>in_number = Some (Fin (of_int i)), in_text = t0\<rparr>,
                      \<lparr>in_number = None, in_text = Some (to_string_int i)\<rparr>}"
  shows "\<exists>t bs. find_type name = Some t \<and> ti_encode t value = Some (Inr bs) \<and> length bs = w div 8 \<and>
    (\<forall>more. ti_decode t (bs @ more) = Inr \<lparr>dec_number = Some (Fin (of_int i)), dec_text = []\<rparr>)"
proof -
  have "w \<in> {8, 16, 32}" using row by (auto simp: int_rows_def)
  with range have "int64_min \<le> i" "\<bar>i\<bar> \<le> int64_max"
    by (auto simp: type_min_def type_max_def int64_min_def int64_max_def split: if_splits)
  with inp have "to_integer value = Some (Inr i)"
    by (auto simp: to_integer_decimal to_integer_whole)
  moreover obtain t where "find_type name = Some t" "int_codec sg w t"
    using int_rows_codec [OF row] by blast
  ultimately show ?thesis using range int_codec_accept by blast
qed

theorem sdo_int_roundtrip_witness:
  "\<exists>t bs. find_type ''i16'' = Some t \<and>
     ti_encode t \<lparr>in_number = None, in_text = Some ''-300''\<rparr> = Some (Inr bs) \<and> length bs = 2 \<and>
     (\<forall>more. ti_decode t (bs @ more) = Inr \<lparr>dec_number = Some (Fin (- 300)), dec_text = []\<rparr>)"
proof -
  have "to_string_int (- 300) = ''-300''"
    by (simp add: to_string_int_def to_string_nat.simps char_of_eq_iff take_bit_eq_mod)
  then show ?thesis
    using sdo_int_roundtrip [of "''i16''" True 16 "- 300"
        "\<lparr>in_number = None, in_text = Some (to_string_int (- 300))\<rparr>"]
    by (simp add: int_rows_def type_min_def type_max_def)
qed



text \<open>
  The text a byte string decodes to is encoded back to the same byte string, and a string value is
  read back up to its first NUL.
\<close>

theorem sdo_text_roundtrip:
  "(\<exists>d. decode_bytes bs = Inr d \<and>
      encode_bytes \<lparr>in_number = n, in_text = Some (dec_text d)\<rparr> = Some (Inr bs)) \<and>
   (\<exists>raw. encode_string \<lparr>in_number = n, in_text = Some t\<rparr> = Some (Inr raw) \<and>
      decode_string raw = Inr \<lparr>dec_number = None, dec_text = takeWhile (\<lambda>c. c \<noteq> CHR 0x00) t\<rparr>)"
proof
  show "\<exists>d. decode_bytes bs = Inr d \<and>
      encode_bytes \<lparr>in_number = n, in_text = Some (dec_text d)\<rparr> = Some (Inr bs)"
    by (simp add: decode_bytes_def encode_bytes_def text_of_def hex_bytes_digits length_hex_pairs
        byte_pairs_hex)
  show "\<exists>raw. encode_string \<lparr>in_number = n, in_text = Some t\<rparr> = Some (Inr raw) \<and>
     decode_string raw = Inr \<lparr>dec_number = None, dec_text = takeWhile (\<lambda>c. c \<noteq> CHR 0x00) t\<rparr>"
    by (simp add: encode_string_def decode_string_def text_of_def takeWhile_map comp_def)
qed

text \<open>
  A second sign is accepted: the sign the code strips itself and the one \<^verbatim>\<open>std::from_chars\<close> reads.
\<close>

lemma double_sign_accepted:
  "to_integer \<lparr>in_number = None, in_text = Some ''--5''\<rparr> = Some (Inr 5)"
  "to_integer \<lparr>in_number = None, in_text = Some ''0x-5''\<rparr> = Some (Inr (- 5))"
  by (simp_all add: to_integer_def drop_prefix_def from_chars_def digit_of_def digit_value_def
      int64_min_def int64_max_def)

end
