(* ===== verification/ServoApi.thy ===== *)
theory ServoApi
  imports ServoLifecycle SdoCodec
begin

text \<open>
  The non-RT side of the servo controller, \<^verbatim>\<open>src/src/viam/lib/servo_controller.cpp\<close>: the set-up steps of a
  run, the motion verbs, the accessors and the composition of \<open>last_error\<close>. A verb is modelled from the
  point where it holds the shared lock (after \<^verbatim>\<open>maybe_recover_bus\<close>) to the point where it parks; what the
  parked caller then sees is in the theory of the waiters. Calls are atomic with respect to one another:
  the one place where the code races on purpose, the claim of the motion slot, has a theory of its own.
\<close>

subsection \<open>Setting up a run\<close>

definition select_motion_mode :: "'q ServoController \<Rightarrow> 'q ServoController" where
  "select_motion_mode s =
     (let c = sv_config s in
      if sv_motion_mode c = Profile then s\<lparr>motion := Some (PP (pp_new (sv_quick_stop_decel c) 2))\<rparr>
      else
        let dt = 1 / real (unat (sv_loop_rate_hz c));
            accel_rpm_s = (if dlt (Fin 0) (max_accel_rpm_per_s c) then max_accel_rpm_per_s c else max_motor_speed_rpm c);
            accel_cps2 = double_of_i32 (rpm_to_device_velocity accel_rpm_s (counts_per_rev c) (gear_ratio c));
            vmax_cps = double_of_i32 (rpm_to_device_velocity (max_motor_speed_rpm c) (counts_per_rev c) (gear_ratio c))
        in s\<lparr>motion := Some (CSP (cs_new dt accel_cps2 vmax_cps (sv_quick_stop_decel c)))\<rparr>)"

definition reset_run_state :: "int \<Rightarrow> 'q ServoController \<Rightarrow> 'q ServoController" where
  "reset_run_state master_expected_wkc s =
     (upd_motion mm_reset (upd_pub (\<lambda>p. p\<lparr>faulted := False, drive_faulted := False, pub_bringup_al_code := 0, loop_cycle := 0,
        active_generation := 0, completed_generation := 0, failed_generation := 0,
        pub_expected_wkc := master_expected_wkc, homing_state := HomingIdle, homed := False, home_counts := 0\<rparr>) s))
     \<lparr>sv_stopping := False, rt_error := RtNone, next_generation := 0, motion_slot := 0, lifecycle := LInit, sv_last_cw := 0,
      prev_actual := 0, first_cycle := True, stop_at_rest := False, at_rest := False, latched_ctrl_error := RtNone,
      last_sync_code := 0, rt_exited := False\<rparr>"

definition window_slots_for :: "u32 \<Rightarrow> nat" where
  "window_slots_for rate = unat (max 3 (rate div 50))"

definition resolve_fields :: "'w Master \<Rightarrow> ('q ServoController, unit) em" where
  "resolve_fields m =
     em_bind (em_gets (sv_slave_id \<circ> sv_config)) (\<lambda>sl.
     let put = (\<lambda>f. em_modify (\<lambda>s. s\<lparr>fld := f (fld s)\<rparr>)) in
     em_seq (em_bind (lift_pure (resolve_rx m ControlWord_field sl)) (\<lambda>l. put (\<lambda>f. f\<lparr>f_ctrlword := l\<rparr>)))
    (em_seq (em_bind (lift_pure (resolve_tx m Statusword_field sl)) (\<lambda>l. put (\<lambda>f. f\<lparr>f_statusword := l\<rparr>)))
    (em_seq (em_bind (lift_pure (resolve_tx m PositionActual_field sl)) (\<lambda>l. put (\<lambda>f. f\<lparr>f_actual := l\<rparr>)))
    (em_seq (em_bind (lift_pure (try_resolve_tx m FaultCode_field sl)) (\<lambda>l. put (\<lambda>f. f\<lparr>f_fault_code := l\<rparr>)))
    (em_seq (em_bind (lift_pure (try_resolve_tx m VelocityActual_field sl)) (\<lambda>l. put (\<lambda>f. f\<lparr>f_velocity_actual := l\<rparr>)))
    (em_seq (em_bind (lift_pure (try_resolve_rx m ModeOfOperation_field sl)) (\<lambda>l. put (\<lambda>f. f\<lparr>f_mode_wr := l\<rparr>)))
    (em_seq (em_bind (lift_pure (try_resolve_tx m ModeDisplay_field sl)) (\<lambda>l. put (\<lambda>f. f\<lparr>f_mode_disp := l\<rparr>)))
    (em_modify (\<lambda>s. s\<lparr>pos_hist := replicate (window_slots_for (sv_loop_rate_hz (sv_config s))) 0, pos_hist_idx := 0,
                      pos_hist_filled := 0\<rparr>)))))))))"

text \<open>A refused vendor reset is logged and forgotten.\<close>

definition run_vendor_fault_reset :: "'w soem \<Rightarrow> 'q ServoController \<Rightarrow> ('w Master, unit) em" where
  "run_vendor_fault_reset S s =
     (case vendor_fault_reset_sdo (device s) of
        None \<Rightarrow> em_return ()
      | Some w \<Rightarrow> em_catch (Master_sdo_write S (sv_slave_id (sv_config s)) (sdo_index w) (sdo_subindex w) (sdo_data w))
                   (\<lambda>e. em_return ()))"

definition spawn_config :: "'q ServoController \<Rightarrow> RunnerConfig" where
  "spawn_config s = \<lparr>rt_priority = sv_rt_priority (sv_config s), require_realtime = sv_require_realtime (sv_config s),
     bringup_timeout_ms = 120000, teardown_cycles = teardown_window_cycles s, stop_join_timeout_ms = 0\<rparr>"

subsection \<open>The error text\<close>

definition hex_digit :: "nat \<Rightarrow> char" where
  "hex_digit n = (if n < 10 then char_of (48 + n) else char_of (55 + n))"

text \<open>\<^verbatim>\<open>hex\<close> of \<^verbatim>\<open>util.hpp\<close> at 16 bits: upper-case digits, zero-padded.\<close>

definition hex16 :: "u16 \<Rightarrow> string" where
  "hex16 w = ''0x'' @ map (\<lambda>k. hex_digit (unat (drop_bit k w AND 0xF))) [12, 8, 4, 0]"

fun join_tiers :: "string list \<Rightarrow> string" where
  "join_tiers [] = []"
| "join_tiers [t] = t"
| "join_tiers (t # ts) = t @ ''; '' @ join_tiers ts"

definition drive_tier :: "'q ServoController \<Rightarrow> string list" where
  "drive_tier s =
     (if \<not> drive_faulted (pub s) then []
      else let code = drive_fault_code (pub s) in
        if code \<noteq> 0 \<and> code = estop_fault_code (sv_config s) then [''emergency stop engaged (0x603F '' @ hex16 code @ '')'']
        else if code \<noteq> 0 then
          let gloss = fault_description (device s) code
          in [''drive fault '' @ hex16 code @ (if gloss = [] then [] else '' ('' @ gloss @ '')'')]
        else [''drive fault (code pending)''])"

definition bringup_tier :: "'q ServoController \<Rightarrow> string list" where
  "bringup_tier s =
     (let al = pub_bringup_al_code (pub s) in
      if al = 0 then []
      else [''drive refused OP: AL '' @ hex16 al @
            (if al = 0x0027 \<and> \<not> sv_use_dc (sv_config s)
             then '' (freerun not supported -- set use_distributed_clocks=true for this DC-only drive)'' else [])])"

definition bus_tier :: "'q ServoController \<Rightarrow> string list" where
  "bus_tier s =
     (if wkc_faulted (pub s)
      then [''EtherCAT working-counter fault: got '' @ to_string_int (pub_fault_wkc (pub s)) @ '', expected '' @
            to_string_int (pub_expected_wkc (pub s)) @ '' -- bus re-init required'']
      else [])"

text \<open>The text of a host without real-time scheduling is abridged.\<close>

definition controller_tier :: "'q ServoController \<Rightarrow> string list" where
  "controller_tier s =
     (case rt_error s of
        HandshakeTimeout \<Rightarrow> [''Profile-Position set-point acknowledge timed out'']
      | NotOperational \<Rightarrow> [''drive not operational'']
      | MotorStopped \<Rightarrow> [''motor stopped'']
      | MotorDisabled \<Rightarrow> [''motor disabled'']
      | ModeMismatch \<Rightarrow> [''drive mode-of-operation (0x6061) did not follow the commanded mode'']
      | RtNoRealtime \<Rightarrow> [''realtime scheduling is not available on this machine: priority '' @
                        to_string_int (sv_rt_priority (sv_config s))]
      | RtNone \<Rightarrow> [])"

definition last_error :: "'q ServoController \<Rightarrow> string" where
  "last_error s = join_tiers (drive_tier s @ bringup_tier s @ bus_tier s @ controller_tier s)"

definition degraded_text :: "'q ServoController \<Rightarrow> string" where
  "degraded_text s = (if degraded_reason s = [] then last_error s else degraded_reason s)"

subsection \<open>Guards shared by the verbs\<close>

definition estop_engaged :: "'q ServoController \<Rightarrow> bool" where
  "estop_engaged s \<longleftrightarrow> estop_fault_code (sv_config s) \<noteq> 0 \<and> drive_faulted (pub s)
     \<and> drive_fault_code (pub s) = estop_fault_code (sv_config s)"

definition rt_alive :: "'q ServoController \<Rightarrow> bool" where
  "rt_alive s \<longleftrightarrow> \<not> rt_exited s \<and> \<not> faulted (pub s)"

definition clamp_to_stop_budget :: "'q ServoController \<Rightarrow> i32 \<Rightarrow> i32" where
  "clamp_to_stop_budget s vel =
     (let budget = vel_budget_cps s in
      if budget \<le> 0 \<or> \<bar>sint vel\<bar> \<le> budget then vel
      else if sint vel \<ge> 0 then word_of_int budget else - word_of_int budget)"

definition gen_terminal :: "u32 \<Rightarrow> 'q ServoController \<Rightarrow> bool" where
  "gen_terminal g s \<longleftrightarrow> g \<noteq> 0 \<and> (completed_generation (pub s) = g \<or> failed_generation (pub s) = g)"

definition motion_slot_busy :: "'q ServoController \<Rightarrow> bool" where
  "motion_slot_busy s \<longleftrightarrow> motion_slot s \<noteq> 0 \<and> \<not> gen_terminal (motion_slot s) s"

definition release_motion_slot :: "u32 \<Rightarrow> 'q ServoController \<Rightarrow> 'q ServoController" where
  "release_motion_slot g s = (if motion_slot s = g then s\<lparr>motion_slot := 0\<rparr> else s)"

definition try_claim_motion_slot :: "u32 \<Rightarrow> 'q ServoController \<Rightarrow> bool \<times> 'q ServoController" where
  "try_claim_motion_slot g s =
     (if motion_slot s \<noteq> 0 \<and> \<not> gen_terminal (motion_slot s) s then (False, s) else (True, s\<lparr>motion_slot := g\<rparr>))"

definition refuse_mode_switch_while_moving :: "string \<Rightarrow> MotionCommand \<Rightarrow> 'q ServoController \<Rightarrow> ec_error + unit" where
  "refuse_mode_switch_while_moving verb cmd s =
     (if f_mode_disp (fld s) = None then Inr ()
      else
        let want = mm_mode_required_by (mode_of s) cmd; current = pub_mode_echo (pub s)
        in if current \<noteq> 0 \<and> current \<noteq> want \<and> moving (pub s)
           then Inl (Error (verb @ '': the motor is moving in another mode -- stop the motor before changing mode''))
           else Inr ())"

definition push_command :: "'q spsc_queue \<Rightarrow> Command \<Rightarrow> 'q ServoController \<Rightarrow> 'q ServoController" where
  "push_command Q cmd s = s\<lparr>commands := snd (CommandQueue_push Q cmd (commands s))\<rparr>"

definition next_gen :: "('q ServoController, u32) em" where
  "next_gen = (\<lambda>s. (Inr (next_generation s + 1), s\<lparr>next_generation := next_generation s + 1\<rparr>))"

definition sabs :: "i32 \<Rightarrow> i32" where
  "sabs w = (if sint w < 0 then - w else w)"

subsection \<open>The motion verbs\<close>

definition push_velocity :: "'q spsc_queue \<Rightarrow> double \<Rightarrow> 'q ServoController \<Rightarrow> 'q ServoController" where
  "push_velocity Q rpm s =
     (let c = sv_config s;
          dev = rpm_to_device_velocity (clamp_rpm rpm (max_motor_speed_rpm c)) (counts_per_rev c) (gear_ratio c)
      in push_command Q (CSetVelocity (clamp_to_stop_budget s dev)) s)"

definition set_rpm :: "'q spsc_queue \<Rightarrow> double \<Rightarrow> ('q ServoController, unit) em" where
  "set_rpm Q rpm =
     (\<lambda>s. if degraded s then (Inl (Error (''set_rpm unavailable: '' @ degraded_text s)), s)
          else if estop_engaged s then (Inl (Error ''set_rpm: emergency stop engaged''), s)
          else if motion_slot_busy s then (Inl (Error ''set_rpm: a motion operation is already in progress''), s)
          else case refuse_mode_switch_while_moving ''set_rpm'' VelocityCommand s of
                 Inl e \<Rightarrow> (Inl e, s)
               | Inr _ \<Rightarrow> (Inr (), push_velocity Q rpm s))"

text \<open>Claim a fresh generation and submit a move; the generation is consumed even when the claim is refused.\<close>

definition submit_move ::
    "'q spsc_queue \<Rightarrow> string \<Rightarrow> (u32 \<Rightarrow> SetTarget) \<Rightarrow> ('q ServoController, u32) em" where
  "submit_move Q verb target =
     em_bind next_gen (\<lambda>g s.
       case try_claim_motion_slot g s of
         (False, s') \<Rightarrow> (Inl (Error (verb @ '': a motion operation is already in progress'')), s')
       | (True, s') \<Rightarrow> (Inr g, push_command Q (CSetTarget (target g)) s'))"

definition go_to :: "'q spsc_queue \<Rightarrow> double \<Rightarrow> double \<Rightarrow> ('q ServoController, u32) em" where
  "go_to Q rpm pos =
     (\<lambda>s. let c = sv_config s in
        if degraded s then (Inl (Error (''go_to unavailable: '' @ degraded_text s)), s)
        else if estop_engaged s then (Inl (Error ''go_to: emergency stop engaged''), s)
        else
          let counts = revs_to_counts pos (counts_per_rev c) (gear_ratio c) + zero_offset_counts (pub s)
          in if \<not> isfinite rpm \<or> dle rpm (Fin 0) then (Inl (Error ''go_to: rpm must be a positive number''), s)
             else
               let clamped = clamp_rpm rpm (max_motor_speed_rpm c);
                   prof = clamp_to_stop_budget s (rpm_to_device_velocity clamped (counts_per_rev c) (gear_ratio c))
               in case refuse_mode_switch_while_moving ''go_to'' PositionCommand s of
                    Inl e \<Rightarrow> (Inl e, s)
                  | Inr _ \<Rightarrow> submit_move Q ''go_to''
                      (\<lambda>g. \<lparr>st_counts = counts, st_profile_velocity = sabs prof, st_relative = False, st_generation = g\<rparr>) s)"

definition go_for :: "'q spsc_queue \<Rightarrow> double \<Rightarrow> double \<Rightarrow> ('q ServoController, u32) em" where
  "go_for Q rpm revs =
     (\<lambda>s. let c = sv_config s in
        if degraded s then (Inl (Error (''go_for unavailable: '' @ degraded_text s)), s)
        else if estop_engaged s then (Inl (Error ''go_for: emergency stop engaged''), s)
        else if \<not> isfinite rpm \<or> deq rpm (Fin 0) then (Inl (Error ''go_for: rpm must be non-zero''), s)
        else
          let delta = revs_to_counts (if dlt rpm (Fin 0) then dneg revs else revs) (counts_per_rev c) (gear_ratio c);
              clamped = clamp_rpm (dabs rpm) (max_motor_speed_rpm c);
              prof = rpm_to_device_velocity clamped (counts_per_rev c) (gear_ratio c)
          in case refuse_mode_switch_while_moving ''go_for'' PositionCommand s of
               Inl e \<Rightarrow> (Inl e, s)
             | Inr _ \<Rightarrow> submit_move Q ''go_for''
                 (\<lambda>g. \<lparr>st_counts = delta, st_profile_velocity = sabs prof, st_relative = True, st_generation = g\<rparr>) s)"

definition halt :: "'q spsc_queue \<Rightarrow> 'q ServoController \<Rightarrow> 'q ServoController" where
  "halt Q s = push_command Q CHalt s"

definition request_fault_reset :: "'q spsc_queue \<Rightarrow> 'q ServoController \<Rightarrow> 'q ServoController" where
  "request_fault_reset Q s = push_command Q CFaultReset s"

definition enable :: "'q spsc_queue \<Rightarrow> 'q ServoController \<Rightarrow> 'q ServoController" where
  "enable Q s = push_command Q CEnable s"

definition disable :: "'q spsc_queue \<Rightarrow> 'q ServoController \<Rightarrow> 'q ServoController" where
  "disable Q s = push_command Q CDisable s"

definition set_zero :: "double \<Rightarrow> 'q ServoController \<Rightarrow> 'q ServoController" where
  "set_zero offset_revs s =
     (let cur = position_counts (pub s) in
      if deq offset_revs (Fin 0) then upd_pub (\<lambda>p. p\<lparr>zero_offset_counts := cur\<rparr>) s
      else let offset = revs_to_counts offset_revs (counts_per_rev (sv_config s)) (gear_ratio (sv_config s))
           in upd_pub (\<lambda>p. p\<lparr>zero_offset_counts := cur - offset\<rparr>) s)"

text \<open>Parking: one pass of the wait, with what the failing passes do.\<close>

definition await_move_pass :: "u32 \<Rightarrow> 'q ServoController \<Rightarrow> (ec_error + unit) option \<times> 'q ServoController" where
  "await_move_pass g s =
     (case await_move_poll g s of
        MoveDone \<Rightarrow> (Some (Inr ()), s)
      | MoveStopped \<Rightarrow> (Some (Inl (Error ''move: controller stopped / RT loop not alive'')), release_motion_slot g s)
      | MoveAborted \<Rightarrow> (Some (Inl (Error (''move aborted ('' @ last_error s @ '')''))), release_motion_slot g s)
      | MoveFaulted \<Rightarrow> (Some (Inl (Error (''move: drive faulted ('' @ last_error s @ '')''))), release_motion_slot g s)
      | MoveWait \<Rightarrow> (None, s))"

subsection \<open>Accessors\<close>

definition position_revs :: "'q ServoController \<Rightarrow> double" where
  "position_revs s = counts_to_revs (position_counts (pub s) - zero_offset_counts (pub s))
     (counts_per_rev (sv_config s)) (gear_ratio (sv_config s))"

definition home_position_revs :: "'q ServoController \<Rightarrow> double" where
  "home_position_revs s = counts_to_revs (home_counts (pub s)) (counts_per_rev (sv_config s)) (gear_ratio (sv_config s))"

definition is_moving :: "'q ServoController \<Rightarrow> bool" where
  "is_moving s \<longleftrightarrow> moving (pub s) \<and> rt_alive s \<and> \<not> sv_stopping s"

definition is_powered :: "'q ServoController \<Rightarrow> bool" where
  "is_powered s \<longleftrightarrow> powered (pub s) \<and> rt_alive s \<and> \<not> sv_stopping s"

definition is_disconnected :: "'q ServoController \<Rightarrow> bool" where
  "is_disconnected s \<longleftrightarrow> sv_stopping s \<or> rt_exited s"

definition homing_error_text :: "'q ServoController \<Rightarrow> string" where
  "homing_error_text s =
     (if homing_state (pub s) \<noteq> HomingFailed then [] else to_string_homing_fail (homing_fail (pub s)))"

definition motion_mode_name :: "'q ServoController \<Rightarrow> string" where
  "motion_mode_name s = (case motion s of None \<Rightarrow> ''unselected'' | Some m \<Rightarrow> mm_name m)"

subsection \<open>The velocity guard\<close>



subsection \<open>The reference frame\<close>

lemma upd_pub_same_config [simp]: "sv_config (set_zero r s) = sv_config s"
  by (simp add: set_zero_def Let_def)

text \<open>
  The user's frame. For a drive with a finite non-zero scale: after \<open>set_zero(r)\<close> the controller reads
  position \<open>r\<close> (for every \<open>r\<close> that is a whole number of counts), and a \<open>go_to\<close> of such a position asks for
  exactly the counts at which the controller would read it, whatever zero is in force; the arithmetic
  wraps consistently at 32 bits.
\<close>

theorem user_frame_consistent:
  assumes "counts_per_rev (sv_config s) = Fin cpr" "gear_ratio (sv_config s) = Fin g" "cpr * g \<noteq> 0"
    and "r = counts_to_revs k (Fin cpr) (Fin g)"
  shows "position_revs (set_zero r s) = r
     \<and> position_revs (upd_pub (\<lambda>p. p\<lparr>position_counts := revs_to_counts r (Fin cpr) (Fin g) + zero_offset_counts p\<rparr>) s) = r"
proof -
  have k: "revs_to_counts r (Fin cpr) (Fin g) = k" using assms(3,4) by (simp add: revs_of_counts)
  have nz: "cpr \<noteq> 0" "g \<noteq> 0" using assms(3) by auto
  have "deq r (Fin 0) \<longleftrightarrow> k = 0"
  proof -
    have "deq r (Fin 0) \<longleftrightarrow> real_of_int (sint k) = 0"
      using nz by (simp add: assms(4) counts_to_revs_def Let_def double_of_i32_def)
    also have "\<dots> \<longleftrightarrow> k = 0" by (simp add: signed_eq_0_iff)
    finally show ?thesis .
  qed
  then have "position_revs (set_zero r s) = r"
    using assms(1,2) by (cases "k = 0") (simp_all add: set_zero_def Let_def position_revs_def k [unfolded assms(4)] assms(4))
  moreover have "position_revs (upd_pub (\<lambda>p. p\<lparr>position_counts := revs_to_counts r (Fin cpr) (Fin g) + zero_offset_counts p\<rparr>) s) = r"
    using assms(1,2) by (simp add: position_revs_def k flip: assms(4))
  ultimately show ?thesis ..
qed

subsection \<open>Error text\<close>

lemma join_tiers_infix: "t \<in> set ts \<Longrightarrow> \<exists>a b. join_tiers ts = a @ t @ b"
proof (induction ts rule: join_tiers.induct)
  case (2 t')
  then show ?case by (intro exI [of _ "[]"]) simp
next
  case (3 t' t'' ts)
  show ?case
  proof (cases "t = t'")
    case True
    then show ?thesis by (intro exI [of _ "[]"] exI [of _ "''; '' @ join_tiers (t'' # ts)"]) simp
  next
    case False
    with 3 obtain a b where "join_tiers (t'' # ts) = a @ t @ b" by auto
    then show ?thesis by (intro exI [of _ "t' @ ''; '' @ a"] exI [of _ b]) simp
  qed
qed auto

lemma join_tiers_Nil: "[] \<notin> set ts \<Longrightarrow> join_tiers ts = [] \<longleftrightarrow> ts = []"
  by (induction ts rule: join_tiers.induct) auto

lemma tiers_nonempty: "[] \<notin> set (drive_tier s @ bringup_tier s @ bus_tier s @ controller_tier s)"
  by (auto simp: drive_tier_def bringup_tier_def bus_tier_def controller_tier_def Let_def split: RtError.splits)

text \<open>
  The error text is complete. It is empty exactly when no tier has anything to report (no drive fault,
  no refusal at bring-up, no working-counter fault, no controller error); otherwise it contains the line
  of every tier that has, the emergency stop by its name.
\<close>

theorem last_error_complete:
  "(last_error s = [] \<longleftrightarrow> \<not> drive_faulted (pub s) \<and> pub_bringup_al_code (pub s) = 0 \<and> \<not> wkc_faulted (pub s) \<and> rt_error s = RtNone)
   \<and> (\<forall>t. t \<in> set (drive_tier s @ bringup_tier s @ bus_tier s @ controller_tier s) \<longrightarrow> (\<exists>a b. last_error s = a @ t @ b))
   \<and> (estop_engaged s \<longrightarrow> (\<exists>b. last_error s = ''emergency stop engaged (0x603F '' @ b))"
proof -
  have "join_tiers (t # ts) = t @ join_tiers (t # ts) \<or> (\<exists>b. join_tiers (t # ts) = t @ b)" for t ts
    by (cases ts) auto
  then have hd: "\<exists>b. join_tiers (t # ts) = t @ b" for t ts by (cases ts) auto
  have 1: "last_error s = [] \<longleftrightarrow> drive_tier s = [] \<and> bringup_tier s = [] \<and> bus_tier s = [] \<and> controller_tier s = []"
    using join_tiers_Nil [OF tiers_nonempty [of s]] by (simp add: last_error_def)
  have 2: "drive_tier s = [] \<longleftrightarrow> \<not> drive_faulted (pub s)" "bringup_tier s = [] \<longleftrightarrow> pub_bringup_al_code (pub s) = 0"
    "bus_tier s = [] \<longleftrightarrow> \<not> wkc_faulted (pub s)" "controller_tier s = [] \<longleftrightarrow> rt_error s = RtNone"
    by (auto simp: drive_tier_def bringup_tier_def bus_tier_def controller_tier_def Let_def split: RtError.splits)
  have 3: "estop_engaged s \<Longrightarrow> drive_tier s = [''emergency stop engaged (0x603F '' @ hex16 (drive_fault_code (pub s)) @ '')'']"
    by (simp add: estop_engaged_def drive_tier_def)
  have 4: "\<exists>b. last_error s = ''emergency stop engaged (0x603F '' @ b" if "estop_engaged s"
    using hd [of "''emergency stop engaged (0x603F '' @ hex16 (drive_fault_code (pub s)) @ '')''"
        "bringup_tier s @ bus_tier s @ controller_tier s"] 3 [OF that]
    by (auto simp: last_error_def)
  show ?thesis using 1 2 4 join_tiers_infix by (auto simp: last_error_def)
qed

subsection \<open>What a move verb does\<close>

text \<open>The guards of \<open>go_to\<close>, in the order of the code.\<close>

definition go_to_allowed :: "double \<Rightarrow> 'q ServoController \<Rightarrow> bool" where
  "go_to_allowed rpm s \<longleftrightarrow> \<not> degraded s \<and> \<not> estop_engaged s \<and> isfinite rpm \<and> dlt (Fin 0) rpm
     \<and> refuse_mode_switch_while_moving ''go_to'' PositionCommand s = Inr () \<and> \<not> motion_slot_busy s"

lemma push_command_contents:
  assumes "fifo_contract Q contents cap"
  shows "contents (commands (push_command Q cmd s)) =
     (if length (contents (commands s)) < cap then contents (commands s) @ [cmd] else contents (commands s))"
proof -
  have "if length (contents (commands s)) < cap
        then fst (spsc_push Q cmd (commands s)) \<and> contents (snd (spsc_push Q cmd (commands s))) = contents (commands s) @ [cmd]
        else \<not> fst (spsc_push Q cmd (commands s)) \<and> contents (snd (spsc_push Q cmd (commands s))) = contents (commands s)"
    using assms unfolding fifo_contract_def by blast
  then show ?thesis by (simp add: push_command_def CommandQueue_push_def split: if_splits)
qed

lemma push_command_frame [simp]:
  "motion_slot (push_command Q c s) = motion_slot s" "pub (push_command Q c s) = pub s"
  "next_generation (push_command Q c s) = next_generation s" "sv_config (push_command Q c s) = sv_config s"
  by (simp_all add: push_command_def)

lemma submit_move_cases:
  "submit_move Q verb target s =
     (let s1 = s\<lparr>next_generation := next_generation s + 1\<rparr>; g = next_generation s + 1
      in if motion_slot_busy s then (Inl (Error (verb @ '': a motion operation is already in progress'')), s1)
         else (Inr g, push_command Q (CSetTarget (target g)) (s1\<lparr>motion_slot := g\<rparr>)))"
  by (simp add: submit_move_def next_gen_def em_bind_apply try_claim_motion_slot_def motion_slot_busy_def gen_terminal_def Let_def)

lemma finite_positive: "isfinite rpm \<and> dlt (Fin 0) rpm \<longleftrightarrow> isfinite rpm \<and> \<not> dle rpm (Fin 0)"
  by (cases rpm) (auto simp: dle_def)


lemma list_queue_fifo: "fifo_contract (list_queue n) id n"
  by (auto simp: fifo_contract_def list_queue_def split: list.splits)


text \<open>
  A limit of the verbs: they ignore that the queue may be full. Then \<open>go_to\<close> still owns the slot and parks
  on its generation, but the move was never submitted, and no cycle can complete it.
\<close>

lemma go_to_lost_on_full_queue:
  assumes "fifo_contract Q contents cap" "length (contents (commands s)) = cap" "go_to_allowed rpm s"
  shows "case go_to Q rpm pos s of (r, s') \<Rightarrow>
     r = Inr (next_generation s + 1) \<and> motion_slot s' = next_generation s + 1 \<and> contents (commands s') = contents (commands s)"
proof -
  have "\<not> degraded s" "\<not> estop_engaged s" "isfinite rpm" "\<not> dle rpm (Fin 0)" "\<not> motion_slot_busy s"
    "refuse_mode_switch_while_moving ''go_to'' PositionCommand s = Inr ()"
    using assms(3) finite_positive [of rpm] by (auto simp: go_to_allowed_def)
  then show ?thesis using push_command_contents [OF assms(1)] assms(2)
    by (simp add: go_to_def Let_def submit_move_cases)
qed

end
