(* ===== verification/MotionSlot.thy ===== *)
theory MotionSlot
  imports ServoApi
begin

text \<open>
  The claim of the single motion slot by concurrent callers, \<^verbatim>\<open>try_claim_motion_slot\<close> and
  \<^verbatim>\<open>release_motion_slot\<close> of \<^verbatim>\<open>src/src/viam/lib/servo_controller.cpp\<close>, at the grain of their atomic
  operations: the load of the slot, the test whether the generation in it has ended, and the
  compare-exchange (which may also fail spuriously) are separate steps of any number of callers,
  interleaved with one another, with the RT thread publishing the end of a generation, and with releases.
  The ghost \<open>ended\<close> collects the generations that have ended. Runs are followed up to the wrap of the
  32-bit generation counter.
\<close>

subsection \<open>The interleaving\<close>

datatype caller =
    CIdle
  | CClaim u32
  | CLoop u32 u32
  | CCas u32 u32
  | CWon u32
  | CRefused u32
  | CReleased u32

fun gen_of :: "caller \<Rightarrow> u32 option" where
  "gen_of CIdle = None"
| "gen_of (CClaim g) = Some g"
| "gen_of (CLoop g cur) = Some g"
| "gen_of (CCas g cur) = Some g"
| "gen_of (CWon g) = Some g"
| "gen_of (CRefused g) = Some g"
| "gen_of (CReleased g) = Some g"

record slot_world =
  w_slot :: u32
  w_completed :: u32
  w_failed :: u32
  w_next :: u32
  w_callers :: "nat \<Rightarrow> caller"
  w_ended :: "u32 set"

definition slot_init :: slot_world where
  "slot_init = \<lparr>w_slot = 0, w_completed = 0, w_failed = 0, w_next = 0, w_callers = (\<lambda>_. CIdle), w_ended = {}\<rparr>"

definition w_terminal :: "u32 \<Rightarrow> slot_world \<Rightarrow> bool" where
  "w_terminal g w \<longleftrightarrow> g \<noteq> 0 \<and> (w_completed w = g \<or> w_failed w = g)"

definition goes :: "nat \<Rightarrow> caller \<Rightarrow> slot_world \<Rightarrow> slot_world" where
  "goes t c w = w\<lparr>w_callers := (w_callers w)(t := c)\<rparr>"

inductive slot_step :: "slot_world \<Rightarrow> slot_world \<Rightarrow> bool" where
  fetch: "w_callers w t = CIdle \<Longrightarrow> w_next w + 1 \<noteq> 0 \<Longrightarrow>
    slot_step w ((goes t (CClaim (w_next w + 1)) w)\<lparr>w_next := w_next w + 1\<rparr>)"
| load: "w_callers w t = CClaim g \<Longrightarrow> slot_step w (goes t (CLoop g (w_slot w)) w)"
| refuse: "w_callers w t = CLoop g cur \<Longrightarrow> cur \<noteq> 0 \<Longrightarrow> \<not> w_terminal cur w \<Longrightarrow> slot_step w (goes t (CRefused g) w)"
| pass: "w_callers w t = CLoop g cur \<Longrightarrow> cur = 0 \<or> w_terminal cur w \<Longrightarrow> slot_step w (goes t (CCas g cur) w)"
| cas_ok: "w_callers w t = CCas g cur \<Longrightarrow> w_slot w = cur \<Longrightarrow> slot_step w ((goes t (CWon g) w)\<lparr>w_slot := g\<rparr>)"
| cas_fail: "w_callers w t = CCas g cur \<Longrightarrow> slot_step w (goes t (CLoop g (w_slot w)) w)"
| completes: "w_callers w t \<in> {CWon g, CReleased g} \<Longrightarrow>
    slot_step w (w\<lparr>w_completed := g, w_ended := insert g (w_ended w)\<rparr>)"
| fails: "w_callers w t \<in> {CWon g, CReleased g} \<Longrightarrow>
    slot_step w (w\<lparr>w_failed := g, w_ended := insert g (w_ended w)\<rparr>)"
| release: "w_callers w t = CWon g \<Longrightarrow>
    slot_step w ((goes t (CReleased g) w)\<lparr>w_slot := (if w_slot w = g then 0 else w_slot w), w_ended := insert g (w_ended w)\<rparr>)"

inductive_cases slot_stepE: "slot_step w w'"

subsection \<open>Mutual exclusion\<close>

definition gens_ok :: "slot_world \<Rightarrow> bool" where
  "gens_ok w \<longleftrightarrow> (\<forall>t g. gen_of (w_callers w t) = Some g \<longrightarrow> g \<noteq> 0 \<and> g \<le> w_next w)
     \<and> (\<forall>t u g. gen_of (w_callers w t) = Some g \<longrightarrow> gen_of (w_callers w u) = Some g \<longrightarrow> t = u)"

definition ended_ok :: "slot_world \<Rightarrow> bool" where
  "ended_ok w \<longleftrightarrow> w_completed w \<in> insert 0 (w_ended w) \<and> w_failed w \<in> insert 0 (w_ended w)
     \<and> (\<forall>t g cur. w_callers w t = CCas g cur \<longrightarrow> cur \<in> insert 0 (w_ended w))"

definition owner_ok :: "slot_world \<Rightarrow> bool" where
  "owner_ok w \<longleftrightarrow> (\<forall>t g. w_callers w t = CWon g \<longrightarrow> g \<notin> w_ended w \<longrightarrow> w_slot w = g)"

lemma goes_sel [simp]:
  "w_callers (goes t c w) u = (if u = t then c else w_callers w u)" "w_slot (goes t c w) = w_slot w"
  "w_completed (goes t c w) = w_completed w" "w_failed (goes t c w) = w_failed w" "w_next (goes t c w) = w_next w"
  "w_ended (goes t c w) = w_ended w"
  by (simp_all add: goes_def)

lemma gens_ok_won:
  assumes "gens_ok w" "w_callers w u = CWon h"
  shows "h \<noteq> 0" "w_callers w t = CWon h \<Longrightarrow> u = t"
proof -
  have u: "gen_of (w_callers w u) = Some h" using assms(2) by simp
  with assms(1) show "h \<noteq> 0" unfolding gens_ok_def by blast
  assume "w_callers w t = CWon h"
  then have "gen_of (w_callers w t) = Some h" by simp
  with u assms(1) show "u = t" unfolding gens_ok_def by blast
qed

lemma gens_ok_same:
  assumes "gens_ok w" "w_next w' = w_next w" "\<And>u. gen_of (w_callers w' u) = gen_of (w_callers w u)"
  shows "gens_ok w'"
  using assms by (simp add: gens_ok_def)

lemma step_gens_ok: "slot_step w w' \<Longrightarrow> gens_ok w \<Longrightarrow> gens_ok w'"
proof (induction rule: slot_step.induct)
  case (fetch w t)
  have lt: "w_next w < w_next w + 1" 
  proof -
    have "Suc (unat (w_next w)) < 2 ^ 32"
    proof (rule ccontr)
      assume "\<not> Suc (unat (w_next w)) < 2 ^ 32"
      then have "Suc (unat (w_next w)) = 2 ^ 32" 
      proof -
        have "unat (w_next w) < 2 ^ LENGTH(32)" by (rule unsigned_less)
        with \<open>\<not> Suc (unat (w_next w)) < 2 ^ 32\<close> show ?thesis by simp
      qed
      then have "unat (w_next w + 1) = 0" by (simp add: unat_word_ariths)
      with fetch(2) show False by (simp add: unat_eq_zero)
    qed
    then show ?thesis by (simp add: word_less_nat_alt unat_plus_one)
  qed
  have "gen_of (w_callers w u) = Some g \<Longrightarrow> g \<noteq> 0 \<and> g < w_next w + 1" for u g
    using fetch(3) lt by (auto simp: gens_ok_def intro: le_less_trans)
  moreover have "gen_of (w_callers w u) = Some g \<Longrightarrow> gen_of (w_callers w v) = Some g \<Longrightarrow> u = v" for u v g
    using fetch(3) by (auto simp: gens_ok_def)
  ultimately show ?case using fetch(2) by (fastforce simp: gens_ok_def)
qed (erule gens_ok_same; auto)+

lemma step_ended_ok: "slot_step w w' \<Longrightarrow> ended_ok w \<Longrightarrow> ended_ok w'"
  by (induction rule: slot_step.induct) (auto simp: ended_ok_def w_terminal_def)

lemma step_owner_ok: "slot_step w w' \<Longrightarrow> gens_ok w \<Longrightarrow> ended_ok w \<Longrightarrow> owner_ok w \<Longrightarrow> owner_ok w'"
proof (induction rule: slot_step.induct)
  case (cas_ok w t g cur)
  have "h \<in> w_ended w" if won: "w_callers w u = CWon h" for u h
  proof (rule ccontr)
    assume "h \<notin> w_ended w"
    with won cas_ok(2,5) have "h = cur" by (auto simp: owner_ok_def)
    moreover have "cur \<in> insert 0 (w_ended w)" using cas_ok(1,4) by (auto simp: ended_ok_def)
    moreover have "h \<noteq> 0" by (rule gens_ok_won(1) [OF cas_ok(3) won])
    ultimately show False using \<open>h \<notin> w_ended w\<close> by simp
  qed
  then show ?case by (auto simp: owner_ok_def)
next
  case (release w t g)
  have "w_callers w u = CWon h \<Longrightarrow> u \<noteq> t \<Longrightarrow> h \<noteq> g" for u h
    using gens_ok_won(2) [OF release(2,1)] by blast
  with release(4) show ?case by (auto simp: owner_ok_def)
qed (auto simp: owner_ok_def split: if_splits)

definition slot_inv :: "slot_world \<Rightarrow> bool" where
  "slot_inv w \<longleftrightarrow> gens_ok w \<and> ended_ok w \<and> owner_ok w"

lemma slot_inv_reachable: "slot_step\<^sup>*\<^sup>* slot_init w \<Longrightarrow> slot_inv w"
proof (induction rule: rtranclp_induct)
  case base
  show ?case by (simp add: slot_inv_def gens_ok_def ended_ok_def owner_ok_def slot_init_def)
next
  case (step w w')
  then show ?case by (auto simp: slot_inv_def step_gens_ok step_ended_ok step_owner_ok)
qed

text \<open>
  C3. At most one blocking move. However many callers race for the motion slot, in whatever order their
  loads, tests and compare-exchanges interleave with each other, with the RT thread and with releases, at
  no time do two of them own it for a move that has not ended: of two callers that won, at least one
  won's move had already completed, failed or been released.
\<close>

theorem single_move_in_flight:
  assumes "slot_step\<^sup>*\<^sup>* slot_init w"
    and "w_callers w t = CWon g" "g \<notin> w_ended w" "w_callers w u = CWon h" "h \<notin> w_ended w"
  shows "t = u \<and> g = h"
proof -
  have inv: "slot_inv w" by (rule slot_inv_reachable [OF assms(1)])
  then have "w_slot w = g" "w_slot w = h" using assms(2-5) by (auto simp: slot_inv_def owner_ok_def)
  then have "g = h" by simp
  with gens_ok_won(2) [of w t g u] inv assms(2,4) show ?thesis by (simp add: slot_inv_def)
qed

theorem single_move_in_flight_witness:
  "\<exists>w. slot_step\<^sup>*\<^sup>* slot_init w \<and> w_callers w 0 = CWon 1 \<and> 1 \<notin> w_ended w \<and> w_callers w 1 = CRefused 2
     \<and> (\<forall>u h. w_callers w u = CWon h \<longrightarrow> h \<notin> w_ended w \<longrightarrow> u = 0)"
proof -
  let ?w1 = "(goes 0 (CClaim 1) slot_init)\<lparr>w_next := 1\<rparr>"
  let ?w2 = "(goes 1 (CClaim 2) ?w1)\<lparr>w_next := 2\<rparr>"
  let ?w3 = "goes 0 (CLoop 1 0) ?w2"
  let ?w4 = "goes 0 (CCas 1 0) ?w3"
  let ?w5 = "(goes 0 (CWon 1) ?w4)\<lparr>w_slot := 1\<rparr>"
  let ?w6 = "goes 1 (CLoop 2 1) ?w5"
  let ?w7 = "goes 1 (CRefused 2) ?w6"
  have s: "slot_step slot_init ?w1" "slot_step ?w1 ?w2" "slot_step ?w2 ?w3" "slot_step ?w3 ?w4" "slot_step ?w4 ?w5"
    "slot_step ?w5 ?w6" "slot_step ?w6 ?w7"
    using fetch [of slot_init 0] fetch [of ?w1 1] load [of ?w2 0 1] pass [of ?w3 0 1 0] cas_ok [of ?w4 0 1 0]
      load [of ?w5 1 2] refuse [of ?w6 1 2 1]
    by (simp_all add: slot_init_def w_terminal_def)
  then have r: "slot_step\<^sup>*\<^sup>* slot_init ?w7" by (meson converse_rtranclp_into_rtranclp rtranclp.rtrancl_refl)
  have won: "w_callers ?w7 0 = CWon 1" "1 \<notin> w_ended ?w7" "w_callers ?w7 1 = CRefused 2" by (simp_all add: slot_init_def)
  have "u = 0" if "w_callers ?w7 u = CWon h" "h \<notin> w_ended ?w7" for u h
    using single_move_in_flight [OF r that won(1,2)] by simp
  with r won show ?thesis by blast
qed

subsection \<open>The uninterrupted claim\<close>

text \<open>
  The function the verbs use is the run of one caller without interference: from a world with the slot and
  the published generations of the controller, the caller reaches the outcome \<open>try_claim_motion_slot\<close>
  computes.
\<close>

definition sees :: "slot_world \<Rightarrow> 'q ServoController \<Rightarrow> bool" where
  "sees w s \<longleftrightarrow> w_slot w = motion_slot s \<and> w_completed w = completed_generation (pub s) \<and> w_failed w = failed_generation (pub s)"

lemma claim_uninterrupted:
  assumes "sees w s" "w_callers w t = CClaim g" "try_claim_motion_slot g s = (ok, s')"
  shows "\<exists>w'. slot_step\<^sup>*\<^sup>* w w' \<and> sees w' s' \<and> w_callers w' t = (if ok then CWon g else CRefused g)"
proof -
  let ?cur = "w_slot w" and ?w1 = "goes t (CLoop g (w_slot w)) w"
  have 1: "slot_step w ?w1" by (rule load [OF assms(2)])
  have tm: "w_terminal ?cur ?w1 \<longleftrightarrow> gen_terminal (motion_slot s) s"
    using assms(1) by (auto simp: w_terminal_def gen_terminal_def sees_def)
  show ?thesis
  proof (cases "motion_slot_busy s")
    case True
    then have "\<not> ok" "s' = s" using assms(3) by (auto simp: try_claim_motion_slot_def motion_slot_busy_def split: if_splits)
    moreover have "slot_step ?w1 (goes t (CRefused g) ?w1)"
      using True tm assms(1) by (intro refuse [of _ _ _ ?cur]) (auto simp: motion_slot_busy_def sees_def)
    ultimately show ?thesis
      using 1 assms(1) by (intro exI [of _ "goes t (CRefused g) ?w1"]) (auto simp: sees_def)
  next
    case False
    let ?w2 = "goes t (CCas g ?cur) ?w1"
    let ?w3 = "(goes t (CWon g) ?w2)\<lparr>w_slot := g\<rparr>"
    have ok: "ok" "s' = s\<lparr>motion_slot := g\<rparr>"
      using False assms(3) by (auto simp: try_claim_motion_slot_def motion_slot_busy_def split: if_splits)
    have 2: "slot_step ?w1 ?w2"
      using False tm assms(1) by (intro pass) (auto simp: motion_slot_busy_def sees_def)
    have 3: "slot_step ?w2 ?w3" by (rule cas_ok [of _ _ _ ?cur]) simp_all
    have "slot_step\<^sup>*\<^sup>* w ?w3" using 1 2 3 by (meson converse_rtranclp_into_rtranclp rtranclp.rtrancl_refl)
    moreover have "sees ?w3 s'" using assms(1) ok by (simp add: sees_def)
    ultimately show ?thesis using ok by (intro exI [of _ ?w3]) simp
  qed
qed

end
