(* ===== verification/ControlContract.thy ===== *)
theory ControlContract
  imports Runner
begin

text \<open>
  The contract between the runner and the controls attached to it, as a locale: a predicate that every
  hook of a control keeps is kept by every cycle of the RT loop of \<^verbatim>\<open>src/src/ethercat/runner.cpp\<close>.
\<close>

subsection \<open>Invariants of the attached control\<close>

text \<open>
  The contract between the runner and a control: what every hook keeps, every cycle of the RT loop
  keeps. \<open>all_controls\<close> says that all controls of a runner have the given hooks and satisfy the given
  predicate.
\<close>

definition all_controls :: "('w, 's) SlaveControl \<Rightarrow> ('s \<Rightarrow> bool) \<Rightarrow> nat \<Rightarrow> ('w, 's) RtCore \<Rightarrow> bool" where
  "all_controls ops P n core \<longleftrightarrow>
     length (controls core) = n \<and> list_all (\<lambda>a. at_ops a = ops \<and> P (at_control a)) (controls core)"

lemma all_controls_cong: "controls core = controls core' \<Longrightarrow> all_controls ops P n core = all_controls ops P n core'"
  by (simp add: all_controls_def)

lemma all_controls_update [simp]: "all_controls ops P n (core\<lparr>controls := as\<rparr>) \<longleftrightarrow>
    length as = n \<and> list_all (\<lambda>a. at_ops a = ops \<and> P (at_control a)) as"
  by (simp add: all_controls_def)

locale control_invariant =
  fixes ops :: "('w, 's) SlaveControl"
    and P :: "'s \<Rightarrow> bool"
  assumes keeps_operational: "P s \<Longrightarrow> P (snd (sc_on_operational ops c s))"
    and keeps_stop: "P s \<Longrightarrow> P (sc_on_stop ops m why s)"
    and keeps_step: "P s \<Longrightarrow> P (snd (sc_step ops c s))"
    and keeps_sync: "P s \<Longrightarrow> P (snd (sc_sync_faulted ops c s))"
    and keeps_stage: "P s \<Longrightarrow> P (snd (sc_stage_bringup_outputs ops c s))"
begin

lemma dispatch_keeps:
  assumes "\<And>c s. P s \<Longrightarrow> P (snd (fn ops c s))" "at_ops a = ops" "P (at_control a)"
  shows "at_ops (fst (dispatch n dc st h fn a core)) = ops" "P (at_control (fst (dispatch n dc st h fn a core)))"
  using assms by (simp_all add: dispatch_def split_beta)

lemma dispatch_all_keeps:
  assumes "\<And>c s. P s \<Longrightarrow> P (snd (fn ops c s))" "list_all (\<lambda>a. at_ops a = ops \<and> P (at_control a)) as"
  shows "list_all (\<lambda>a. at_ops a = ops \<and> P (at_control a)) (fst (dispatch_all n dc st h fn as core))
    \<and> length (fst (dispatch_all n dc st h fn as core)) = length as"
  using assms(2) by (induction as arbitrary: core) (auto simp: split_beta dispatch_keeps assms(1))

lemma run_hooks_keeps:
  assumes "\<And>c s. P s \<Longrightarrow> P (snd (fn ops c s))" "all_controls ops P k core"
  shows "all_controls ops P k (run_hooks n dc st h fn core)"
  using dispatch_all_keeps [where fn = fn and as = "controls core" and n = n and dc = dc and st = st and h = h and core = core] assms
  by (simp add: run_hooks_def split_beta) (simp add: all_controls_def)

lemma bringup_dispatch_keeps:
  assumes "list_all (\<lambda>a. at_ops a = ops \<and> P (at_control a)) as"
  shows "list_all (\<lambda>a. at_ops a = ops \<and> P (at_control a)) (fst (bringup_dispatch dc as g core))
    \<and> length (fst (bringup_dispatch dc as g core)) = length as"
  using assms
proof (induction as arbitrary: g core)
  case (Cons a as)
  let ?c = "make_ctx core (at_slave_id a) 0 dc False"
  let ?s = "snd (if fst g then (True, at_control a) else sc_sync_faulted (at_ops a) ?c (at_control a))"
  have "P ?s" using Cons.prems keeps_sync by auto
  then have "at_ops (fst (dispatch 0 dc False HBringup sc_stage_bringup_outputs (a\<lparr>at_control := ?s\<rparr>) core)) = ops
     \<and> P (at_control (fst (dispatch 0 dc False HBringup sc_stage_bringup_outputs (a\<lparr>at_control := ?s\<rparr>) core)))"
    using Cons.prems keeps_stage by (intro conjI dispatch_keeps) auto
  then show ?case using Cons by (simp add: split_beta Let_def)
qed simp

lemma call_on_stop_keeps: "all_controls ops P n core \<Longrightarrow> all_controls ops P n (call_on_stop r core)"
  by (auto simp: all_controls_def call_on_stop_def list_all_iff keeps_stop)

lemma bringup_turn_keeps:
  assumes "all_controls ops P n core"
  shows "all_controls ops P n (rt_bringup_turn S env core)"
proof -
  obtain as g core1 where d: "bringup_dispatch (cycle_dc (rt_master core)) (controls core) (False, True) core = (as, g, core1)"
    by (metis prod_cases3)
  obtain f p where g: "g = (f, p)" by (cases g)
  obtain bs m where b: "Master_bringup_step S f p (rt_master core1) = (bs, m)" by fastforce
  define core2 where "core2 = core1\<lparr>controls := as, rt_master := m, pacer := pace_skip (pacer core1) (cycle_dc m) (e_skips env)\<rparr>"
  have 2: "all_controls ops P n core2"
    using bringup_dispatch_keeps [of "controls core" "cycle_dc (rt_master core)" "(False, True)" core] assms d
    by (simp add: core2_def all_controls_def)
  have fin: "all_controls ops P n (finish_without_op c)" if "all_controls ops P n c" for c
    using call_on_stop_keeps [of n "latch_reason Requested c"] that
    by (simp add: finish_without_op_def Let_def all_controls_def)
  have op: "all_controls ops P n (enter_operational core2)"
    using run_hooks_keeps [of sc_on_operational n "core2\<lparr>phase := PhRunning\<rparr>"] 2 keeps_operational
    by (simp add: enter_operational_def all_controls_def)
  have ab: "all_controls ops P n (finish_without_op (latch_reason BringupAbortedReason core2))"
    using 2 by (intro fin) (simp add: all_controls_def)
  show ?thesis
    using assms 2 fin op ab by (simp add: rt_bringup_turn_def d g b core2_def [symmetric] fin)
qed

lemma steady_turn_keeps:
  assumes "all_controls ops P n core"
  shows "all_controls ops P n (rt_steady_turn S env core)"
proof -
  have "all_controls ops P n (steady_head S core)"
    using assms call_on_stop_keeps [of n] by (simp add: steady_head_def Let_def all_controls_def)
  then have h: "all_controls ops P n (run_hooks k dc st h sc_step (steady_head S core))" for k dc st h
    by (intro run_hooks_keeps keeps_step)
  have "controls (steady_tail c) = controls c" for c :: "('w, 's) RtCore"
    by (simp add: steady_tail_def Let_def)
  then show ?thesis using h by (simp add: rt_steady_turn_def Let_def all_controls_def)
qed

lemma rt_cycle_keeps:
  assumes "all_controls ops P n core"
  shows "all_controls ops P n (rt_cycle S core env)"
proof -
  have "all_controls ops P n (if e_stop env then RtCore_request_stop core else core)"
    using assms by (simp add: all_controls_def)
  then show ?thesis
    using assms by (cases "pc (if e_stop env then RtCore_request_stop core else core)")
      (simp_all add: rt_cycle_def Let_def bringup_turn_keeps steady_turn_keeps)
qed

lemma run_keeps: "all_controls ops P n core \<Longrightarrow> all_controls ops P n (foldl (rt_cycle S) core envs)"
  by (induction envs arbitrary: core) (simp_all add: rt_cycle_keeps)

end

subsection \<open>The bring-up in the loop\<close>

text \<open>
  The hooks write only the process image of the master, so the master's own bring-up procedure makes
  its progress inside the RT loop.
\<close>

lemma write_outputs_bringup [simp]:
  "bringup_inv (Master_write_outputs sl bs m) = bringup_inv m"
  "bringup_over (Master_write_outputs sl bs m) = bringup_over m"
  "bringup_bound (Master_write_outputs sl bs m) = bringup_bound m"
proof -
  have "settle_target (m\<lparr>backend := b\<rparr>) = settle_target m" for b by (rule settle_target_cong) simp_all
  then show "bringup_inv (Master_write_outputs sl bs m) = bringup_inv m"
    "bringup_over (Master_write_outputs sl bs m) = bringup_over m"
    "bringup_bound (Master_write_outputs sl bs m) = bringup_bound m"
    by (simp_all add: Master_write_outputs_def bringup_inv_def bringup_over_def bringup_bound_def
        split: option.splits BringupPhase.splits)
qed

lemma dispatch_bringup [simp]:
  "bringup_inv (rt_master (snd (dispatch n dc st h fn a core))) = bringup_inv (rt_master core)"
  "bringup_over (rt_master (snd (dispatch n dc st h fn a core))) = bringup_over (rt_master core)"
  "bringup_bound (rt_master (snd (dispatch n dc st h fn a core))) = bringup_bound (rt_master core)"
  by (simp_all add: dispatch_def split_beta apply_ctx_def Let_def)

lemma bringup_dispatch_bringup [simp]:
  "bringup_inv (rt_master (snd (snd (bringup_dispatch dc as g core)))) = bringup_inv (rt_master core)"
  "bringup_over (rt_master (snd (snd (bringup_dispatch dc as g core)))) = bringup_over (rt_master core)"
  "bringup_bound (rt_master (snd (snd (bringup_dispatch dc as g core)))) = bringup_bound (rt_master core)"
  by (induction as arbitrary: core g) (simp_all add: split_beta Let_def)

lemma bringup_step_goes_on:
  assumes "Master_bringup_step S f p m = (bs, m')" "\<not> bringup_over m" "bs \<noteq> StOperational" "bs \<noteq> StAborted"
  shows "\<not> bringup_over m'"
proof -
  have m': "m' = bringup_cycle S m (f, p)" by (simp add: bringup_cycle_def assms(1))
  show ?thesis
  proof (cases "bringup_phase m")
    case Settle
    then show ?thesis by (simp add: m' bringup_over_def bringup_cycle_Settle)
  next
    case AwaitOp
    then have "bringup_phase m' = AwaitOp"
      using assms(1,3,4) by (auto simp: Master_bringup_step_def bringup_await_def Let_def await_observe_sel
          split: prod.splits if_splits)
    then show ?thesis by (simp add: bringup_over_def)
  qed (use assms(2) in \<open>simp_all add: bringup_over_def\<close>)
qed

definition bringing_up :: "('w, 's) RtCore \<Rightarrow> bool" where
  "bringing_up core \<longleftrightarrow> loop_inv core
     \<and> (pc core = PcBringup \<longrightarrow> bringup_inv (rt_master core) \<and> \<not> bringup_over (rt_master core))"

definition bringup_left :: "('w, 's) RtCore \<Rightarrow> nat" where
  "bringup_left core = (if pc core = PcBringup then bringup_bound (rt_master core) else 0)"

lemma bringup_turn_progress:
  assumes "bringing_up core" "pc core = PcBringup"
  shows "pc (rt_bringup_turn S env core) \<noteq> PcBringup \<or>
    bringup_inv (rt_master (rt_bringup_turn S env core)) \<and> \<not> bringup_over (rt_master (rt_bringup_turn S env core))
    \<and> bringup_bound (rt_master (rt_bringup_turn S env core)) < bringup_bound (rt_master core)"
proof (cases "stop_flag core")
  case True
  then show ?thesis using bringup_turn_stops [of core S env] by simp
next
  case False
  obtain as f p core1 where d: "bringup_dispatch (cycle_dc (rt_master core)) (controls core) (False, True) core = (as, (f, p), core1)"
    by (metis prod_cases3 surj_pair)
  obtain bs m where b: "Master_bringup_step S f p (rt_master core1) = (bs, m)" by fastforce
  have m: "m = bringup_cycle S (rt_master core1) (f, p)" by (simp add: bringup_cycle_def b)
  note v = bringup_dispatch_bringup [of "cycle_dc (rt_master core)" "controls core" "(False, True)" core, unfolded d, simplified]
  have mi: "bringup_inv (rt_master core1)" "\<not> bringup_over (rt_master core1)" "bringup_bound (rt_master core1) = bringup_bound (rt_master core)"
    using assms v by (simp_all add: bringing_up_def)
  define core2 where "core2 = core1\<lparr>controls := as, rt_master := m, pacer := pace_skip (pacer core1) (cycle_dc m) (e_skips env)\<rparr>"
  have t: "rt_bringup_turn S env core =
      (if bs = StOperational then enter_operational core2
       else if bs = StAborted \<or> e_now env \<ge> give_up_at core2
       then finish_without_op (latch_reason BringupAbortedReason core2) else core2)"
    using False by (simp add: rt_bringup_turn_def d b core2_def)
  have e: "pc (enter_operational core2) = PcSteady" "pc (finish_without_op c) = PcEnd" for c :: "('a, 'b) RtCore"
    by (simp_all add: enter_operational_def finish_without_op_def Let_def)
  have "bringup_inv m" unfolding m by (rule bringup_inv_step) (rule mi(1))
  moreover have "bringup_bound m < bringup_bound (rt_master core)" using bringup_bound_step [OF mi(1,2), of S "(f, p)"] mi(3) m by simp
  moreover have "bs \<noteq> StOperational \<Longrightarrow> bs \<noteq> StAborted \<Longrightarrow> \<not> bringup_over m" by (rule bringup_step_goes_on [OF b mi(2)])
  ultimately show ?thesis using e by (auto simp: t core2_def)
qed

lemma steady_turn_pc: "pc core = PcSteady \<Longrightarrow> pc (rt_steady_turn S env core) \<noteq> PcBringup"
proof -
  have h: "pc (steady_head S core) = pc core" by (simp add: steady_head_def Let_def)
  have t: "pc (steady_tail c) \<noteq> PcBringup" if "pc c = PcSteady" for c :: "('a, 'b) RtCore"
    using that by (simp add: steady_tail_def Let_def)
  assume "pc core = PcSteady"
  then show ?thesis unfolding rt_steady_turn_def Let_def by (intro t) (simp add: h)
qed

interpretation rt_bringup: cyclic_progress "rt_cycle S" bringing_up "\<lambda>_. True" "\<lambda>core. pc core \<noteq> PcBringup" bringup_left
  for S
proof
  fix core :: "('a, 'b) RtCore" and env :: rt_env
  define c where "c = (if e_stop env then RtCore_request_stop core else core)"
  have c: "bringing_up core \<Longrightarrow> bringing_up c" "pc c = pc core" "bringup_left c = bringup_left core"
    by (simp_all add: c_def bringing_up_def bringup_left_def loop_inv_request)
  have cyc: "rt_cycle S core env = (case pc core of PcBringup \<Rightarrow> rt_bringup_turn S env c | PcSteady \<Rightarrow> rt_steady_turn S env c | PcEnd \<Rightarrow> c)"
    by (simp add: rt_cycle_def c_def [symmetric] c(2) Let_def)
  have out: "pc (rt_cycle S core env) \<noteq> PcBringup" if "pc core \<noteq> PcBringup"
    using that steady_turn_pc [of c S env] c(2) by (cases "pc core") (simp_all add: cyc)
  show "pc core \<noteq> PcBringup \<Longrightarrow> pc (rt_cycle S core env) \<noteq> PcBringup" by (rule out)
  show "bringing_up core \<Longrightarrow> bringing_up (rt_cycle S core env)"
  proof -
    assume b: "bringing_up core"
    then have "loop_inv (rt_cycle S core env)" by (intro rt_loop.step_inv) (simp add: bringing_up_def)
    then show ?thesis
      using out bringup_turn_progress [OF c(1) [OF b], of S env] c(2)
      by (cases "pc core") (auto simp: bringing_up_def cyc)
  qed
  show "bringing_up core \<Longrightarrow> \<not> pc core \<noteq> PcBringup \<Longrightarrow> bringup_left (rt_cycle S core env) < bringup_left core"
  proof -
    assume b: "bringing_up core" and "\<not> pc core \<noteq> PcBringup"
    then have p: "pc core = PcBringup" by simp
    have "0 < bringup_bound (rt_master core)"
      using b p by (auto simp: bringing_up_def bringup_inv_def bringup_over_def bringup_bound_def word_less_nat_alt
          split: BringupPhase.splits)
    then show ?thesis
      using bringup_turn_progress [OF c(1) [OF b], of S env] c(2,3) p
      by (auto simp: cyc bringup_left_def c_def)
  qed
qed

text \<open>
  C19. Every bring-up has an outcome. A runner started on a configured master leaves the bring-up phase
  after at most the settle cycles plus the await bound of the master, whatever the bus, the drives, the
  controls and the stop requests do: it is then running, stopping or stopped, so the owner's poll for
  one of these outcomes cannot hang on a silent RT thread.
\<close>

theorem bringup_has_outcome:
  assumes "runner_fresh core" "Runner_start conf rt_ok now core = (Inr (), core0)"
    and "bringup_phase (rt_master core0) = Settle" "bringup_settle_count (rt_master core0) = 0"
    and "0 < m_op_await_bound_cycles (rt_master core0)"
    and "unat (settle_target (rt_master core0)) + unat (m_op_await_bound_cycles (rt_master core0)) \<le> length envs"
  shows "phase (foldl (rt_cycle S) core0 envs) \<in> {PhRunning, PhStopping, PhStopped}"
proof -
  have inv: "loop_inv core0" by (rule Runner_start_inv [OF assms(1,2)])
  have "0 < settle_target (rt_master core0)" by (simp add: settle_target_def word_gt_0)
  then have b: "bringing_up core0"
    using inv assms(3-5) by (simp add: bringing_up_def bringup_inv_def bringup_over_def)
  have "pc (foldl (rt_cycle S) core0 envs) \<noteq> PcBringup"
  proof (rule rt_bringup.run_reaches_done)
    show "bringup_left core0 \<le> length envs" using assms(3,4,6) by (simp add: bringup_left_def bringup_bound_def)
    show "pc core0 \<noteq> PcBringup \<or> envs \<noteq> []" using assms(5,6) by (auto simp: word_less_nat_alt)
  qed (use b in \<open>simp_all add: list_all_iff\<close>)
  moreover have "loop_inv (foldl (rt_cycle S) core0 envs)" by (rule rt_loop.run_inv) (rule inv)
  ultimately show ?thesis by (auto simp: loop_inv_def loop_phase_def split: rt_pc.splits if_splits)
qed

theorem bringup_has_outcome_witness:
  "\<exists>core0. Runner_start (\<lambda>_ s m. (Inr s, m)) True 0 demo_runner = (Inr (), core0)
     \<and> phase (foldl (rt_cycle demo_soem) core0 (replicate 4 demo_env)) \<in> {PhRunning, PhStopping, PhStopped}"
proof -
  define core0 where "core0 = snd (Runner_start (\<lambda>_ s m. (Inr s, m)) True 0 demo_runner)"
  have st: "Runner_start (\<lambda>_ s m. (Inr s, m)) True 0 demo_runner = (Inr (), core0)"
    by (simp add: core0_def Runner_start_def em_bind_apply em_seq_apply demo_runner_def Runner_new_def upt_rec Let_def)
  have m: "rt_master core0 = demo_master"
    by (simp add: core0_def Runner_start_def em_bind_apply em_seq_apply demo_runner_def Runner_new_def upt_rec Let_def
        rt_prelude_def)
  have "m_op_await_bound_cycles demo_master = 3" "settle_target demo_master = 1"
    "bringup_phase demo_master = Settle" "bringup_settle_count demo_master = 0"
    by (simp_all add: demo_master_def Master_new_def demo_config_def MasterConfig_default_def check_def
        await_bound_def settle_target_def)
  with bringup_has_outcome [OF demo_runner_fresh st, of "replicate 4 demo_env" demo_soem] m st show ?thesis by auto
qed

end
