(* ===== verification/ServoHost.thy ===== *)
theory ServoHost
  imports ServoApi ControlContract
begin

text \<open>
  The owner of a servo run, \<^verbatim>\<open>src/src/viam/lib/servo_controller.cpp\<close>: start, stop, reconfigure, the bring-up
  with its retries and the recovery after a bus loss. Here the controller of the RT side, the runner and
  the master are composed: the controller is the control attached to the runner, its stop hook reads
  the runner's master, and the owner builds and drops both.

  A host operation runs under the exclusive lock. While it waits (for the outcome of a bring-up, for
  the RT thread to end) the RT thread runs; the cycles it runs meanwhile are an input, one list of
  cycle inputs for every wait. So are the SOEM context a new master starts from, the result of the
  real-time probes and the clock. A null pointer is \<open>None\<close>. Log lines are left out.
\<close>

subsection \<open>Computations of the owner\<close>

text \<open>
  An operation that throws or returns, or does neither: the value \<open>None\<close> stands for the process abort
  with which the runner ends a wedged stop, for a caller that is still parked when its inputs end, and
  for undefined behaviour of an encoder.
\<close>

type_synonym ('s, 'a) hm = "'s \<Rightarrow> ((ec_error + 'a) \<times> 's) option"

definition hm_lift :: "('s, 'a) em \<Rightarrow> ('s, 'a) hm" where
  "hm_lift m = (\<lambda>s. Some (m s))"

definition hm_bind :: "('s, 'a) hm \<Rightarrow> ('a \<Rightarrow> ('s, 'b) hm) \<Rightarrow> ('s, 'b) hm" where
  "hm_bind m f = (\<lambda>s. case m s of
      None \<Rightarrow> None
    | Some (Inl e, s') \<Rightarrow> Some (Inl e, s')
    | Some (Inr x, s') \<Rightarrow> f x s')"

definition hm_seq :: "('s, 'a) hm \<Rightarrow> ('s, 'b) hm \<Rightarrow> ('s, 'b) hm" where
  "hm_seq m k = hm_bind m (\<lambda>_. k)"

definition hm_catch :: "('s, 'a) hm \<Rightarrow> (ec_error \<Rightarrow> ('s, 'a) hm) \<Rightarrow> ('s, 'a) hm" where
  "hm_catch m h = (\<lambda>s. case m s of
      None \<Rightarrow> None
    | Some (Inl e, s') \<Rightarrow> h e s'
    | Some (Inr x, s') \<Rightarrow> Some (Inr x, s'))"

lemma hm_lift_apply [simp]: "hm_lift m s = Some (m s)"
  by (simp add: hm_lift_def)

lemma hm_bind_Inr_iff:
  "hm_bind m f s = Some (Inr y, t) \<longleftrightarrow> (\<exists>x u. m s = Some (Inr x, u) \<and> f x u = Some (Inr y, t))"
  by (auto simp: hm_bind_def split: option.splits prod.splits sum.splits)

lemma hm_seq_Inr_iff:
  "hm_seq m k s = Some (Inr y, t) \<longleftrightarrow> (\<exists>x u. m s = Some (Inr x, u) \<and> k u = Some (Inr y, t))"
  by (simp add: hm_seq_def hm_bind_Inr_iff)

lemma hm_bind_Inl_iff:
  "hm_bind m f s = Some (Inl e, t) \<longleftrightarrow>
     m s = Some (Inl e, t) \<or> (\<exists>x u. m s = Some (Inr x, u) \<and> f x u = Some (Inl e, t))"
  by (auto simp: hm_bind_def split: option.splits prod.splits sum.splits)

lemma hm_seq_Inl_iff:
  "hm_seq m k s = Some (Inl e, t) \<longleftrightarrow>
     m s = Some (Inl e, t) \<or> (\<exists>x u. m s = Some (Inr x, u) \<and> k u = Some (Inl e, t))"
  by (simp add: hm_seq_def hm_bind_Inl_iff)

lemma hm_seq_iff:
  "hm_seq m k s = Some (r, t) \<longleftrightarrow>
     (\<exists>e. m s = Some (Inl e, t) \<and> r = Inl e) \<or> (\<exists>x u. m s = Some (Inr x, u) \<and> k u = Some (r, t))"
  by (auto simp: hm_seq_def hm_bind_def split: option.splits prod.splits sum.splits)

lemma hm_catch_iff:
  "hm_catch m h s = Some (r, t) \<longleftrightarrow>
     (\<exists>x. m s = Some (Inr x, t) \<and> r = Inr x) \<or> (\<exists>e u. m s = Some (Inl e, u) \<and> h e u = Some (r, t))"
  by (auto simp: hm_catch_def split: option.splits prod.splits sum.splits)

lemmas hm_iffs = hm_bind_Inr_iff hm_seq_Inr_iff hm_bind_Inl_iff hm_seq_Inl_iff hm_catch_iff

fun what :: "ec_error \<Rightarrow> string" where
  "what (Error m) = m"
| "what (PdoMappingError m) = m"
| "what (SdoError m _) = m"

subsection \<open>State\<close>

text \<open>
  While a runner exists it holds the controller (its only control) and the master; without one they
  are in the first two fields.
\<close>

record ('q, 'w) ServoHost =
  idle_ctl :: "'q ServoController"
  idle_master :: "'w Master option"
  rt_runner :: "('w, 'q ServoController) RtCore option"

definition core_ctl :: "('w, 'q ServoController) RtCore \<Rightarrow> 'q ServoController \<Rightarrow> 'q ServoController" where
  "core_ctl r s = (case controls r of [] \<Rightarrow> s | a # _ \<Rightarrow> at_control a)"

definition ctl :: "('q, 'w) ServoHost \<Rightarrow> 'q ServoController" where
  "ctl h = (case rt_runner h of None \<Rightarrow> idle_ctl h | Some r \<Rightarrow> core_ctl r (idle_ctl h))"

definition master :: "('q, 'w) ServoHost \<Rightarrow> 'w Master option" where
  "master h = (case rt_runner h of None \<Rightarrow> idle_master h | Some r \<Rightarrow> Some (rt_master r))"

definition upd_core_ctl ::
    "('q ServoController \<Rightarrow> 'q ServoController) \<Rightarrow> ('w, 'q ServoController) RtCore \<Rightarrow> ('w, 'q ServoController) RtCore" where
  "upd_core_ctl f r = r\<lparr>controls := map (\<lambda>a. a\<lparr>at_control := f (at_control a)\<rparr>) (controls r)\<rparr>"

definition upd_ctl :: "('q ServoController \<Rightarrow> 'q ServoController) \<Rightarrow> ('q, 'w) ServoHost \<Rightarrow> ('q, 'w) ServoHost" where
  "upd_ctl f h = h\<lparr>idle_ctl := f (idle_ctl h), rt_runner := map_option (upd_core_ctl f) (rt_runner h)\<rparr>"

definition host_modify :: "('q ServoController \<Rightarrow> 'q ServoController) \<Rightarrow> (('q, 'w) ServoHost, unit) hm" where
  "host_modify f = hm_lift (em_modify (upd_ctl f))"

subsection \<open>The controller as a control of the runner\<close>

definition master_view :: "u16 \<Rightarrow> 'w Master \<Rightarrow> MasterView" where
  "master_view slave m = \<lparr>mv_bringup_al = bringup_al_code m,
     mv_al_status = SoemBackend_al_status_code slave (backend m), mv_last_wkc = last_wkc m\<rparr>"

text \<open>A drain that never returns would wedge the step; with a queue that keeps its contract it returns.\<close>

definition servo_step :: "'q spsc_queue \<Rightarrow> CycleContext \<Rightarrow> 'q ServoController \<Rightarrow> CycleContext \<times> 'q ServoController" where
  "servo_step Q c s = (case ServoController_step Q c s of Some r \<Rightarrow> r | None \<Rightarrow> (c, s))"

definition servo_control :: "'q spsc_queue \<Rightarrow> ('w, 'q ServoController) SlaveControl" where
  "servo_control Q = \<lparr>sc_on_operational = on_operational,
     sc_on_stop = (\<lambda>m why s. on_stop (Some (master_view (sv_slave_id (sv_config s)) m)) why s),
     sc_step = servo_step Q, sc_sync_faulted = sync_faulted, sc_drive_present = drive_present,
     sc_stage_bringup_outputs = stage_bringup_outputs, sc_teardown_complete = stop_at_rest\<rparr>"

subsection \<open>Dropping the runner and building a master\<close>

text \<open>
  \<^verbatim>\<open>rt_runner_.reset()\<close>: the destructor stops the runner. The RT thread runs the cycles \<open>join\<close> while the
  owner waits; if it has not stopped at the end of the bound, the process is aborted.
\<close>

definition drop_runner :: "'w soem \<Rightarrow> rt_env list \<Rightarrow> (('q, 'w) ServoHost, unit) hm" where
  "drop_runner S join h =
     (case rt_runner h of
        None \<Rightarrow> Some (Inr (), h)
      | Some r \<Rightarrow>
          let r1 = (if started r then foldl (rt_cycle S) (Runner_stop_begin r) join else r)
          in case Runner_stop_poll S (stop_bound_ns r1) r1 of
               StopClosed r2 \<Rightarrow>
                 Some (Inr (), \<lparr>idle_ctl = core_ctl r2 (idle_ctl h), idle_master = Some (rt_master r2), rt_runner = None\<rparr>)
             | StopWaiting _ \<Rightarrow> None
             | ProcessAborted \<Rightarrow> None)"

definition reset_master :: "(('q, 'w) ServoHost, unit) hm" where
  "reset_master = hm_lift (em_modify (\<lambda>h. h\<lparr>idle_master := None\<rparr>))"

text \<open>\<^verbatim>\<open>make_unique<Master>\<close>, \<^verbatim>\<open>init\<close> and \<^verbatim>\<open>configure\<close>; \<open>cx\<close> is the SOEM context of the new backend.\<close>

definition build_master :: "bool \<Rightarrow> 'w soem \<Rightarrow> 'w ec_context \<Rightarrow> (('q, 'w) ServoHost, unit) hm" where
  "build_master dbg S cx h =
     (case Master_new cx (build_master_config (sv_config (ctl h))) of
        Inl e \<Rightarrow> Some (Inl e, h)
      | Inr m \<Rightarrow> (case em_seq (Master_init S) (Master_configure dbg S) m of
                   (r, m') \<Rightarrow> Some (r, h\<lparr>idle_master := Some m'\<rparr>)))"

subsection \<open>Bring-up\<close>

text \<open>What happens around one attempt: the real-time setup, the clock, the waits, the next context.\<close>

record 'w attempt_env =
  ae_rt_ok :: bool
  ae_now :: u64
  ae_polls :: "rt_env list list"
  ae_join :: "rt_env list"
  ae_next_ctx :: "'w ec_context"

definition spawn_runner ::
    "'w soem \<Rightarrow> 'q spsc_queue \<Rightarrow> 'w attempt_env \<Rightarrow> ('q, 'w) ServoHost \<Rightarrow> ('q, 'w) ServoHost" where
  "spawn_runner S Q env h =
     (case idle_master h of
        None \<Rightarrow> h
      | Some m \<Rightarrow>
          let s = (reset_run_state (expected_wkc m) (idle_ctl h))\<lparr>degraded := False, degraded_reason := []\<rparr>
          in case em_seq (Runner_attach (sv_slave_id (sv_config s)) (servo_control Q) s)
                         (Runner_start (on_configured S) (ae_rt_ok env) (ae_now env))
                         (Runner_new m (spawn_config s)) of
               (Inr _, r) \<Rightarrow> h\<lparr>idle_ctl := s, rt_runner := Some r\<rparr>
             | (Inl e, r) \<Rightarrow> h\<lparr>idle_ctl := (core_ctl r s)\<lparr>degraded_reason := what e, degraded := True\<rparr>,
                               idle_master := Some (rt_master r), rt_runner := None\<rparr>)"

definition run_rt :: "'w soem \<Rightarrow> rt_env list \<Rightarrow> ('q, 'w) ServoHost \<Rightarrow> ('q, 'w) ServoHost" where
  "run_rt S es h = h\<lparr>rt_runner := map_option (\<lambda>r. foldl (rt_cycle S) r es) (rt_runner h)\<rparr>"

definition runner_running :: "('q, 'w) ServoHost \<Rightarrow> bool" where
  "runner_running h = (case rt_runner h of None \<Rightarrow> False | Some r \<Rightarrow> phase r = PhRunning)"

text \<open>The poll for the outcome: every element is the RT cycles of one sleep, the end is the cap.\<close>

fun poll_bringup :: "'w soem \<Rightarrow> rt_env list list \<Rightarrow> ('q, 'w) ServoHost \<Rightarrow> bool \<times> ('q, 'w) ServoHost" where
  "poll_bringup S [] h = (runner_running h, h)"
| "poll_bringup S (es # polls) h =
     (if runner_running h then (True, h)
      else if rt_exited (ctl h) \<or> degraded (ctl h) then (False, h)
      else poll_bringup S polls (run_rt S es h))"

definition attempt_bringup ::
    "'w soem \<Rightarrow> 'q spsc_queue \<Rightarrow> 'w attempt_env \<Rightarrow> ('q, 'w) ServoHost \<Rightarrow> bool \<times> ('q, 'w) ServoHost" where
  "attempt_bringup S Q env h =
     (let h1 = spawn_runner S Q env h
      in if degraded (ctl h1) then (False, h1) else poll_bringup S (ae_polls env) h1)"

definition host_resolve_fields :: "(('q, 'w) ServoHost, unit) hm" where
  "host_resolve_fields h =
     (case idle_master h of
        None \<Rightarrow> None
      | Some m \<Rightarrow> (case resolve_fields m (idle_ctl h) of (r, s) \<Rightarrow> Some (r, h\<lparr>idle_ctl := s\<rparr>)))"

definition host_vendor_reset :: "'w soem \<Rightarrow> (('q, 'w) ServoHost, unit) hm" where
  "host_vendor_reset S h =
     (case idle_master h of
        None \<Rightarrow> None
      | Some m \<Rightarrow> (case run_vendor_fault_reset S (idle_ctl h) m of (r, m') \<Rightarrow> Some (r, h\<lparr>idle_master := Some m'\<rparr>)))"

definition kMaxBringupAttempts :: nat where "kMaxBringupAttempts = 5"

text \<open>The rest of one turn of the loop; \<open>next\<close> is the next turn, or \<open>None\<close> after the last attempt.\<close>

definition attempt_then ::
    "bool \<Rightarrow> 'w soem \<Rightarrow> 'q spsc_queue \<Rightarrow> 'w attempt_env \<Rightarrow> (('q, 'w) ServoHost, unit) hm option
     \<Rightarrow> (('q, 'w) ServoHost, unit) hm" where
  "attempt_then dbg S Q aenv next_turn h =
     (case attempt_bringup S Q aenv h of
       (True, h1) \<Rightarrow> Some (Inr (), h1)
     | (False, h1) \<Rightarrow>
         if degraded_reason (ctl h1) \<noteq> []
         then hm_seq (drop_runner S (ae_join aenv)) (\<lambda>h2. Some (Inl (Error (degraded_reason (ctl h1))), h2)) h1
         else case next_turn of
                None \<Rightarrow> Some (Inr (), h1)
              | Some k \<Rightarrow>
                  hm_seq (drop_runner S (ae_join aenv))
                 (hm_seq reset_master
                 (hm_seq (build_master dbg S (ae_next_ctx aenv)) k)) h1)"

text \<open>The attempts from one on which \<open>left\<close> retries may follow.\<close>

fun bring_up_from ::
    "bool \<Rightarrow> 'w soem \<Rightarrow> 'q spsc_queue \<Rightarrow> (nat \<Rightarrow> 'w attempt_env) \<Rightarrow> nat \<Rightarrow> (('q, 'w) ServoHost, unit) hm" where
  "bring_up_from dbg S Q env left =
     hm_seq (host_modify select_motion_mode)
    (hm_seq host_resolve_fields
    (hm_seq (host_vendor_reset S)
            (attempt_then dbg S Q (env left) (case left of 0 \<Rightarrow> None | Suc n \<Rightarrow> Some (bring_up_from dbg S Q env n)))))"

declare bring_up_from.simps [simp del]

definition bring_up ::
    "bool \<Rightarrow> 'w soem \<Rightarrow> 'q spsc_queue \<Rightarrow> (nat \<Rightarrow> 'w attempt_env) \<Rightarrow> (('q, 'w) ServoHost, unit) hm" where
  "bring_up dbg S Q env = bring_up_from dbg S Q env (kMaxBringupAttempts - 1)"

subsection \<open>The owner's operations\<close>

text \<open>What happens around one operation of the owner.\<close>

record 'w host_env =
  he_fifo_ok :: bool
  he_join :: "rt_env list"
  he_ctx :: "'w ec_context"
  he_attempt :: "nat \<Rightarrow> 'w attempt_env"
  he_join_fail :: "rt_env list"

definition rt_unavailable_message :: "int \<Rightarrow> string" where
  "rt_unavailable_message prio = ''realtime scheduling is not available on this machine: priority '' @ to_string_int prio"

definition realtime_missing :: "'w host_env \<Rightarrow> ServoConfig \<Rightarrow> bool" where
  "realtime_missing env c \<longleftrightarrow> sv_require_realtime c \<and> \<not> he_fifo_ok env"

definition rebuild :: "bool \<Rightarrow> 'w soem \<Rightarrow> 'q spsc_queue \<Rightarrow> 'w host_env \<Rightarrow> (('q, 'w) ServoHost, unit) hm" where
  "rebuild dbg S Q env = hm_seq (build_master dbg S (he_ctx env)) (bring_up dbg S Q (he_attempt env))"

definition start_checked :: "bool \<Rightarrow> 'w soem \<Rightarrow> 'q spsc_queue \<Rightarrow> 'w host_env \<Rightarrow> (('q, 'w) ServoHost, unit) hm" where
  "start_checked dbg S Q env h =
     (if realtime_missing env (sv_config (ctl h))
      then Some (Inl (Error (rt_unavailable_message (sv_rt_priority (sv_config (ctl h))))), h)
      else rebuild dbg S Q env h)"

definition start :: "bool \<Rightarrow> 'w soem \<Rightarrow> 'q spsc_queue \<Rightarrow> 'w host_env \<Rightarrow> (('q, 'w) ServoHost, unit) hm" where
  "start dbg S Q env = start_checked dbg S Q env"

definition raise_stop :: "'q ServoController \<Rightarrow> 'q ServoController" where
  "raise_stop s = bump_wake (s\<lparr>sv_stopping := True\<rparr>)"

definition stop :: "'w soem \<Rightarrow> rt_env list \<Rightarrow> (('q, 'w) ServoHost, unit) hm" where
  "stop S join = hm_seq (host_modify raise_stop) (drop_runner S join)"

definition teardown :: "'w soem \<Rightarrow> rt_env list \<Rightarrow> (('q, 'w) ServoHost, unit) hm" where
  "teardown S join = hm_seq (host_modify raise_stop) (hm_seq (drop_runner S join) reset_master)"

definition set_bus_lost :: "bool \<Rightarrow> (('q, 'w) ServoHost, unit) hm" where
  "set_bus_lost b = host_modify (\<lambda>s. s\<lparr>bus_lost := b\<rparr>)"

definition reconfigure ::
    "bool \<Rightarrow> 'w soem \<Rightarrow> 'q spsc_queue \<Rightarrow> ServoConfig \<Rightarrow> 'w host_env \<Rightarrow> (('q, 'w) ServoHost, unit) hm" where
  "reconfigure dbg S Q c env h =
     (case validated c of
        Inl e \<Rightarrow> Some (Inl e, h)
      | Inr c' \<Rightarrow>
          hm_seq (teardown S (he_join env))
         (hm_seq (set_bus_lost False)
         (hm_seq (host_modify (\<lambda>s. s\<lparr>sv_config := c'\<rparr>))
                 (start_checked dbg S Q env))) h)"

definition recovery_failed :: "string \<Rightarrow> ec_error" where
  "recovery_failed why = Error (''bus lost and recovery failed ('' @ why @ '') -- will retry on the next motion call'')"

definition abandon :: "'w soem \<Rightarrow> rt_env list \<Rightarrow> string \<Rightarrow> (('q, 'w) ServoHost, unit) hm" where
  "abandon S join why =
     hm_seq (drop_runner S join) (hm_seq reset_master (hm_seq (set_bus_lost True) (hm_lift (em_throw (recovery_failed why)))))"

definition maybe_recover_bus ::
    "bool \<Rightarrow> 'w soem \<Rightarrow> 'q spsc_queue \<Rightarrow> 'w host_env \<Rightarrow> (('q, 'w) ServoHost, unit) hm" where
  "maybe_recover_bus dbg S Q env h =
     (if \<not> bus_lost (ctl h) then Some (Inr (), h)
      else hm_seq (teardown S (he_join env))
          (hm_seq (set_bus_lost False)
          (hm_seq (hm_catch (rebuild dbg S Q env) (\<lambda>e. abandon S (he_join_fail env) (what e)))
                  (\<lambda>h1. if degraded (ctl h1) then abandon S (he_join_fail env) (last_error (ctl h1)) h1
                        else Some (Inr (), h1)))) h)"

subsection \<open>What an operation leaves behind\<close>

lemma host_modify_apply [simp]: "host_modify f h = Some (Inr (), upd_ctl f h)"
  by (simp add: host_modify_def)

lemma set_bus_lost_apply [simp]: "set_bus_lost b h = Some (Inr (), upd_ctl (\<lambda>s. s\<lparr>bus_lost := b\<rparr>) h)"
  by (simp add: set_bus_lost_def)

lemma reset_master_apply [simp]: "reset_master h = Some (Inr (), h\<lparr>idle_master := None\<rparr>)"
  by (simp add: reset_master_def)

lemma upd_ctl_sel [simp]:
  "idle_master (upd_ctl f h) = idle_master h"
  "rt_runner (upd_ctl f h) = map_option (upd_core_ctl f) (rt_runner h)"
  "idle_ctl (upd_ctl f h) = f (idle_ctl h)"
  by (simp_all add: upd_ctl_def)

lemma ctl_upd_ctl [simp]: "ctl (upd_ctl f h) = f (ctl h)"
  by (auto simp: ctl_def upd_ctl_def upd_core_ctl_def core_ctl_def split: option.splits list.splits)

lemma ctl_idle [simp]: "rt_runner h = None \<Longrightarrow> ctl h = idle_ctl h"
  by (simp add: ctl_def)

lemma drop_runner_result:
  assumes "drop_runner S join h = Some (r, h')"
  shows "r = Inr ()" "rt_runner h' = None" "rt_runner h = None \<Longrightarrow> h' = h"
  using assms by (auto simp: drop_runner_def Let_def split: option.splits stop_result.splits)

lemma teardown_result:
  assumes "teardown S join h = Some (r, h')"
  shows "r = Inr ()" "rt_runner h' = None" "idle_master h' = None"
proof -
  obtain u h1 where d: "drop_runner S join (upd_ctl raise_stop h) = Some (u, h1)"
    and h': "Some (r, h') = hm_seq (\<lambda>_. Some (u, h1)) reset_master h"
    using assms by (auto simp: teardown_def hm_seq_def hm_bind_def split: option.splits prod.splits sum.splits)
  then show "r = Inr ()" "rt_runner h' = None" "idle_master h' = None"
    using drop_runner_result [OF d] by (auto simp: hm_seq_def hm_bind_def)
qed

lemma abandon_result:
  assumes "abandon S join why h = Some (r, h')"
  shows "r = Inl (recovery_failed why) \<and> rt_runner h' = None \<and> idle_master h' = None \<and> bus_lost (ctl h')"
proof -
  obtain u h1 where d: "drop_runner S join h = Some (u, h1)"
    and h': "Some (r, h') = hm_seq (\<lambda>_. Some (u, h1))
      (hm_seq reset_master (hm_seq (set_bus_lost True) (hm_lift (em_throw (recovery_failed why))))) h"
    using assms by (auto simp: abandon_def hm_seq_def hm_bind_def split: option.splits prod.splits sum.splits)
  then show ?thesis using drop_runner_result [OF d] by (auto simp: hm_seq_def hm_bind_def)
qed

lemma spawn_runner_result:
  "idle_master h \<noteq> None \<Longrightarrow> degraded (ctl (spawn_runner S Q env h)) \<or> rt_runner (spawn_runner S Q env h) \<noteq> None"
  by (auto simp: spawn_runner_def Let_def split: option.splits prod.splits sum.splits)

lemma poll_bringup_runner: "poll_bringup S polls h = (b, h') \<Longrightarrow> rt_runner h \<noteq> None \<Longrightarrow> rt_runner h' \<noteq> None"
  by (induction S polls h rule: poll_bringup.induct) (auto simp: run_rt_def split: if_splits)

lemma attempt_result:
  assumes "attempt_bringup S Q env h = (b, h')" "idle_master h \<noteq> None"
  shows "degraded (ctl h') \<or> rt_runner h' \<noteq> None"
  using assms spawn_runner_result [of h S Q env] poll_bringup_runner [of S "ae_polls env" "spawn_runner S Q env h"]
  by (auto simp: attempt_bringup_def Let_def split: if_splits)

lemma host_resolve_master: "host_resolve_fields h = Some (Inr x, h') \<Longrightarrow> idle_master h' \<noteq> None"
  by (auto simp: host_resolve_fields_def split: option.splits prod.splits)

lemma host_vendor_master: "host_vendor_reset S h = Some (Inr x, h') \<Longrightarrow> idle_master h' \<noteq> None"
  by (auto simp: host_vendor_reset_def split: option.splits prod.splits)

text \<open>A bring-up that returns: the last attempt ended it, or a later one did.\<close>

lemma attempt_then_Inr:
  assumes "attempt_then dbg S Q aenv nxt h = Some (Inr (), h')"
  obtains (ends) b where "attempt_bringup S Q aenv h = (b, h')" "b \<or> nxt = None \<and> degraded_reason (ctl h') = []"
    | (retry) k h4 where "nxt = Some k" "k h4 = Some (Inr (), h')"
proof -
  obtain b h1 where a: "attempt_bringup S Q aenv h = (b, h1)" by fastforce
  show ?thesis
  proof (cases "b \<or> nxt = None")
    case True
    with assms a have "h' = h1 \<and> (b \<or> nxt = None \<and> degraded_reason (ctl h1) = [])"
      by (cases b) (auto simp: attempt_then_def hm_iffs split: if_splits)
    with a show ?thesis by (intro ends [of b]) auto
  next
    case False
    then obtain k where "nxt = Some k" "\<not> b" by auto
    with assms a have "\<exists>h4. k h4 = Some (Inr (), h')"
      by (auto simp: attempt_then_def hm_iffs split: if_splits)
    with \<open>nxt = Some k\<close> show ?thesis using retry by blast
  qed
qed

lemma bring_up_from_Inr:
  assumes "bring_up_from dbg S Q env left h = Some (Inr (), h')"
  obtains (ends) h3 b where "idle_master h3 \<noteq> None" "attempt_bringup S Q (env left) h3 = (b, h')"
      "b \<or> left = 0 \<and> degraded_reason (ctl h') = []"
    | (retry) n h4 where "left = Suc n" "bring_up_from dbg S Q env n h4 = Some (Inr (), h')"
proof -
  obtain h3 where h3: "idle_master h3 \<noteq> None"
    and t: "attempt_then dbg S Q (env left) (case left of 0 \<Rightarrow> None | Suc n \<Rightarrow> Some (bring_up_from dbg S Q env n)) h3 = Some (Inr (), h')"
    using assms unfolding bring_up_from.simps [of dbg S Q env left] hm_iffs
    by (elim exE conjE) (drule host_vendor_master, blast)
  from t show ?thesis
    by (rule attempt_then_Inr) (use h3 ends retry in \<open>auto split: nat.splits\<close>)
qed

text \<open>When \<open>bring_up\<close> returns, either a runner exists or the controller is degraded.\<close>

lemma bring_up_result:
  "bring_up_from dbg S Q env left h = Some (Inr (), h') \<Longrightarrow> degraded (ctl h') \<or> rt_runner h' \<noteq> None"
proof (induction left arbitrary: h)
  case 0
  then show ?case by (rule bring_up_from_Inr) (auto dest: attempt_result)
next
  case (Suc n)
  from Suc.prems show ?case by (rule bring_up_from_Inr) (auto dest: attempt_result Suc.IH)
qed

text \<open>
  C6. Recovery from a bus loss is all or nothing. Whatever the bus, the drive and the RT threads do, when
  \<open>maybe_recover_bus\<close> returns: without a bus loss it changed nothing; after a successful recovery a runner
  exists and the controller is not degraded; and when it throws, no runner and no master is left and the
  bus loss is marked again, so the next motion call retries from nothing.
\<close>

theorem recovery_all_or_nothing:
  assumes "maybe_recover_bus dbg S Q env h = Some (r, h')"
  shows "(\<not> bus_lost (ctl h) \<longrightarrow> r = Inr () \<and> h' = h)
    \<and> (bus_lost (ctl h) \<longrightarrow>
         (case r of
            Inr _ \<Rightarrow> rt_runner h' \<noteq> None \<and> \<not> degraded (ctl h')
          | Inl e \<Rightarrow> rt_runner h' = None \<and> master h' = None \<and> bus_lost (ctl h') \<and> (\<exists>why. e = recovery_failed why)))"
proof (cases "bus_lost (ctl h)")
  case False
  with assms show ?thesis by (simp add: maybe_recover_bus_def)
next
  case True
  let ?tail = "\<lambda>h1. if degraded (ctl h1) then abandon S (he_join_fail env) (last_error (ctl h1)) h1 else Some (Inr (), h1)"
  let ?body = "hm_catch (rebuild dbg S Q env) (\<lambda>e. abandon S (he_join_fail env) (what e))"
  have torn: "rt_runner g = None \<and> master g = None \<and> bus_lost (ctl g) \<and> (\<exists>why. e = recovery_failed why)"
    if "abandon S (he_join_fail env) w g0 = Some (Inl e, g)" for w g0 e g
    using abandon_result [OF that] by (auto simp: master_def)
  obtain h1 where 1: "hm_seq ?body ?tail h1 = Some (r, h')"
    using assms True teardown_result(1)
    by (cases r) (fastforce simp: maybe_recover_bus_def hm_seq_Inr_iff hm_seq_Inl_iff)+
  show ?thesis
  proof (cases r)
    case (Inr u)
    then obtain h2 where b: "?body h1 = Some (Inr (), h2)" and t: "?tail h2 = Some (Inr (), h')"
      using 1 by (auto simp: hm_iffs)
    have "rebuild dbg S Q env h1 = Some (Inr (), h2)"
      using b abandon_result by (fastforce simp: hm_catch_iff)
    then have "degraded (ctl h2) \<or> rt_runner h2 \<noteq> None"
      by (auto simp: rebuild_def hm_iffs bring_up_def dest: bring_up_result)
    moreover have "\<not> degraded (ctl h2) \<and> h' = h2"
      using t abandon_result [of S "he_join_fail env" "last_error (ctl h2)" h2] by (auto split: if_splits)
    ultimately show ?thesis using True Inr by auto
  next
    case (Inl e)
    then have "?body h1 = Some (Inl e, h') \<or> (\<exists>h2. ?tail h2 = Some (Inl e, h'))"
      using 1 unfolding Inl hm_seq_Inl_iff by blast
    then have "\<exists>w g0. abandon S (he_join_fail env) w g0 = Some (Inl e, h')"
      by (auto simp: hm_catch_iff split: if_splits)
    with True Inl torn show ?thesis by fastforce
  qed
qed

text \<open>A controller that lost its bus and whose configuration names no interface.\<close>

definition demo_host_env :: "ec_errort list host_env" where
  "demo_host_env = \<lparr>he_fifo_ok = True, he_join = [], he_ctx = demo_context [],
     he_attempt = (\<lambda>_. \<lparr>ae_rt_ok = True, ae_now = 0, ae_polls = [], ae_join = [], ae_next_ctx = demo_context []\<rparr>),
     he_join_fail = []\<rparr>"

definition demo_lost_host :: "(Command list, ec_errort list) ServoHost" where
  "demo_lost_host = \<lparr>idle_ctl = (demo_controller LOperational)\<lparr>bus_lost := True, sv_config := demo_servo_config\<lparr>sv_ifname := []\<rparr>\<rparr>,
     idle_master = None, rt_runner = None\<rparr>"

lemma drop_runner_idle [simp]: "rt_runner h = None \<Longrightarrow> drop_runner S join h = Some (Inr (), h)"
  by (simp add: drop_runner_def)

lemma rebuild_no_interface:
  "sv_ifname (sv_config (ctl h)) = [] \<Longrightarrow>
   rebuild dbg S Q env h = Some (Inl (Error ''Master: empty interface name''), h)"
  by (simp add: rebuild_def hm_seq_def hm_bind_def build_master_def Master_new_def build_master_config_def)

theorem recovery_all_or_nothing_witness:
  "\<exists>e h'. maybe_recover_bus False demo_soem (list_queue 4) demo_host_env demo_lost_host = Some (Inl e, h')
     \<and> rt_runner h' = None \<and> master h' = None \<and> bus_lost (ctl h')"
proof -
  let ?h1 = "upd_ctl (\<lambda>s. s\<lparr>bus_lost := False\<rparr>) ((upd_ctl raise_stop demo_lost_host)\<lparr>idle_master := None\<rparr>)"
  have lost: "bus_lost (ctl demo_lost_host)" "bus_lost (idle_ctl demo_lost_host)" "rt_runner demo_lost_host = None" by (simp_all add: demo_lost_host_def)
  have "sv_ifname (sv_config (ctl ?h1)) = []" by (simp add: lost demo_lost_host_def raise_stop_def)
  note re = rebuild_no_interface [OF this, of False demo_soem "list_queue 4" demo_host_env]
  obtain e h' where r: "maybe_recover_bus False demo_soem (list_queue 4) demo_host_env demo_lost_host = Some (Inl e, h')"
    by (simp add: maybe_recover_bus_def lost teardown_def hm_seq_def hm_bind_def hm_catch_def re [simplified] abandon_def)
  from recovery_all_or_nothing [OF r] lost r show ?thesis by auto
qed

subsection \<open>What the RT thread leaves to the owner\<close>

text \<open>The members only the owner's side writes.\<close>

definition owner_view ::
    "'q ServoController \<Rightarrow> ServoConfig \<times> ServoDevice \<times> ServoFields \<times> u32 \<times> u32 \<times> bool \<times> int" where
  "owner_view s = (sv_config s, device s, fld s, motion_slot s, next_generation s, sv_stopping s, vel_budget_cps s)"

lemma owner_view_updates [simp]:
  "owner_view (upd_motion f s) = owner_view s" "owner_view (upd_pub g s) = owner_view s"
  "owner_view (bump_wake s) = owner_view s" "owner_view (s\<lparr>motion := m\<rparr>) = owner_view s"
  "owner_view (s\<lparr>latched_ctrl_error := e\<rparr>) = owner_view s" "owner_view (s\<lparr>rt_error := e\<rparr>) = owner_view s"
  "owner_view (s\<lparr>lifecycle := l\<rparr>) = owner_view s" "owner_view (s\<lparr>mode_echo_wait := w\<rparr>) = owner_view s"
  "owner_view (s\<lparr>homing_cycles := w\<rparr>) = owner_view s" "owner_view (s\<lparr>homing_echo_wait := w\<rparr>) = owner_view s"
  "owner_view (s\<lparr>homing_timeout_cycles := w\<rparr>) = owner_view s" "owner_view (s\<lparr>reset_cycles := w\<rparr>) = owner_view s"
  "owner_view (s\<lparr>clear_streak := w\<rparr>) = owner_view s" "owner_view (s\<lparr>commands := q\<rparr>) = owner_view s"
  "owner_view (s\<lparr>prev_actual := a\<rparr>) = owner_view s" "owner_view (s\<lparr>first_cycle := b\<rparr>) = owner_view s"
  "owner_view (s\<lparr>last_logged_fault_code := x\<rparr>) = owner_view s" "owner_view (s\<lparr>sv_last_cw := x\<rparr>) = owner_view s"
  "owner_view (s\<lparr>stop_at_rest := b\<rparr>) = owner_view s" "owner_view (s\<lparr>at_rest := b\<rparr>) = owner_view s"
  "owner_view (s\<lparr>pos_hist := ph\<rparr>) = owner_view s" "owner_view (s\<lparr>pos_hist_idx := i\<rparr>) = owner_view s"
  "owner_view (s\<lparr>pos_hist_filled := x2\<rparr>) = owner_view s" "owner_view (s\<lparr>last_sync_code := x\<rparr>) = owner_view s"
  "owner_view (s\<lparr>rt_exited := b\<rparr>) = owner_view s" "owner_view (s\<lparr>degraded := b\<rparr>) = owner_view s"
  "owner_view (s\<lparr>bus_lost := b\<rparr>) = owner_view s"
  by (simp_all add: owner_view_def upd_motion_def upd_pub_def bump_wake_def)

lemma owner_view_helpers [simp]:
  "owner_view (abort_active_move w s) = owner_view s"
  "owner_view (publish_homing_result hf s) = owner_view s"
  "owner_view (finish_homing hf s) = owner_view s"
  "owner_view (fst (enter_resetting c s)) = owner_view s"
  "owner_view (snd (position_stable a s)) = owner_view s"
  "owner_view (snd (track_motion c st a s)) = owner_view s"
  by (simp_all add: abort_active_move_def Let_def publish_homing_result_def finish_homing_def enter_resetting_def
      position_stable_def track_motion_def split_beta)

lemma owner_view_route [simp]: "owner_view (route_commands b a s) = owner_view s"
  by (simp add: route_commands_def route_stops_def adopt_target_def Let_def split: option.splits)

lemma owner_view_life [simp]:
  "owner_view (fst (life_init c st s)) = owner_view s"
  "owner_view (fst (life_enabling c st s)) = owner_view s"
  "owner_view (fst (life_motion c st a s)) = owner_view s"
  "owner_view (fst (life_homing c st b a s)) = owner_view s"
  "owner_view (fst (life_resetting c st b s)) = owner_view s"
  "owner_view (fst (life_disabled c b s)) = owner_view s"
  by (simp_all add: life_init_def life_enabling_def life_motion_def life_homing_def life_resetting_def
      life_disabled_def Let_def split_beta)

lemma owner_view_operational [simp]: "owner_view (fst (life_operational c st b a s)) = owner_view s"
  by (simp add: life_operational_def Let_def split_beta split: option.splits)

lemma owner_view_lifecycle [simp]: "owner_view (fst (step_lifecycle c st b a s)) = owner_view s"
  by (simp add: step_lifecycle_def Let_def split: Lifecycle.splits)

lemma owner_view_publish [simp]: "owner_view (publish_state c st a v s) = owner_view s"
  by (simp add: publish_state_def publish_faults_def publish_motion_def Let_def split_beta)

lemma owner_view_step:
  "owner_view (snd (servo_step Q c s)) = owner_view s"
proof -
  have 1: "owner_view (snd (ctl_step_stopping c s)) = owner_view s"
    by (simp add: ctl_step_stopping_def Let_def split_beta)
  have "owner_view (snd (begin_cycle c a s')) = owner_view s'" "owner_view (snd (write_outputs c' st a cw s')) = owner_view s'"
    for c' st a cw and s' :: "'a ServoController"
    by (simp_all add: begin_cycle_def write_outputs_def Let_def split_beta)
  then have 2: "owner_view (snd (ctl_step_batch b c s')) = owner_view s'" for b and s' :: "'a ServoController"
    by (simp add: ctl_step_batch_def Let_def split_beta)
  show ?thesis
    by (cases "CommandQueue_drain Q (commands s)") (auto simp: servo_step_def ServoController_step_def 1 2)
qed

lemma owner_view_on_stop: "owner_view (on_stop mv why s) = owner_view s"
  by (simp add: on_stop_def Let_def)

interpretation servo_rt: control_invariant "servo_control Q" "\<lambda>s. owner_view s = v" for Q v
  by unfold_locales
    (simp_all add: servo_control_def on_operational_def owner_view_on_stop owner_view_step sync_faulted_def
      stage_bringup_outputs_def Let_def)

subsection \<open>Stopping\<close>

text \<open>A runner the owner made: started, in a reachable state, with the controller as its only control.\<close>

definition runner_ok :: "'q spsc_queue \<Rightarrow> ('w, 'q ServoController) RtCore \<Rightarrow> bool" where
  "runner_ok Q r \<longleftrightarrow> started r \<and> loop_inv r \<and> all_controls (servo_control Q) (\<lambda>_. True) 1 r"

definition host_ok :: "'q spsc_queue \<Rightarrow> ('q, 'w) ServoHost \<Rightarrow> bool" where
  "host_ok Q h \<longleftrightarrow> (\<forall>r. rt_runner h = Some r \<longrightarrow> runner_ok Q r)"

lemma single_control_ctl:
  assumes "all_controls ops P 1 r"
  obtains a where "controls r = [a]" "at_ops a = ops" "P (at_control a)"
  using assms by (auto simp: all_controls_def length_Suc_conv)

lemma runner_ok_view: "runner_ok Q r \<Longrightarrow> all_controls (servo_control Q) (\<lambda>s. owner_view s = owner_view (core_ctl r s0)) 1 r"
  by (auto simp: runner_ok_def all_controls_def length_Suc_conv core_ctl_def)

lemma started_frame [simp]:
  "started (latch_reason w core) = started core" "started (RtCore_request_stop core) = started core"
  "started (apply_ctx sl c core) = started core" "started (call_on_stop w core) = started core"
  by (simp_all add: latch_reason_def RtCore_request_stop_def apply_ctx_def call_on_stop_def Let_def)

lemma started_dispatch [simp]: "started (snd (dispatch n dc st h fn a core)) = started core"
  by (simp add: dispatch_def split_beta)

lemma started_dispatch_all [simp]: "started (snd (dispatch_all n dc st h fn as core)) = started core"
  by (induction as arbitrary: core) (simp_all add: split_beta)

lemma started_run_hooks [simp]: "started (run_hooks n dc st h fn core) = started core"
  by (simp add: run_hooks_def split_beta)

lemma started_bringup_dispatch [simp]: "started (snd (snd (bringup_dispatch dc as g core))) = started core"
  by (induction as arbitrary: core g) (simp_all add: split_beta Let_def)

lemma started_cycle [simp]: "started (rt_cycle S core env) = started core"
proof -
  have 1: "started (rt_bringup_turn S env c) = started c" for c :: "('a, 'b) RtCore"
    by (simp add: rt_bringup_turn_def finish_without_op_def enter_operational_def Let_def split_beta)
  have 2: "started (rt_steady_turn S env c) = started c" for c :: "('a, 'b) RtCore"
    by (simp add: rt_steady_turn_def steady_tail_def steady_head_def Let_def)
  show ?thesis by (simp add: rt_cycle_def Let_def 1 2 split: rt_pc.splits)
qed

interpretation servo_any: control_invariant "servo_control Q" "\<lambda>_. True" for Q
  by unfold_locales simp_all

lemma runner_ok_run: "runner_ok Q r \<Longrightarrow> runner_ok Q (foldl (rt_cycle S) r envs)"
proof (induction envs arbitrary: r)
  case (Cons env envs)
  have "runner_ok Q (rt_cycle S r env)"
    using Cons.prems rt_loop.step_inv servo_any.rt_cycle_keeps by (auto simp: runner_ok_def)
  with Cons.IH show ?case by simp
qed simp

lemma request_stop_ok: "runner_ok Q r \<Longrightarrow> runner_ok Q (Runner_stop_begin r)"
  by (simp add: runner_ok_def Runner_stop_begin_def loop_inv_request all_controls_def)

lemma stop_begin_ends:
  assumes "loop_inv r" "started r" "unat (teardown_cycles (rt_cfg r)) \<le> length envs"
  shows "phase (foldl (rt_cycle S) (Runner_stop_begin r) envs) = PhStopped"
proof -
  let ?r = "Runner_stop_begin r"
  have r: "loop_inv ?r" "stop_flag ?r" "rt_cfg ?r = rt_cfg r" using assms(1,2) by (simp_all add: Runner_stop_begin_def loop_inv_request)
  then have p: "stop_pending ?r" by (simp add: stop_pending_def)
  have td: "0 < unat (teardown_cycles (rt_cfg r))" using assms(1) by (simp add: loop_inv_def word_less_nat_alt)
  have "stop_bound ?r \<le> unat (teardown_cycles (rt_cfg r))"
    using r(1,3) td by (auto simp: stop_bound_def loop_inv_def word_le_nat_alt split: rt_pc.splits)
  then have "pc (foldl (rt_cycle S) ?r envs) = PcEnd"
    using assms(3) td p by (intro rt_stop.run_reaches_done) (auto simp: list_all_iff)
  moreover have "loop_inv (foldl (rt_cycle S) ?r envs)" by (rule rt_loop.run_inv) (rule r(1))
  ultimately show ?thesis by (simp add: loop_inv_def loop_phase_def)
qed

text \<open>Direct SDO access by the owner's callers: only while a runner exists.\<close>

definition sdo_not_running :: "string \<Rightarrow> ec_error" where
  "sdo_not_running verb = Error (''ServoController::'' @ verb @ '': not running -- call while operational'')"

definition on_live_master :: "string \<Rightarrow> (u16 \<Rightarrow> ('w Master, 'a) em) \<Rightarrow> (('q, 'w) ServoHost, 'a) em" where
  "on_live_master verb f h =
     (case rt_runner h of
        None \<Rightarrow> (Inl (sdo_not_running verb), h)
      | Some r \<Rightarrow> (case f (sv_slave_id (sv_config (ctl h))) (rt_master r) of
                    (x, m) \<Rightarrow> (x, h\<lparr>rt_runner := Some (r\<lparr>rt_master := m\<rparr>)\<rparr>)))"

definition sdo_read :: "'w soem \<Rightarrow> u16 \<Rightarrow> u8 \<Rightarrow> nat \<Rightarrow> (('q, 'w) ServoHost, nat \<times> byte list) em" where
  "sdo_read S index sub out_size = on_live_master ''sdo_read'' (\<lambda>slave. Master_sdo_read S slave index sub out_size)"

definition sdo_write :: "'w soem \<Rightarrow> u16 \<Rightarrow> u8 \<Rightarrow> byte list \<Rightarrow> (('q, 'w) ServoHost, unit) em" where
  "sdo_write S index sub data = on_live_master ''sdo_write'' (\<lambda>slave. Master_sdo_write S slave index sub data)"

lemma upd_core_ctl_frame [simp]:
  "started (upd_core_ctl f r) = started r" "rt_cfg (upd_core_ctl f r) = rt_cfg r" "rt_master (upd_core_ctl f r) = rt_master r"
  "pc (upd_core_ctl f r) = pc r" "phase (upd_core_ctl f r) = phase r" "reason (upd_core_ctl f r) = reason r"
  "stop_flag (upd_core_ctl f r) = stop_flag r" "rt_stopping (upd_core_ctl f r) = rt_stopping r"
  "window_left (upd_core_ctl f r) = window_left r" "traces (upd_core_ctl f r) = traces r"
  by (simp_all add: upd_core_ctl_def traces_def comp_def)

lemma loop_inv_cong:
  assumes "pc r = pc r'" "phase r = phase r'" "reason r = reason r'" "stop_flag r = stop_flag r'"
    "rt_stopping r = rt_stopping r'" "window_left r = window_left r'" "rt_cfg r = rt_cfg r'" "traces r = traces r'"
  shows "loop_inv r = loop_inv r'"
proof -
  have "loop_history r = loop_history r'" by (rule ext) (use assms in \<open>cases "pc r'"; simp add: loop_history_def\<close>)
  with assms show ?thesis by (simp add: loop_inv_def stop_ok_def loop_phase_def)
qed

lemma upd_core_ctl_ok: "runner_ok Q r \<Longrightarrow> runner_ok Q (upd_core_ctl f r)"
proof -
  assume r: "runner_ok Q r"
  have "loop_inv (upd_core_ctl f r) = loop_inv r" by (rule loop_inv_cong) simp_all
  moreover have "all_controls (servo_control Q) (\<lambda>_. True) 1 (upd_core_ctl f r)"
    using r by (auto simp: runner_ok_def upd_core_ctl_def all_controls_def list_all_iff)
  ultimately show ?thesis using r by (simp add: runner_ok_def)
qed

lemma owner_stopping: "owner_view s = owner_view s' \<Longrightarrow> sv_stopping s = sv_stopping s'"
  by (simp add: owner_view_def)

text \<open>
  C12. Stopping ends the run. On a running controller \<open>stop\<close> returns (the RT thread needs at most the cycles
  of its stopping window, whatever the bus does): the runner is gone, the master it used has been closed,
  every parked caller finds the stop flag, and raw SDO access is refused from then on.
\<close>

theorem stop_ends_run:
  assumes "host_ok Q h" "rt_runner h = Some r" "unat (teardown_cycles (rt_cfg r)) \<le> length join"
  shows "\<exists>h' m. stop S join h = Some (Inr (), h') \<and> rt_runner h' = None \<and> idle_master h' = Some (Master_close S m)
    \<and> sv_stopping (ctl h') \<and> (\<forall>g. await_move_poll g (ctl h') \<noteq> MoveWait) \<and> await_homing_poll (ctl h') \<noteq> None
    \<and> fst (sdo_read S i sub n h') = Inl (sdo_not_running ''sdo_read'')
    \<and> fst (sdo_write S i sub data h') = Inl (sdo_not_running ''sdo_write'')"
proof -
  let ?r = "upd_core_ctl raise_stop r"
  have ok: "runner_ok Q ?r" using assms(1,2) by (simp add: host_ok_def upd_core_ctl_ok)
  define r1 where "r1 = foldl (rt_cycle S) (Runner_stop_begin ?r) join"
  have st: "started ?r" "loop_inv ?r" using ok by (simp_all add: runner_ok_def)
  have ph: "phase r1 = PhStopped" unfolding r1_def by (rule stop_begin_ends) (use st assms(3) in simp_all)
  have ok1: "runner_ok Q r1" unfolding r1_def by (rule runner_ok_run) (rule request_stop_ok [OF ok])
  have "all_controls (servo_control Q) (\<lambda>s. owner_view s = owner_view (core_ctl (Runner_stop_begin ?r) (idle_ctl h))) 1 r1"
    unfolding r1_def by (rule servo_rt.run_keeps) (rule runner_ok_view [OF request_stop_ok [OF ok]])
  then obtain a where a: "controls r1 = [a]" "owner_view (at_control a) = owner_view (core_ctl (Runner_stop_begin ?r) (idle_ctl h))"
    by (rule single_control_ctl)
  have "sv_stopping (core_ctl (Runner_stop_begin ?r) (idle_ctl h))"
    using ok by (auto simp: runner_ok_def all_controls_def core_ctl_def upd_core_ctl_def Runner_stop_begin_def
        raise_stop_def bump_wake_def length_Suc_conv)
  then have stp: "sv_stopping (at_control a)" using owner_stopping [OF a(2)] by simp
  define h' where "h' = \<lparr>idle_ctl = at_control a, idle_master = Some (Master_close S (rt_master r1)), rt_runner = None\<rparr>"
  have "stop S join h = Some (Inr (), h')"
    using assms(2) st ph ok1 a(1)
    by (simp add: stop_def hm_seq_def hm_bind_def drop_runner_def r1_def [symmetric] Runner_stop_poll_def runner_ok_def
        core_ctl_def h'_def)
  then show ?thesis
    using stp by (intro exI [of _ h'] exI [of _ "rt_master r1"])
      (simp add: h'_def sdo_read_def sdo_write_def on_live_master_def await_move_poll_def await_homing_poll_def)
qed

text \<open>A running host: the controller is in the steady loop of a runner.\<close>

definition demo_run_core :: "(ec_errort list, Command list ServoController) RtCore" where
  "demo_run_core = (Runner_new demo_master
     \<lparr>rt_priority = 80, require_realtime = False, bringup_timeout_ms = 1000, teardown_cycles = 2, stop_join_timeout_ms = 0\<rparr>)
     \<lparr>controls := [\<lparr>at_slave_id = 1, at_ops = servo_control (list_queue 4), at_control = demo_controller LOperational,
                    at_trace = [HBringup, HOperational, HStep False]\<rparr>],
      pc := PcSteady, phase := PhRunning, started := True\<rparr>"

definition demo_run_host :: "(Command list, ec_errort list) ServoHost" where
  "demo_run_host = \<lparr>idle_ctl = demo_controller LOperational, idle_master = None, rt_runner = Some demo_run_core\<rparr>"

lemma demo_run_ok: "runner_ok (list_queue 4) demo_run_core"
proof -
  have "running_history [HBringup, HOperational, HStep False]"
    unfolding running_history_def by (intro exI [of _ 1]) simp
  then show ?thesis
    by (simp add: runner_ok_def demo_run_core_def Runner_new_def loop_inv_def stop_ok_def loop_phase_def loop_history_def
        traces_def all_controls_def)
qed

theorem stop_ends_run_witness:
  "\<exists>h'. stop demo_soem [demo_env, demo_env] demo_run_host = Some (Inr (), h') \<and> rt_runner h' = None \<and> sv_stopping (ctl h')"
proof -
  have "unat (teardown_cycles (rt_cfg demo_run_core)) \<le> length [demo_env, demo_env]"
    by (simp add: demo_run_core_def Runner_new_def)
  moreover have "host_ok (list_queue 4) demo_run_host" "rt_runner demo_run_host = Some demo_run_core"
    using demo_run_ok by (simp_all add: host_ok_def demo_run_host_def)
  ultimately show ?thesis
    using stop_ends_run [of "list_queue 4" demo_run_host demo_run_core "[demo_env, demo_env]" demo_soem] by blast
qed

subsection \<open>Every runner the owner makes is well-formed\<close>

lemma start_keeps_controls:
  assumes "em_for is (\<lambda>i core.
        let a = controls core ! i in
        case conf (at_slave_id a) (at_control a) (rt_master core) of
          (Inl e, m) \<Rightarrow> (Inl e, core\<lparr>rt_master := m\<rparr>)
        | (Inr s, m) \<Rightarrow> (Inr (), core\<lparr>rt_master := m, controls := (controls core)[i := a\<lparr>at_control := s\<rparr>]\<rparr>)) core
     = (Inr (), core')"
    "all_controls ops (\<lambda>_. True) n core" "set is \<subseteq> {..<n}"
  shows "all_controls ops (\<lambda>_. True) n core'"
  using assms
proof (induction "is" arbitrary: core)
  case (Cons i "is")
  let ?a = "controls core ! i"
  obtain s m where c: "conf (at_slave_id ?a) (at_control ?a) (rt_master core) = (Inr s, m)"
    using Cons.prems(1) by (auto simp: em_seq_apply Let_def split: prod.splits sum.splits)
  define core1 where "core1 = core\<lparr>rt_master := m, controls := (controls core)[i := ?a\<lparr>at_control := s\<rparr>]\<rparr>"
  have "at_ops ?a = ops" using Cons.prems(2,3) by (simp add: all_controls_def list_all_length)
  then have "all_controls ops (\<lambda>_. True) n core1"
    using Cons.prems(2,3) by (auto simp: core1_def all_controls_def list_all_length nth_list_update)
  then show ?case
    using Cons.prems(1,3) c by (intro Cons.IH [of core1]) (simp_all add: em_seq_apply core1_def Let_def)
qed simp

lemma Runner_start_controls:
  assumes "Runner_start conf rt_ok now core = (Inr (), core')" "all_controls ops (\<lambda>_. True) n core"
  shows "all_controls ops (\<lambda>_. True) n core'" "started core'"
proof -
  obtain core1 where c: "em_for [0..<length (controls core)] (\<lambda>i core.
        let a = controls core ! i in
        case conf (at_slave_id a) (at_control a) (rt_master core) of
          (Inl e, m) \<Rightarrow> (Inl e, core\<lparr>rt_master := m\<rparr>)
        | (Inr s, m) \<Rightarrow> (Inr (), core\<lparr>rt_master := m, controls := (controls core)[i := a\<lparr>at_control := s\<rparr>]\<rparr>)) core
      = (Inr (), core1)"
    and core': "core' = rt_prelude rt_ok now (core1\<lparr>started := True, phase := PhBringingUp\<rparr>)"
    using assms(1) by (auto simp: Runner_start_def em_bind_apply em_seq_Inr_iff split: if_splits)
  have "all_controls ops (\<lambda>_. True) n core1"
    by (rule start_keeps_controls [OF c assms(2)]) (use assms(2) in \<open>auto simp: all_controls_def\<close>)
  then show "all_controls ops (\<lambda>_. True) n core'" "started core'"
    unfolding core' by (auto simp: rt_prelude_def Let_def all_controls_def list_all_iff)
qed

lemma spawn_runner_ok:
  assumes "rt_runner h = None" shows "host_ok Q (spawn_runner S Q env h)"
proof -
  have "runner_ok Q r"
    if "em_seq (Runner_attach slave (servo_control Q) s) (Runner_start (on_configured S) rt_ok now) (Runner_new m cfg) = (Inr x, r)"
    for slave s rt_ok now m cfg x r
  proof -
    from that obtain r1 where a: "Runner_attach slave (servo_control Q) s (Runner_new m cfg) = (Inr (), r1)"
      and st: "Runner_start (on_configured S) rt_ok now r1 = (Inr (), r)"
      by (auto simp: em_seq_Inr_iff)
    have "all_controls (servo_control Q) (\<lambda>_. True) 1 r1"
      using a by (auto simp: Runner_attach_def em_bind_apply Runner_new_def all_controls_def split: if_splits)
    with Runner_start_controls [OF st] Runner_start_inv [OF Runner_attach_fresh [OF a Runner_new_fresh] st]
    show ?thesis by (simp add: runner_ok_def)
  qed
  then show ?thesis
    using assms by (auto simp: spawn_runner_def host_ok_def Let_def split: option.splits prod.splits sum.splits)
qed

lemma run_rt_ok: "host_ok Q h \<Longrightarrow> host_ok Q (run_rt S es h)"
  by (auto simp: host_ok_def run_rt_def runner_ok_run)

lemma upd_ctl_ok: "host_ok Q h \<Longrightarrow> host_ok Q (upd_ctl f h)"
  by (auto simp: host_ok_def upd_core_ctl_ok)

lemma idle_ok: "rt_runner h = None \<Longrightarrow> host_ok Q h"
  by (simp add: host_ok_def)

lemma poll_bringup_ok: "host_ok Q h \<Longrightarrow> host_ok Q (snd (poll_bringup S polls h))"
  by (induction S polls h rule: poll_bringup.induct) (auto simp: run_rt_ok)

lemma attempt_ok: "rt_runner h = None \<Longrightarrow> host_ok Q (snd (attempt_bringup S Q env h))"
  by (simp add: attempt_bringup_def Let_def spawn_runner_ok poll_bringup_ok)

lemma idle_steps:
  "host_resolve_fields h = Some (r, h') \<Longrightarrow> rt_runner h' = rt_runner h"
  "host_vendor_reset S h = Some (r, h') \<Longrightarrow> rt_runner h' = rt_runner h"
  "build_master dbg S cx h = Some (r, h') \<Longrightarrow> rt_runner h' = rt_runner h"
  by (auto simp: host_resolve_fields_def host_vendor_reset_def build_master_def split: option.splits prod.splits sum.splits)

text \<open>A thrown exception leaves no runner; a return leaves a well-formed one, or none.\<close>

definition well_left :: "'q spsc_queue \<Rightarrow> ec_error + unit \<Rightarrow> ('q, 'w) ServoHost \<Rightarrow> bool" where
  "well_left Q r h \<longleftrightarrow> host_ok Q h \<and> (\<forall>e. r = Inl e \<longrightarrow> rt_runner h = None)"

lemma well_left_idle: "rt_runner h = None \<Longrightarrow> well_left Q r h"
  by (simp add: well_left_def idle_ok)

lemma attempt_then_left:
  assumes "rt_runner h = None"
    and IH: "\<And>k g r h'. nxt = Some k \<Longrightarrow> rt_runner g = None \<Longrightarrow> k g = Some (r, h') \<Longrightarrow> well_left Q r h'"
    and t: "attempt_then dbg S Q aenv nxt h = Some (r, h')"
  shows "well_left Q r h'"
proof -
  obtain b h1 where a: "attempt_bringup S Q aenv h = (b, h1)" by fastforce
  have ok: "host_ok Q h1" using attempt_ok [OF assms(1), of Q S aenv] a by simp
  consider "b \<or> degraded_reason (ctl h1) = [] \<and> nxt = None" | "\<not> b" "degraded_reason (ctl h1) \<noteq> []"
    | k where "\<not> b" "degraded_reason (ctl h1) = []" "nxt = Some k"
    by (cases nxt) auto
  then show ?thesis
  proof cases
    case 1
    with t a ok show ?thesis by (cases b) (auto simp: attempt_then_def well_left_def)
  next
    case 2
    with t a have "rt_runner h' = None" by (auto simp: attempt_then_def hm_seq_iff dest: drop_runner_result(2))
    then show ?thesis by (rule well_left_idle)
  next
    case 3
    with t a obtain h2 where "rt_runner h2 = None" "k h2 = Some (r, h') \<or> rt_runner h' = None"
      by (auto simp: attempt_then_def hm_seq_iff dest!: drop_runner_result(2) idle_steps(3))
    with IH [OF 3(3)] show ?thesis using well_left_idle by blast
  qed
qed

lemma bring_up_left:
  "rt_runner h = None \<Longrightarrow> bring_up_from dbg S Q env left h = Some (r, h') \<Longrightarrow> well_left Q r h'"
proof (induction left arbitrary: h r h' rule: less_induct)
  case (less left)
  let ?nxt = "case left of 0 \<Rightarrow> None | Suc n \<Rightarrow> Some (bring_up_from dbg S Q env n)"
  have t: "well_left Q r h'" if "rt_runner g = None" "attempt_then dbg S Q (env left) ?nxt g = Some (r, h')" for g
    using that(1) _ that(2) by (rule attempt_then_left) (auto split: nat.splits intro: less.IH)
  from less.prems(2) show ?case
    unfolding bring_up_from.simps [of dbg S Q env left] hm_seq_iff [where r = r]
    using less.prems(1) by (elim disjE exE conjE) (auto dest!: idle_steps(1) idle_steps(2) intro: well_left_idle t)
qed

lemma build_left: "rt_runner h = None \<Longrightarrow> rebuild dbg S Q env h = Some (r, h') \<Longrightarrow> well_left Q r h'"
  by (auto simp: rebuild_def hm_seq_iff bring_up_def dest!: idle_steps(3) intro: well_left_idle bring_up_left)

lemma start_left: "rt_runner h = None \<Longrightarrow> start_checked dbg S Q env h = Some (r, h') \<Longrightarrow> well_left Q r h'"
  by (auto simp: start_checked_def split: if_splits intro: well_left_idle build_left)

lemma teardown_torn:
  "teardown S join h = Some (r, h') \<Longrightarrow> r = Inr () \<and> rt_runner h' = None \<and> idle_master h' = None"
  using teardown_result by blast

lemma reconfigure_left:
  assumes "reconfigure dbg S Q c env h = Some (r, h')" "validated c = Inr c'"
  shows "well_left Q r h' \<and> (realtime_missing env c' \<longrightarrow> (\<exists>m. r = Inl (Error m)) \<and> master h' = None)"
proof -
  from assms obtain u where u: "rt_runner u = None" "idle_master u = None"
    "start_checked dbg S Q env (upd_ctl (\<lambda>s. s\<lparr>sv_config := c'\<rparr>) (upd_ctl (\<lambda>s. s\<lparr>bus_lost := False\<rparr>) u)) = Some (r, h')"
    by (auto simp: reconfigure_def hm_seq_iff dest!: teardown_torn)
  then have "well_left Q r h'" by (intro start_left [OF _ u(3)]) simp
  moreover have "(\<exists>m. r = Inl (Error m)) \<and> master h' = None" if "realtime_missing env c'"
    using u that by (auto simp: start_checked_def master_def)
  ultimately show ?thesis by blast
qed

lemma recover_left:
  assumes "host_ok Q h" "maybe_recover_bus dbg S Q env h = Some (r, h')"
  shows "host_ok Q h'"
proof -
  have ab: "rt_runner g = None" if "abandon S join w h1 = Some (x, g)" for join w h1 x g
    using abandon_result [OF that] by simp
  have re: "host_ok Q g" if "rebuild dbg S Q env u = Some (x, g)" "rt_runner u = None" for u x g
    using build_left [OF that(2,1)] by (simp add: well_left_def)
  with assms show ?thesis
    by (auto simp: maybe_recover_bus_def hm_seq_iff hm_catch_iff split: if_splits
        dest!: teardown_torn ab intro: idle_ok re)
qed

text \<open>
  The life of a host: it is built without master and runner; its owner starts, stops, reconfigures and
  recovers it; the RT thread runs; the other calls change the controller or go to the bus.
\<close>

definition host_new :: "'q ServoController \<Rightarrow> ('q, 'w) ServoHost" where
  "host_new s = \<lparr>idle_ctl = s, idle_master = None, rt_runner = None\<rparr>"

inductive host_step ::
    "bool \<Rightarrow> 'w soem \<Rightarrow> 'q spsc_queue \<Rightarrow> ('q, 'w) ServoHost \<Rightarrow> ('q, 'w) ServoHost \<Rightarrow> bool" for dbg S Q where
  hs_start: "rt_runner h = None \<Longrightarrow> start dbg S Q env h = Some (r, h') \<Longrightarrow> host_step dbg S Q h h'"
| hs_stop: "stop S join h = Some (r, h') \<Longrightarrow> host_step dbg S Q h h'"
| hs_reconfigure: "reconfigure dbg S Q c env h = Some (r, h') \<Longrightarrow> host_step dbg S Q h h'"
| hs_recover: "maybe_recover_bus dbg S Q env h = Some (r, h') \<Longrightarrow> host_step dbg S Q h h'"
| hs_rt: "host_step dbg S Q h (run_rt S es h)"
| hs_verb: "host_step dbg S Q h (upd_ctl f h)"
| hs_sdo_read: "host_step dbg S Q h (snd (sdo_read S i sub n h))"
| hs_sdo_write: "host_step dbg S Q h (snd (sdo_write S i sub data h))"

lemma live_master_ok: "host_ok Q h \<Longrightarrow> host_ok Q (snd (on_live_master verb f h))"
proof -
  have "loop_inv (r\<lparr>rt_master := m\<rparr>) = loop_inv r" for r :: "('b, 'a ServoController) RtCore" and m
    by (rule loop_inv_cong) simp_all
  then show "host_ok Q h \<Longrightarrow> host_ok Q (snd (on_live_master verb f h))"
    by (auto simp: on_live_master_def host_ok_def runner_ok_def all_controls_def split: option.splits prod.splits)
qed

lemma host_step_ok: "host_step dbg S Q h h' \<Longrightarrow> host_ok Q h \<Longrightarrow> host_ok Q h'"
proof (induction rule: host_step.induct)
  case (hs_start h env r h')
  then show ?case using start_left [of h dbg S Q env r h'] by (simp add: start_def well_left_def)
next
  case (hs_stop join h r h')
  then show ?case by (auto simp: stop_def hm_seq_iff dest!: drop_runner_result(2) intro: idle_ok)
next
  case (hs_reconfigure c env h r h')
  then show ?case
    using reconfigure_left [of dbg S Q c env h r h'] by (cases "validated c") (auto simp: reconfigure_def well_left_def)
next
  case (hs_recover env h r h')
  then show ?case by (auto intro: recover_left)
qed (auto intro: run_rt_ok upd_ctl_ok live_master_ok simp: sdo_read_def sdo_write_def)

lemma host_reachable_ok: "(host_step dbg S Q)\<^sup>*\<^sup>* (host_new s) h \<Longrightarrow> host_ok Q h"
  by (induction rule: rtranclp_induct) (auto simp: host_new_def idle_ok intro: host_step_ok)



end
