(* ===== verification/ServoHome.thy ===== *)
theory ServoHome
  imports ServoHost
begin

text \<open>
  The homing verb of \<^verbatim>\<open>src/src/viam/lib/servo_controller.cpp\<close> (\<^verbatim>\<open>home\<close> and its helpers): the homing objects
  are written over SDO, the RT loop is told to run, the caller parks, and whatever happened the running
  mode and the torque limit are put back. The RT side of a homing run is in the theory of the lifecycle;
  here both meet: while the caller is parked the RT thread runs the cycles it is given.
\<close>

subsection \<open>The homing objects\<close>

definition hm_return :: "'a \<Rightarrow> ('s, 'a) hm" where
  "hm_return x = hm_lift (em_return x)"

definition hm_throw :: "ec_error \<Rightarrow> ('s, 'a) hm" where
  "hm_throw e = hm_lift (em_throw e)"

definition hm_when :: "bool \<Rightarrow> ('s, unit) hm \<Rightarrow> ('s, unit) hm" where
  "hm_when b m = (if b then m else hm_return ())"

text \<open>\<^verbatim>\<open>std::vector::resize\<close> on bytes.\<close>

definition resize :: "nat \<Rightarrow> byte list \<Rightarrow> byte list" where
  "resize n bs = take n bs @ replicate (n - length bs) 0"

text \<open>\<^verbatim>\<open>std::round\<close> on a double.\<close>

definition dround :: "double \<Rightarrow> double" where
  "dround d = (case d of Fin x \<Rightarrow> Fin (of_int (llround x)) | _ \<Rightarrow> d)"

definition home_object :: "'w soem \<Rightarrow> u16 \<Rightarrow> u8 \<Rightarrow> 'a::len word \<Rightarrow> (('q, 'w) ServoHost, unit) hm" where
  "home_object S index sub v = hm_lift (sdo_write S index sub (store_le (replicate (LENGTH('a) div 8) 0) v))"

definition homing_torque_type :: "Homing \<Rightarrow> ec_error + TypeInfo option" where
  "homing_torque_type hc =
     (if dlt (Fin 0) (h_torque_percent hc)
      then case find_type (to_type (h_torque hc)) of
             None \<Rightarrow> Inl (Error (''home: unknown homing torque object type '' @ quote (to_type (h_torque hc))))
           | Some t \<Rightarrow> Inr (Some t)
      else Inr None)"

definition save_torque :: "'w soem \<Rightarrow> Homing \<Rightarrow> TypeInfo option \<Rightarrow> (('q, 'w) ServoHost, byte list) hm" where
  "save_torque S hc torque =
     (case torque of
        None \<Rightarrow> hm_return []
      | Some t \<Rightarrow> hm_bind (hm_lift (sdo_read S (to_index (h_torque hc)) (to_sub (h_torque hc)) (ti_width t)))
                    (\<lambda>(n, bs). hm_return (resize n (resize (ti_width t) bs))))"

definition check_method_echo :: "'w soem \<Rightarrow> i8 \<Rightarrow> (('q, 'w) ServoHost, unit) hm" where
  "check_method_echo S method =
     hm_bind (hm_lift (sdo_read S 0x6098 0 4)) (\<lambda>(n, bs).
       if n \<noteq> 1 \<or> resize 4 bs ! 0 \<noteq> method
       then hm_throw (Error (''home: the drive refused homing method '' @ to_string_int (sint method)))
       else hm_return ())"

definition clamp_torque :: "'w soem \<Rightarrow> Homing \<Rightarrow> TypeInfo option \<Rightarrow> (('q, 'w) ServoHost, unit) hm" where
  "clamp_torque S hc torque =
     (case torque of
        None \<Rightarrow> hm_return ()
      | Some t \<Rightarrow>
          (case ti_encode t \<lparr>in_number = Some (dround (dmul (h_torque_percent hc) (units_per_percent (h_torque hc)))), in_text = None\<rparr> of
             None \<Rightarrow> (\<lambda>_. None)
           | Some (Inl e) \<Rightarrow> hm_throw e
           | Some (Inr bs) \<Rightarrow> hm_lift (sdo_write S (to_index (h_torque hc)) (to_sub (h_torque hc)) bs)))"

definition write_homing_objects :: "'w soem \<Rightarrow> (('q, 'w) ServoHost, byte list) hm" where
  "write_homing_objects S =
     hm_bind (hm_lift (em_gets (\<lambda>h. sv_config (ctl h)))) (\<lambda>c.
     let hc = homing c; cpr = counts_per_rev c; ratio = gear_ratio c in
     if h_method hc = 0 then hm_throw (Error ''home: needs the homing config attribute'')
     else case homing_torque_type hc of
       Inl e \<Rightarrow> hm_throw e
     | Inr torque \<Rightarrow>
         hm_bind (save_torque S hc torque) (\<lambda>saved.
         hm_seq (home_object S 0x6098 0 (h_method hc))
        (hm_seq (check_method_echo S (h_method hc))
        (hm_seq (home_object S 0x6099 1 (rpm_to_device_velocity (h_speed_rpm hc) cpr ratio))
        (hm_seq (hm_when (dlt (Fin 0) (h_accel_rpm_per_s hc))
                   (home_object S 0x609A 0 (rpm_to_device_velocity (h_accel_rpm_per_s hc) cpr ratio)))
        (hm_seq (clamp_torque S hc torque)
                (hm_return saved)))))))"

text \<open>Cleanup that never throws.\<close>

definition hm_ignore :: "('s, unit) hm \<Rightarrow> ('s, unit) hm" where
  "hm_ignore m = hm_catch m (\<lambda>_. hm_return ())"

definition restore_homing_torque :: "'w soem \<Rightarrow> byte list \<Rightarrow> (('q, 'w) ServoHost, unit) hm" where
  "restore_homing_torque S saved =
     (if saved = [] then hm_return ()
      else hm_bind (hm_lift (em_gets (\<lambda>h. h_torque (homing (sv_config (ctl h))))))
             (\<lambda>t. hm_ignore (hm_lift (sdo_write S (to_index t) (to_sub t) saved))))"

definition select_drive_mode :: "'w soem \<Rightarrow> Cia402Mode \<Rightarrow> (('q, 'w) ServoHost, unit) hm" where
  "select_drive_mode S mode = hm_lift (sdo_write S 0x6060 0 [mode])"

definition restore_drive_mode :: "'w soem \<Rightarrow> (('q, 'w) ServoHost, unit) hm" where
  "restore_drive_mode S = (\<lambda>h. select_drive_mode S (commanded_cia402_mode (ctl h)) h)"

subsection \<open>The verb\<close>

text \<open>The conversion of a finite non-negative double to \<^verbatim>\<open>uint32_t\<close> truncates.\<close>

definition u32_of_double :: "double \<Rightarrow> u32" where
  "u32_of_double d = (case d of Fin x \<Rightarrow> word_of_int \<lfloor>x\<rfloor> | _ \<Rightarrow> 0)"

text \<open>Under the shared lock: the guards, the generation and the motion slot.\<close>

definition home_begin :: "('q ServoController, u32 \<times> u32) em" where
  "home_begin s =
     (if degraded s then (Inl (Error (''home unavailable: '' @ degraded_text s)), s)
      else if estop_engaged s then (Inl (Error ''home: emergency stop engaged -- release it before homing''), s)
      else if \<not> powered (pub s) then (Inl (Error ''home: the drive is not energized''), s)
      else
        let timeout = u32_of_double (dmul (h_timeout_s (homing (sv_config s))) (double_of_u32 (sv_loop_rate_hz (sv_config s))))
        in em_bind next_gen (\<lambda>g s1.
             case try_claim_motion_slot g s1 of
               (False, s2) \<Rightarrow> (Inl (Error ''home: a motion operation is already in progress''), s2)
             | (True, s2) \<Rightarrow> (Inr (g, timeout), s2)) s)"

definition on_ctl :: "('q ServoController, 'a) em \<Rightarrow> (('q, 'w) ServoHost, 'a) hm" where
  "on_ctl m h = (case m (ctl h) of (r, s) \<Rightarrow> Some (r, upd_ctl (\<lambda>_. s) h))"

text \<open>Parked on the homing state; every element is the RT cycles until the next wake.\<close>

fun await_homing :: "'w soem \<Rightarrow> rt_env list list \<Rightarrow> (('q, 'w) ServoHost, bool) hm" where
  "await_homing S [] h =
     (case await_homing_poll (ctl h) of
        Some (HomingAttained b) \<Rightarrow> Some (Inr b, h)
      | Some HomingThrows \<Rightarrow> Some (Inl (Error ''home: controller stopped / RT loop not alive''), h)
      | None \<Rightarrow> None)"
| "await_homing S (es # ws) h =
     (case await_homing_poll (ctl h) of
        Some (HomingAttained b) \<Rightarrow> Some (Inr b, h)
      | Some HomingThrows \<Rightarrow> Some (Inl (Error ''home: controller stopped / RT loop not alive''), h)
      | None \<Rightarrow> await_homing S ws (run_rt S es h))"

definition home_cleanup :: "'w soem \<Rightarrow> byte list \<Rightarrow> u32 \<Rightarrow> ec_error \<Rightarrow> (('q, 'w) ServoHost, 'a) hm" where
  "home_cleanup S saved g e =
     hm_seq (host_modify (upd_pub (\<lambda>p. p\<lparr>homing_state := HomingFailed\<rparr>)))
    (hm_seq (hm_ignore (restore_drive_mode S))
    (hm_seq (restore_homing_torque S saved)
    (hm_seq (host_modify (release_motion_slot g))
            (hm_throw e))))"

definition home_wait ::
    "'w soem \<Rightarrow> 'q spsc_queue \<Rightarrow> u32 \<Rightarrow> u32 \<Rightarrow> rt_env list list \<Rightarrow> (('q, 'w) ServoHost, bool) hm" where
  "home_wait S Q g timeout waits =
     hm_seq (select_drive_mode S Mode_Homing)
    (hm_seq (host_modify (upd_pub (\<lambda>p. p\<lparr>homing_fail := HfNone, homing_state := HomingRunning\<rparr>)))
    (hm_seq (host_modify (push_command Q (CStartHoming \<lparr>sh_generation = g, sh_timeout_cycles = timeout\<rparr>)))
            (await_homing S waits)))"

definition home_finish :: "'w soem \<Rightarrow> byte list \<Rightarrow> u32 \<Rightarrow> bool \<Rightarrow> (('q, 'w) ServoHost, bool) hm" where
  "home_finish S saved g attained =
     hm_seq (host_modify (release_motion_slot g))
    (hm_seq (restore_homing_torque S saved)
    (hm_seq (restore_drive_mode S)
            (hm_return attained)))"

definition home_run ::
    "'w soem \<Rightarrow> 'q spsc_queue \<Rightarrow> rt_env list list \<Rightarrow> u32 \<times> u32 \<Rightarrow> (('q, 'w) ServoHost, bool) hm" where
  "home_run S Q waits gt =
     hm_bind (hm_catch (write_homing_objects S) (home_cleanup S [] (fst gt))) (\<lambda>saved.
     hm_bind (hm_catch (home_wait S Q (fst gt) (snd gt) waits) (home_cleanup S saved (fst gt)))
             (home_finish S saved (fst gt)))"

definition home ::
    "bool \<Rightarrow> 'w soem \<Rightarrow> 'q spsc_queue \<Rightarrow> 'w host_env \<Rightarrow> rt_env list list \<Rightarrow> (('q, 'w) ServoHost, bool) hm" where
  "home dbg S Q env waits =
     hm_seq (maybe_recover_bus dbg S Q env) (hm_bind (on_ctl home_begin) (home_run S Q waits))"

subsection \<open>Computations that leave the controller alone\<close>

definition bus_only :: "(('q, 'w) ServoHost, 'a) hm \<Rightarrow> bool" where
  "bus_only m \<longleftrightarrow> (\<forall>h r h'. m h = Some (r, h') \<longrightarrow> ctl h' = ctl h \<and> (\<forall>Q. host_ok Q h \<longrightarrow> host_ok Q h'))"

lemma bus_onlyD: "bus_only m \<Longrightarrow> m h = Some (r, h') \<Longrightarrow> ctl h' = ctl h \<and> (host_ok Q h \<longrightarrow> host_ok Q h')"
  unfolding bus_only_def by blast

lemma bus_only_pure [simp, intro]: "bus_only (hm_return x)" "bus_only (hm_throw e)" "bus_only (hm_lift (em_gets f))" "bus_only (\<lambda>_. None)"
  by (simp_all add: bus_only_def hm_return_def hm_throw_def)

lemma bus_only_bind [intro]: "bus_only m \<Longrightarrow> (\<And>x. bus_only (f x)) \<Longrightarrow> bus_only (hm_bind m f)"
  unfolding bus_only_def hm_bind_def by (fastforce split: option.splits prod.splits sum.splits)

lemma bus_only_seq [intro]: "bus_only m \<Longrightarrow> bus_only k \<Longrightarrow> bus_only (hm_seq m k)"
  by (simp add: hm_seq_def bus_only_bind)

lemma bus_only_catch [intro]: "bus_only m \<Longrightarrow> (\<And>e. bus_only (f e)) \<Longrightarrow> bus_only (hm_catch m f)"
  unfolding bus_only_def hm_catch_iff by fastforce

lemma ctl_live_master [simp]: "ctl (snd (on_live_master v f h)) = ctl h"
  by (auto simp: on_live_master_def ctl_def core_ctl_def split: option.splits prod.splits list.splits)

lemma bus_only_live [intro]: "bus_only (hm_lift (on_live_master v f))"
  unfolding bus_only_def hm_lift_apply by (metis ctl_live_master live_master_ok option.inject snd_conv)

lemma bus_only_sdo [simp, intro]:
  "bus_only (hm_lift (sdo_write S i sub d))" "bus_only (hm_lift (sdo_read S i sub n))"
  by (simp_all add: sdo_write_def sdo_read_def bus_only_live)

lemma bus_only_helpers [simp, intro]:
  "bus_only (home_object S i sub v)" "bus_only (check_method_echo S method)" "bus_only (save_torque S hc t)"
  "bus_only (clamp_torque S hc t)" "bus_only (restore_homing_torque S saved)" "bus_only (select_drive_mode S mode)"
  "bus_only m \<Longrightarrow> bus_only (hm_when b m)" "bus_only m \<Longrightarrow> bus_only (hm_ignore m)"
  by (auto simp: home_object_def check_method_echo_def save_torque_def clamp_torque_def restore_homing_torque_def
      select_drive_mode_def hm_when_def hm_ignore_def split: option.splits sum.splits prod.splits)

lemma bus_only_restore_mode [simp, intro]: "bus_only (restore_drive_mode S)"
  unfolding restore_drive_mode_def bus_only_def using bus_onlyD [OF bus_only_helpers(6)] by blast

lemma bus_only_write_homing [simp, intro]: "bus_only (write_homing_objects S)"
  unfolding write_homing_objects_def Let_def
  by (intro bus_only_bind bus_only_pure) (auto intro!: bus_only_bind bus_only_seq split: sum.splits)

subsection \<open>Whatever happens, the slot is free again\<close>

lemma owner_view_run_rt: "host_ok Q h \<Longrightarrow> owner_view (ctl (run_rt S es h)) = owner_view (ctl h)"
proof (cases "rt_runner h")
  case (Some r)
  assume "host_ok Q h"
  with Some have ok: "runner_ok Q r" by (simp add: host_ok_def)
  have "all_controls (servo_control Q) (\<lambda>s. owner_view s = owner_view (core_ctl r (idle_ctl h))) 1 (foldl (rt_cycle S) r es)"
    by (rule servo_rt.run_keeps) (rule runner_ok_view [OF ok])
  then obtain a where "controls (foldl (rt_cycle S) r es) = [a]" "owner_view (at_control a) = owner_view (core_ctl r (idle_ctl h))"
    by (rule single_control_ctl)
  then show ?thesis using Some by (simp add: run_rt_def ctl_def core_ctl_def)
qed (simp add: run_rt_def)

text \<open>\<open>holds g\<close>: the composition is well-formed and generation \<open>g\<close> owns the motion slot.\<close>

definition holds :: "'q spsc_queue \<Rightarrow> u32 \<Rightarrow> ('q, 'w) ServoHost \<Rightarrow> bool" where
  "holds Q g h \<longleftrightarrow> host_ok Q h \<and> motion_slot (ctl h) = g"

definition freed :: "('q, 'w) ServoHost \<Rightarrow> bool" where
  "freed h \<longleftrightarrow> motion_slot (ctl h) = 0 \<and> homing_state (pub (ctl h)) \<noteq> HomingRunning"

lemma holds_bus_only: "bus_only m \<Longrightarrow> m h = Some (r, h') \<Longrightarrow> holds Q g h \<Longrightarrow> holds Q g h'"
  using bus_onlyD [of m h r h' Q] by (auto simp: holds_def)

lemma freed_bus_only: "bus_only m \<Longrightarrow> m h = Some (r, h') \<Longrightarrow> freed h' = freed h"
  by (auto simp: freed_def dest: bus_onlyD)

lemma homing_state_bus_only: "bus_only m \<Longrightarrow> m h = Some (r, h') \<Longrightarrow> homing_state (pub (ctl h')) = homing_state (pub (ctl h))"
  by (auto dest: bus_onlyD)

lemma holds_upd_ctl: "holds Q g h \<Longrightarrow> motion_slot (f (ctl h)) = motion_slot (ctl h) \<Longrightarrow> holds Q g (upd_ctl f h)"
  by (simp add: holds_def upd_ctl_ok)

lemma await_homing_result:
  "await_homing S ws h = Some (r, h') \<Longrightarrow> holds Q g h \<Longrightarrow>
   holds Q g h' \<and> (\<forall>b. r = Inr b \<longrightarrow> homing_state (pub (ctl h')) \<noteq> HomingRunning)"
proof (induction S ws h rule: await_homing.induct)
  case (1 S h)
  then show ?case
    by (auto simp: await_homing_poll_def split: option.splits homing_verdict.splits if_splits)
next
  case (2 S es ws h)
  show ?case
  proof (cases "await_homing_poll (ctl h)")
    case None
    have "holds Q g (run_rt S es h)"
      using 2(3) owner_view_run_rt [of Q h S es] by (simp add: holds_def run_rt_ok owner_view_def)
    with 2 None show ?thesis by simp
  next
    case (Some v)
    with 2(2,3) show ?thesis
      by (auto simp: await_homing_poll_def split: homing_verdict.splits if_splits)
  qed
qed

lemma home_cleanup_result:
  assumes "home_cleanup S saved g e h = Some (r, h')" "holds Q g h"
  shows "r = Inl e \<and> freed h'"
proof -
  let ?h1 = "upd_ctl (upd_pub (\<lambda>p. p\<lparr>homing_state := HomingFailed\<rparr>)) h"
  from assms(1) obtain h2 h3 where r: "r = Inl e" "h' = upd_ctl (release_motion_slot g) h3"
    and m: "hm_ignore (restore_drive_mode S) ?h1 = Some (Inr (), h2)" "restore_homing_torque S saved h2 = Some (Inr (), h3)"
    by (auto simp: home_cleanup_def hm_seq_iff hm_throw_def hm_ignore_def hm_catch_iff hm_return_def
        restore_homing_torque_def hm_bind_def split: if_splits)
  have "ctl h3 = ctl ?h1" 
    using bus_onlyD [of "hm_ignore (restore_drive_mode S)" ?h1] bus_onlyD [of "restore_homing_torque S saved" h2] m by auto
  then show ?thesis using r assms(2) by (auto simp: freed_def holds_def release_motion_slot_def upd_pub_def)
qed

lemma home_wait_result:
  assumes "home_wait S Q0 g t ws h = Some (r, h')" "holds Q g h"
  shows "holds Q g h' \<and> (\<forall>b. r = Inr b \<longrightarrow> homing_state (pub (ctl h')) \<noteq> HomingRunning)"
proof -
  have sel: "motion_slot (push_command Q0 c s) = motion_slot s" "motion_slot (upd_pub f s) = motion_slot s" for c s f
    by (simp_all add: upd_pub_def)
  consider (refused) e where "select_drive_mode S Mode_Homing h = Some (Inl e, h')" "r = Inl e"
    | (parked) h1 where "select_drive_mode S Mode_Homing h = Some (Inr (), h1)"
      "await_homing S ws (upd_ctl (push_command Q0 (CStartHoming \<lparr>sh_generation = g, sh_timeout_cycles = t\<rparr>))
         (upd_ctl (upd_pub (\<lambda>p. p\<lparr>homing_fail := HfNone, homing_state := HomingRunning\<rparr>)) h1)) = Some (r, h')"
    using assms(1) by (auto simp: home_wait_def hm_seq_iff)
  then show ?thesis
  proof cases
    case refused
    then show ?thesis using holds_bus_only [OF bus_only_helpers(6) refused(1) assms(2)] by simp
  next
    case parked
    have "holds Q g h1" by (rule holds_bus_only [OF bus_only_helpers(6) parked(1) assms(2)])
    then show ?thesis by (intro await_homing_result [OF parked(2)] holds_upd_ctl) (simp_all add: sel)
  qed
qed

lemma home_finish_result:
  assumes "home_finish S saved g b h = Some (r, h')" "holds Q g h" "homing_state (pub (ctl h)) \<noteq> HomingRunning"
  shows "freed h'"
proof -
  let ?h1 = "upd_ctl (release_motion_slot g) h"
  have "bus_only (hm_seq (restore_homing_torque S saved) (hm_seq (restore_drive_mode S) (hm_return b)))" by auto
  moreover have "hm_seq (restore_homing_torque S saved) (hm_seq (restore_drive_mode S) (hm_return b)) ?h1 = Some (r, h')"
    using assms(1) by (auto simp: home_finish_def hm_seq_def hm_bind_def)
  moreover have "freed ?h1" using assms(2,3) by (simp add: freed_def holds_def release_motion_slot_def)
  ultimately show ?thesis using freed_bus_only by blast
qed

lemma hm_bind_iff:
  "hm_bind m f s = Some (r, t) \<longleftrightarrow>
     (\<exists>e. m s = Some (Inl e, t) \<and> r = Inl e) \<or> (\<exists>x u. m s = Some (Inr x, u) \<and> f x u = Some (r, t))"
  by (auto simp: hm_bind_def split: option.splits prod.splits sum.splits)

lemma catch_cleanup:
  assumes "hm_catch m (home_cleanup S saved g) h = Some (x, h')" "\<And>r h1. m h = Some (r, h1) \<Longrightarrow> holds Q g h1"
  shows "(\<exists>e. x = Inl e \<and> freed h') \<or> (\<exists>y. x = Inr y \<and> m h = Some (Inr y, h'))"
proof -
  from assms(1) consider y where "m h = Some (Inr y, h')" "x = Inr y"
    | e h1 where "m h = Some (Inl e, h1)" "home_cleanup S saved g e h1 = Some (x, h')"
    by (auto simp: hm_catch_iff)
  then show ?thesis
  proof cases
    case 2
    from home_cleanup_result [OF 2(2) assms(2) [OF 2(1)]] show ?thesis by simp
  qed simp
qed

lemma home_run_result:
  assumes "home_run S Q0 ws gt h = Some (r, h')" "holds Q (fst gt) h"
  shows "freed h'"
proof -
  let ?g = "fst gt" and ?obj = "hm_catch (write_homing_objects S) (home_cleanup S [] (fst gt))"
  let ?wait = "\<lambda>saved. hm_catch (home_wait S Q0 (fst gt) (snd gt) ws) (home_cleanup S saved (fst gt))"
  have w: "holds Q ?g h1" if "write_homing_objects S h = Some (x, h1)" for x h1
    by (rule holds_bus_only [OF bus_only_write_homing that assms(2)])
  have obj: "(\<exists>e. x = Inl e \<and> freed h1) \<or> (\<exists>y. x = Inr y \<and> holds Q ?g h1)" if "?obj h = Some (x, h1)" for x h1
  proof -
    have "(\<exists>e. x = Inl e \<and> freed h1) \<or> (\<exists>y. x = Inr y \<and> write_homing_objects S h = Some (Inr y, h1))"
      by (rule catch_cleanup [OF that]) (rule w)
    then show ?thesis using w by auto
  qed
  have wait: "(\<exists>e. x = Inl e \<and> freed h2) \<or> (\<exists>y. x = Inr y \<and> holds Q ?g h2 \<and> homing_state (pub (ctl h2)) \<noteq> HomingRunning)"
    if "?wait saved h1 = Some (x, h2)" "holds Q ?g h1" for saved x h1 h2
  proof -
    have hw: "holds Q ?g h3 \<and> (\<forall>b. z = Inr b \<longrightarrow> homing_state (pub (ctl h3)) \<noteq> HomingRunning)"
      if "home_wait S Q0 ?g (snd gt) ws h1 = Some (z, h3)" for z h3
      by (rule home_wait_result [OF that \<open>holds Q ?g h1\<close>])
    have "(\<exists>e. x = Inl e \<and> freed h2) \<or> (\<exists>y. x = Inr y \<and> home_wait S Q0 ?g (snd gt) ws h1 = Some (Inr y, h2))"
      by (rule catch_cleanup [OF that(1)]) (use hw in blast)
    then show ?thesis using hw by blast
  qed
  from assms(1) consider e where "?obj h = Some (Inl e, h')"
    | saved h1 e where "?obj h = Some (Inr saved, h1)" "?wait saved h1 = Some (Inl e, h')"
    | saved h1 b h2 where "?obj h = Some (Inr saved, h1)" "?wait saved h1 = Some (Inr b, h2)"
        "home_finish S saved ?g b h2 = Some (r, h')"
    unfolding home_run_def hm_bind_iff by blast
  then show ?thesis
  proof cases
    case 1
    with obj show ?thesis by blast
  next
    case 2
    with obj wait show ?thesis by blast
  next
    case 3
    from obj [OF 3(1)] have "holds Q ?g h1" by blast
    from wait [OF 3(2) this] have "holds Q ?g h2" "homing_state (pub (ctl h2)) \<noteq> HomingRunning" by auto
    with home_finish_result [OF 3(3)] show ?thesis by blast
  qed
qed

text \<open>
  C7. Homing always cleans up after itself. Take any call of \<open>home\<close> that returns or throws, whatever the
  drive answered to the homing objects and whatever the RT thread did while the caller was parked. Either it was
  refused before it owned anything (the bus did not recover, a guard failed, or another motion was in flight: then the
  motion slot is as it was after the recovery), or it gave the motion slot back and no homing run is
  reported as running.
\<close>

theorem home_cleans_up:
  assumes "host_ok Q h" "home dbg S Q env waits h = Some (r, h')"
  shows "(\<exists>h1 r1. maybe_recover_bus dbg S Q env h = Some (r1, h1) \<and>
           ((\<exists>e. r1 = Inl e \<and> r = Inl e \<and> h' = h1)
            \<or> (\<exists>e s. home_begin (ctl h1) = (Inl e, s) \<and> r = Inl e \<and> motion_slot (ctl h') = motion_slot (ctl h1))))
     \<or> motion_slot (ctl h') = 0 \<and> homing_state (pub (ctl h')) \<noteq> HomingRunning"
proof -
  from assms(2) consider e where "maybe_recover_bus dbg S Q env h = Some (Inl e, h')" "r = Inl e"
    | h1 where "maybe_recover_bus dbg S Q env h = Some (Inr (), h1)" "hm_bind (on_ctl home_begin) (home_run S Q waits) h1 = Some (r, h')"
    by (auto simp: home_def hm_seq_iff)
  then show ?thesis
  proof cases
    case 1
    then show ?thesis by auto
  next
    case 2
    have ok: "host_ok Q h1" by (rule recover_left [OF assms(1) 2(1)])
    obtain x s where b: "home_begin (ctl h1) = (x, s)" by fastforce
    show ?thesis
    proof (cases x)
      case (Inl e)
      then have "motion_slot s = motion_slot (ctl h1)"
        using b by (auto simp: home_begin_def next_gen_def em_bind_apply try_claim_motion_slot_def Let_def split: if_splits)
      moreover have "r = Inl e" "h' = upd_ctl (\<lambda>_. s) h1"
        using 2(2) b Inl by (auto simp: hm_bind_iff on_ctl_def)
      ultimately show ?thesis using 2(1) b Inl by auto
    next
      case (Inr gt)
      then have "motion_slot s = fst gt"
        using b by (auto simp: home_begin_def next_gen_def em_bind_apply try_claim_motion_slot_def Let_def split: if_splits)
      with ok have "holds Q (fst gt) (upd_ctl (\<lambda>_. s) h1)" by (simp add: holds_def upd_ctl_ok)
      moreover have "home_run S Q waits gt (upd_ctl (\<lambda>_. s) h1) = Some (r, h')"
        using 2(2) b Inr by (auto simp: hm_bind_iff on_ctl_def)
      ultimately show ?thesis using home_run_result by (fastforce simp: freed_def)
    qed
  qed
qed

text \<open>An energised controller without a homing method in its configuration.\<close>

definition demo_home_host :: "(Command list, ec_errort list) ServoHost" where
  "demo_home_host = host_new ((demo_controller LOperational)\<lparr>pub := ControllerState_init\<lparr>powered := True\<rparr>\<rparr>)"

theorem home_cleans_up_witness:
  "\<exists>e h'. home False demo_soem (list_queue 4) demo_host_env [] demo_home_host = Some (Inl e, h')
     \<and> motion_slot (ctl h') = 0 \<and> homing_state (pub (ctl h')) \<noteq> HomingRunning"
proof -
  let ?c = "(demo_controller LOperational)\<lparr>pub := ControllerState_init\<lparr>powered := True\<rparr>\<rparr>"
  have rec: "maybe_recover_bus False demo_soem (list_queue 4) demo_host_env demo_home_host = Some (Inr (), demo_home_host)"
    by (simp add: maybe_recover_bus_def demo_home_host_def host_new_def demo_controller_def ServoController_init_def)
  obtain t where b: "home_begin ?c = (Inr (1, t), ?c\<lparr>next_generation := 1, motion_slot := 1\<rparr>)"
    by (simp add: home_begin_def estop_engaged_def next_gen_def em_bind_apply try_claim_motion_slot_def Let_def
        ControllerState_init_def demo_controller_def ServoController_init_def)
  have m: "h_method (homing demo_servo_config) = 0"
    by (simp add: demo_servo_config_def ServoConfig_default_def Homing_default_def)
  have 1: "home False demo_soem (list_queue 4) demo_host_env [] demo_home_host
      = hm_bind (on_ctl home_begin) (home_run demo_soem (list_queue 4) []) demo_home_host"
    by (simp add: home_def hm_seq_def hm_bind_def rec)
  obtain e h' where h: "home False demo_soem (list_queue 4) demo_host_env [] demo_home_host = Some (Inl e, h')"
    using b m unfolding 1
    by (simp add: hm_seq_def hm_bind_def on_ctl_def demo_home_host_def host_new_def home_run_def hm_catch_def
        write_homing_objects_def hm_throw_def home_cleanup_def hm_ignore_def restore_drive_mode_def select_drive_mode_def
        sdo_write_def on_live_master_def restore_homing_torque_def hm_return_def)
  have ok: "host_ok (list_queue 4) demo_home_host" by (simp add: demo_home_host_def host_new_def idle_ok)
  from home_cleans_up [OF ok h] rec b show ?thesis
    using h by (auto simp: demo_home_host_def host_new_def)
qed

end
