(* ===== verification/ProtoAttrs.thy ===== *)
theory ProtoAttrs
  imports SdoCodec ServoConfig
begin

text \<open>
  Reading the SDK's structured values, \<^verbatim>\<open>src/src/viam/module/proto_attrs.hpp\<close>. \<^verbatim>\<open>ProtoValue\<close> and
  \<^verbatim>\<open>ProtoStruct\<close> belong to the Viam SDK: they are the type parameters \<open>'v\<close> and \<open>'p\<close>, with the SDK's
  accessors and constructors in the record \<open>proto\<close>. What is relied on (a value holds one alternative, a
  struct is a map whose \<^verbatim>\<open>emplace\<close> keeps an existing entry and whose \<^verbatim>\<open>insert_or_assign\<close> replaces it) is the predicate \<open>proto_laws\<close>.
\<close>

subsection \<open>The SDK's values\<close>

record ('v, 'p) proto =
  pv_bool :: "'v \<Rightarrow> bool option"
  pv_num :: "'v \<Rightarrow> double option"
  pv_str :: "'v \<Rightarrow> string option"
  pv_list :: "'v \<Rightarrow> 'v list option"
  pv_struct :: "'v \<Rightarrow> 'p option"
  ps_find :: "'p \<Rightarrow> string \<Rightarrow> 'v option"
  mk_bool :: "bool \<Rightarrow> 'v"
  mk_num :: "double \<Rightarrow> 'v"
  mk_str :: "string \<Rightarrow> 'v"
  mk_list :: "'v list \<Rightarrow> 'v"
  mk_struct :: "'p \<Rightarrow> 'v"
  ps_empty :: 'p
  ps_emplace :: "string \<Rightarrow> 'v \<Rightarrow> 'p \<Rightarrow> 'p"
  ps_assign :: "string \<Rightarrow> 'v \<Rightarrow> 'p \<Rightarrow> 'p"
  ps_is_empty :: "'p \<Rightarrow> bool"

definition proto_laws :: "('v, 'p) proto \<Rightarrow> bool" where
  "proto_laws P \<longleftrightarrow>
     (\<forall>b. pv_bool P (mk_bool P b) = Some b) \<and> (\<forall>d. pv_num P (mk_num P d) = Some d) \<and>
     (\<forall>t. pv_str P (mk_str P t) = Some t) \<and> (\<forall>s. pv_struct P (mk_struct P s) = Some s) \<and>
     (\<forall>k. ps_find P (ps_empty P) k = None) \<and>
     (\<forall>k v s k'. ps_find P (ps_emplace P k v s) k' =
        (if k' = k \<and> ps_find P s k = None then Some v else ps_find P s k')) \<and>
     (\<forall>k v s k'. ps_find P (ps_assign P k v s) k' = (if k' = k then Some v else ps_find P s k')) \<and>
     (\<forall>s. ps_is_empty P s \<longleftrightarrow> (\<forall>k. ps_find P s k = None))"

subsection \<open>Typed reads\<close>

definition find_attr :: "('v, 'p) proto \<Rightarrow> 'p \<Rightarrow> string \<Rightarrow> 'v option" where
  "find_attr P s key = ps_find P s key"

definition wrong_type :: "string \<Rightarrow> ec_error" where
  "wrong_type key = Error (''config attribute '' @ quote key @ '' has the wrong type'')"

definition missing :: "string \<Rightarrow> ec_error" where
  "missing key = Error (''required config attribute '' @ quote key @ '' is missing'')"

text \<open>\<open>get\<close> is the accessor of the requested alternative.\<close>

definition opt_attr :: "('v, 'p) proto \<Rightarrow> ('v \<Rightarrow> 'a option) \<Rightarrow> 'p \<Rightarrow> string \<Rightarrow> ec_error + 'a option" where
  "opt_attr P get s key =
     (case find_attr P s key of
        None \<Rightarrow> Inr None
      | Some v \<Rightarrow> (case get v of None \<Rightarrow> Inl (wrong_type key) | Some x \<Rightarrow> Inr (Some x)))"

definition req_num :: "('v, 'p) proto \<Rightarrow> 'p \<Rightarrow> string \<Rightarrow> ec_error + double" where
  "req_num P s key =
     (case opt_attr P (pv_num P) s key of Inl e \<Rightarrow> Inl e | Inr None \<Rightarrow> Inl (missing key) | Inr (Some x) \<Rightarrow> Inr x)"

text \<open>\<open>value_or\<close> on the optional that a typed read returns.\<close>

definition value_or :: "ec_error + 'a option \<Rightarrow> 'a \<Rightarrow> ec_error + 'a" where
  "value_or r dflt = (case r of Inl e \<Rightarrow> Inl e | Inr None \<Rightarrow> Inr dflt | Inr (Some x) \<Rightarrow> Inr x)"

definition opt_num :: "('v, 'p) proto \<Rightarrow> 'p \<Rightarrow> string \<Rightarrow> double \<Rightarrow> ec_error + double" where
  "opt_num P s key dflt = value_or (opt_attr P (pv_num P) s key) dflt"

definition flag :: "('v, 'p) proto \<Rightarrow> 'p \<Rightarrow> string \<Rightarrow> bool" where
  "flag P s key = (case find_attr P s key of None \<Rightarrow> False | Some v \<Rightarrow> pv_bool P v = Some True)"

definition nested :: "('v, 'p) proto \<Rightarrow> 'p \<Rightarrow> string \<Rightarrow> 'p option" where
  "nested P s key = (case find_attr P s key of None \<Rightarrow> None | Some v \<Rightarrow> pv_struct P v)"

text \<open>The first exception ends a parse.\<close>

definition sum_bind :: "ec_error + 'a \<Rightarrow> ('a \<Rightarrow> ec_error + 'b) \<Rightarrow> ec_error + 'b" where
  "sum_bind m f = (case m of Inl e \<Rightarrow> Inl e | Inr x \<Rightarrow> f x)"

lemma sum_bind_Inr_iff: "sum_bind m f = Inr y \<longleftrightarrow> (\<exists>x. m = Inr x \<and> f x = Inr y)"
  by (auto simp: sum_bind_def split: sum.splits)

subsection \<open>A concrete instance of the SDK's values\<close>

text \<open>
  Nested JSON-like values: the instance on which the parsers and the verbs are evaluated. It satisfies
  the laws that are asked of the SDK.
\<close>

datatype pval = PBool bool | PNum double | PStr string | PList "pval list" | PStruct "(string \<times> pval) list"

definition json :: "(pval, (string \<times> pval) list) proto" where
  "json = \<lparr>pv_bool = (\<lambda>v. case v of PBool b \<Rightarrow> Some b | _ \<Rightarrow> None),
           pv_num = (\<lambda>v. case v of PNum d \<Rightarrow> Some d | _ \<Rightarrow> None),
           pv_str = (\<lambda>v. case v of PStr t \<Rightarrow> Some t | _ \<Rightarrow> None),
           pv_list = (\<lambda>v. case v of PList vs \<Rightarrow> Some vs | _ \<Rightarrow> None),
           pv_struct = (\<lambda>v. case v of PStruct s \<Rightarrow> Some s | _ \<Rightarrow> None),
           ps_find = map_of, mk_bool = PBool, mk_num = PNum, mk_str = PStr, mk_list = PList, mk_struct = PStruct,
           ps_empty = [], ps_emplace = (\<lambda>k v s. if map_of s k = None then (k, v) # s else s),
           ps_assign = (\<lambda>k v s. (k, v) # s), ps_is_empty = (\<lambda>s. s = [])\<rparr>"

lemma json_laws: "proto_laws json"
proof -
  have "s = [] \<longleftrightarrow> (\<forall>k. map_of s k = None)" for s :: "(string \<times> pval) list"
    by (cases s) auto
  then show ?thesis by (simp add: proto_laws_def json_def)
qed

end
