(* ===== verification/ServoAttrs.thy ===== *)
theory ServoAttrs
  imports ProtoAttrs
begin

text \<open>
  The configuration parser of \<^verbatim>\<open>src/src/viam/module/servo_motor.cpp\<close>: from the attributes of a resource to a
  validated \<open>ServoConfig\<close>. A parse ends with a value, with an exception, or in undefined behaviour
  (\<open>None\<close>, as in the theory of the SDO codec): most integer attributes are converted from a double
  without a range check. The lemmas say what an accepted configuration guarantees to the code that uses
  it later. Diagnostic texts are abridged.
\<close>

subsection \<open>Sequencing and conversions\<close>

definition enc_bind :: "'a enc \<Rightarrow> ('a \<Rightarrow> 'b enc) \<Rightarrow> 'b enc" where
  "enc_bind m f = (case m of None \<Rightarrow> None | Some (Inl e) \<Rightarrow> Some (Inl e) | Some (Inr x) \<Rightarrow> f x)"

text \<open>
  A \<^verbatim>\<open>static_cast\<close> of a double to an integer type with the range \<open>lo .. hi\<close> truncates; a truncated value
  outside the range is undefined behaviour.
\<close>

definition dtrunc :: "real \<Rightarrow> int" where
  "dtrunc x = (if x < 0 then \<lceil>x\<rceil> else \<lfloor>x\<rfloor>)"

definition cast_int :: "int \<Rightarrow> int \<Rightarrow> double \<Rightarrow> int enc" where
  "cast_int lo hi d =
     (case d of Fin x \<Rightarrow> if lo \<le> dtrunc x \<and> dtrunc x \<le> hi then Some (Inr (dtrunc x)) else None | _ \<Rightarrow> None)"

definition cast_u :: "'a::len itself \<Rightarrow> double \<Rightarrow> 'a word enc" where
  "cast_u T d = enc_bind (cast_int 0 (2 ^ LENGTH('a) - 1) d) (\<lambda>i. Some (Inr (word_of_int i)))"

definition cast_i32 :: "double \<Rightarrow> int enc" where
  "cast_i32 = cast_int (- (2 ^ 31)) (2 ^ 31 - 1)"

text \<open>
  \<^verbatim>\<open>std::stoul(t, nullptr, 0)\<close>: blanks and one sign are skipped, the base follows from the prefix, the
  longest prefix of digits counts, a minus sign negates modulo \<^verbatim>\<open>2^64\<close>. \<open>None\<close> is an exception.
\<close>

definition is_space :: "char \<Rightarrow> bool" where
  "is_space c \<longleftrightarrow> (of_char c :: nat) = 32 \<or> (9 \<le> (of_char c :: nat) \<and> (of_char c :: nat) \<le> 13)"

definition numeral_base :: "string \<Rightarrow> nat \<times> string" where
  "numeral_base t =
     (if (take 2 t = ''0x'' \<or> take 2 t = ''0X'') \<and> length t > 2 \<and> digit_of 16 (t ! 2) \<noteq> None then (16, drop 2 t)
      else if take 1 t = ''0'' then (8, t) else (10, t))"

definition stoul :: "string \<Rightarrow> nat option" where
  "stoul t =
     (let t1 = dropWhile is_space t;
          neg = take 1 t1 = ''-'';
          t2 = (if take 1 t1 = ''-'' \<or> take 1 t1 = ''+'' then drop 1 t1 else t1);
          (base, body) = numeral_base t2;
          (n, rest) = scan_digits base 0 body
      in if rest = body \<or> n \<ge> 2 ^ 64 then None
         else Some (if neg then (2 ^ 64 - n) mod 2 ^ 64 else n))"

subsection \<open>Helpers of the verbs and of the parser\<close>

definition input_of :: "('v, 'p) proto \<Rightarrow> 'v \<Rightarrow> string \<Rightarrow> ec_error + Input" where
  "input_of P v key =
     (case pv_num P v of
        Some d \<Rightarrow> Inr \<lparr>in_number = Some d, in_text = None\<rparr>
      | None \<Rightarrow>
          (case pv_str P v of
             Some t \<Rightarrow> Inr \<lparr>in_number = None, in_text = Some t\<rparr>
           | None \<Rightarrow> Inl (Error (quote key @ '' must be a number or a string''))))"

text \<open>The unsigned value of a number or numeral; \<open>ty\<close> names an entry of the type table.\<close>

definition small_uint :: "('v, 'p) proto \<Rightarrow> 'v \<Rightarrow> string \<Rightarrow> string \<Rightarrow> u32 enc" where
  "small_uint P v key ty =
     (case find_type ty of
        None \<Rightarrow> None
      | Some t \<Rightarrow>
          enc_bind (Some (input_of P v key)) (\<lambda>i.
          enc_bind (ti_encode t i) (\<lambda>bs.
          enc_bind (Some (ti_decode t bs)) (\<lambda>d.
          case dec_number d of None \<Rightarrow> None | Some x \<Rightarrow> cast_u TYPE(32) x))))"

definition object_ref ::
    "('v, 'p) proto \<Rightarrow> 'p \<Rightarrow> string \<Rightarrow> u16 \<times> u8 \<times> string \<Rightarrow> (u16 \<times> u8 \<times> string) enc" where
  "object_ref P ob loc dflt =
     (case find_attr P ob ''index'' of
        None \<Rightarrow> Some (Inl (Error (''config attribute '' @ quote loc @ '' needs an index'')))
      | Some i \<Rightarrow>
          enc_bind (small_uint P i ''index'' ''u16'') (\<lambda>index.
          enc_bind (case find_attr P ob ''sub'' of
                      None \<Rightarrow> Some (Inr (fst (snd dflt)))
                    | Some s \<Rightarrow> enc_bind (small_uint P s ''sub'' ''u8'') (\<lambda>n. Some (Inr (ucast n)))) (\<lambda>sub.
          enc_bind (Some (value_or (opt_attr P (pv_str P) ob ''type'') (snd (snd dflt)))) (\<lambda>ty.
          if find_type ty = None
          then Some (Inl (Error (''config attribute '' @ quote (loc @ ''.type'') @ '' is not a known SDO type: '' @ ty)))
          else Some (Inr (ucast index, sub, ty))))))"

definition req_str :: "('v, 'p) proto \<Rightarrow> 'p \<Rightarrow> string \<Rightarrow> ec_error + string" where
  "req_str P s key =
     (case opt_attr P (pv_str P) s key of Inl e \<Rightarrow> Inl e | Inr None \<Rightarrow> Inl (missing key) | Inr (Some t) \<Rightarrow> Inr t)"

subsection \<open>The parser, attribute by attribute\<close>

definition attrs_control_mode :: "('v, 'p) proto \<Rightarrow> 'p \<Rightarrow> MotionModeKind \<Rightarrow> ec_error + MotionModeKind" where
  "attrs_control_mode P a default_mode =
     sum_bind (opt_attr P (pv_str P) a ''control_mode'') (\<lambda>mode.
       case mode of
         None \<Rightarrow> Inr default_mode
       | Some t \<Rightarrow> if t = ''csp'' then Inr CyclicPosition
                   else if t = ''profile'' then Inr Profile
                   else Inl (Error (''config attribute control_mode must be csp or profile, got '' @ quote t)))"

fun invalid_codes :: "('v, 'p) proto \<Rightarrow> 'v list \<Rightarrow> u16 list enc" where
  "invalid_codes P [] = Some (Inr [])"
| "invalid_codes P (v # vs) =
     enc_bind (small_uint P v ''invalid_codes'' ''u16'') (\<lambda>n.
     enc_bind (invalid_codes P vs) (\<lambda>ns. Some (Inr (ucast n # ns))))"

definition encoder_shape :: ec_error where
  "encoder_shape = Error ''config attribute absolute_encoder expects {index, sub?, type?, equals, invalid_codes?}''"

definition attrs_encoder :: "('v, 'p) proto \<Rightarrow> 'p \<Rightarrow> AbsoluteEncoder \<Rightarrow> AbsoluteEncoder enc" where
  "attrs_encoder P a enc =
     (case find_attr P a ''absolute_encoder'' of
        None \<Rightarrow> Some (Inr enc)
      | Some v \<Rightarrow>
          (case pv_struct P v of
             None \<Rightarrow> Some (Inl encoder_shape)
           | Some ob \<Rightarrow>
               (case (case find_attr P ob ''equals'' of None \<Rightarrow> None | Some e \<Rightarrow> pv_num P e) of
                  None \<Rightarrow> Some (Inl encoder_shape)
                | Some eq \<Rightarrow>
                    enc_bind (object_ref P ob ''absolute_encoder'' (ae_index enc, ae_sub enc, ae_type enc)) (\<lambda>(i, s, t).
                    enc_bind (case find_attr P ob ''invalid_codes'' of
                                None \<Rightarrow> Some (Inr [])
                              | Some codes \<Rightarrow>
                                  (case pv_list P codes of
                                     None \<Rightarrow> Some (Inl (Error ''config attribute absolute_encoder.invalid_codes must be a list''))
                                   | Some vs \<Rightarrow> invalid_codes P vs)) (\<lambda>ns.
                    Some (Inr (enc\<lparr>ae_index := i, ae_sub := s, ae_type := t, ae_equals := eq,
                                   ae_invalid_codes := ae_invalid_codes enc @ ns\<rparr>)))))))"

definition homing_shape :: ec_error where
  "homing_shape = Error ''config attribute homing expects {method, speed_rpm, acceleration_rpm_per_s?, torque_object?, torque_percent?, timeout_s?}''"

definition bad_method :: "double \<Rightarrow> bool" where
  "bad_method m =
     (case m of Fin x \<Rightarrow> x < - 128 \<or> x > 127 \<or> x \<noteq> of_int (dtrunc x) \<or> x = 0 | _ \<Rightarrow> True)"

definition attrs_torque :: "('v, 'p) proto \<Rightarrow> 'p \<Rightarrow> TorqueObject \<Rightarrow> TorqueObject enc" where
  "attrs_torque P ob t0 =
     (case nested P ob ''torque_object'' of
        None \<Rightarrow> Some (Inr t0)
      | Some t \<Rightarrow>
          enc_bind (object_ref P t ''homing.torque_object'' (to_index t0, to_sub t0, to_type t0)) (\<lambda>(i, s, ty).
          enc_bind (Some (opt_num P t ''units_per_percent'' (Fin 10))) (\<lambda>u.
          Some (Inr (t0\<lparr>to_index := i, to_sub := s, to_type := ty, units_per_percent := u\<rparr>)))))"

definition attrs_homing :: "('v, 'p) proto \<Rightarrow> 'p \<Rightarrow> Homing \<Rightarrow> Homing enc" where
  "attrs_homing P a h0 =
     (case find_attr P a ''homing'' of
        None \<Rightarrow> Some (Inr h0)
      | Some v \<Rightarrow>
          (case pv_struct P v of
             None \<Rightarrow> Some (Inl homing_shape)
           | Some ob \<Rightarrow>
               enc_bind (Some (req_num P ob ''method'')) (\<lambda>method.
               if bad_method method
               then Some (Inl (Error ''config attribute homing.method must be a non-zero 0x6098 method (int8)''))
               else
                 enc_bind (cast_int (- 128) 127 method) (\<lambda>m.
                 enc_bind (Some (req_num P ob ''speed_rpm'')) (\<lambda>speed.
                 enc_bind (Some (opt_num P ob ''acceleration_rpm_per_s'' (Fin 0))) (\<lambda>accel.
                 enc_bind (Some (opt_num P ob ''torque_percent'' (Fin 0))) (\<lambda>torque.
                 enc_bind (Some (opt_num P ob ''timeout_s'' (Fin 120))) (\<lambda>timeout.
                 enc_bind (attrs_torque P ob (h_torque h0)) (\<lambda>t.
                 Some (Inr \<lparr>h_method = word_of_int m, h_speed_rpm = speed, h_accel_rpm_per_s = accel,
                            h_torque_percent = torque, h_timeout_s = timeout, h_torque = t\<rparr>))))))))))"

definition attrs_estop :: "('v, 'p) proto \<Rightarrow> 'p \<Rightarrow> u16 enc" where
  "attrs_estop P a =
     (case find_attr P a ''emergency_stop_fault_code'' of
        None \<Rightarrow> Some (Inr 0)
      | Some v \<Rightarrow>
          enc_bind (case pv_num P v of
                      Some d \<Rightarrow> cast_int 0 (2 ^ 64 - 1) d
                    | None \<Rightarrow>
                        (case pv_str P v of
                           None \<Rightarrow> Some (Inr 0)
                         | Some t \<Rightarrow>
                             (case stoul t of
                                None \<Rightarrow> Some (Inl (Error (''config attribute emergency_stop_fault_code is not a number: '' @ t)))
                              | Some n \<Rightarrow> Some (Inr (int n))))) (\<lambda>code.
          if code > 0xFFFF then Some (Inl (Error ''config attribute emergency_stop_fault_code must fit in 16 bits''))
          else Some (Inr (word_of_int code))))"

text \<open>The attributes from the quick-stop deceleration to the end of the parser.\<close>

definition attrs_runtime :: "('v, 'p) proto \<Rightarrow> 'p \<Rightarrow> ServoConfig \<Rightarrow> ServoConfig enc" where
  "attrs_runtime P a c =
     enc_bind (Some (opt_num P a ''quick_stop_decel_rpm_per_s'' (Fin 0))) (\<lambda>qs.
     if \<not> dle (Fin 0) qs then Some (Inl (Error ''config attribute quick_stop_decel_rpm_per_s must be >= 0''))
     else
       enc_bind (enc_bind (Some (opt_num P a ''position_tolerance_counts'' (Fin 0))) cast_i32) (\<lambda>tol.
       enc_bind (enc_bind (Some (opt_num P a ''loop_rate_hz'' (Fin 1000))) (cast_u TYPE(32))) (\<lambda>rate.
       enc_bind (Some (value_or (opt_attr P (pv_bool P) a ''require_realtime'') True)) (\<lambda>rt.
       enc_bind (enc_bind (Some (opt_num P a ''rt_priority'' (Fin 80))) cast_i32) (\<lambda>prio.
       enc_bind (Some (value_or (opt_attr P (pv_bool P) a ''use_distributed_clocks'') False)) (\<lambda>dc.
       enc_bind (enc_bind (Some (opt_num P a ''sync_cycle_granularity_ns'' (Fin 0))) (cast_u TYPE(32))) (\<lambda>gran.
       enc_bind (enc_bind (Some (opt_num P a ''max_consecutive_wkc_errors'' (Fin 5))) cast_i32) (\<lambda>wkc.
       enc_bind (enc_bind (Some (opt_num P a ''command_queue_capacity'' (Fin 64))) (cast_int 0 (2 ^ 64 - 1))) (\<lambda>cap.
       Some (Inr (c\<lparr>sv_quick_stop_decel := rpm_to_device_velocity qs (counts_per_rev c) (gear_ratio c),
                    position_tolerance_counts := word_of_int tol, sv_loop_rate_hz := rate, sv_require_realtime := rt,
                    sv_rt_priority := prio, sv_use_dc := dc, sv_sync_granularity_ns := gran,
                    sv_max_wkc_errors := wkc, command_queue_capacity := nat cap\<rparr>)))))))))))"

definition config_from_attrs :: "('v, 'p) proto \<Rightarrow> 'p \<Rightarrow> MotionModeKind \<Rightarrow> ServoConfig enc" where
  "config_from_attrs P a default_mode =
     enc_bind (Some (req_str P a ''interface'')) (\<lambda>ifn.
     enc_bind (enc_bind (Some (opt_num P a ''slave'' (Fin 1))) (cast_u TYPE(16))) (\<lambda>slave.
     enc_bind (Some (attrs_control_mode P a default_mode)) (\<lambda>mode.
     enc_bind (Some (req_num P a ''max_rpm'')) (\<lambda>max_rpm.
     enc_bind (Some (opt_num P a ''max_acceleration_rpm_per_s'' (Fin 0))) (\<lambda>accel.
     enc_bind (Some (req_num P a ''counts_per_rev'')) (\<lambda>cpr.
     enc_bind (Some (req_num P a ''motor_rated_current_amps'')) (\<lambda>amps.
     enc_bind (Some (opt_num P a ''gear_ratio'' (Fin 1))) (\<lambda>gear.
     enc_bind (attrs_encoder P a (absolute_encoder ServoConfig_default)) (\<lambda>enc.
     enc_bind (attrs_homing P a Homing_default) (\<lambda>h.
     enc_bind (attrs_estop P a) (\<lambda>estop.
     enc_bind (attrs_runtime P a
       (ServoConfig_default\<lparr>sv_ifname := ifn, sv_slave_id := slave, sv_motion_mode := mode,
          max_motor_speed_rpm := max_rpm, max_accel_rpm_per_s := accel, counts_per_rev := cpr,
          motor_rated_current_amps := amps, gear_ratio := gear, absolute_encoder := enc, homing := h,
          estop_fault_code := estop\<rparr>)) (\<lambda>c.
     enc_bind (Some (validate c)) (\<lambda>_. Some (Inr c))))))))))))))"

definition parse_servo_config :: "('v, 'p) proto \<Rightarrow> 'p \<Rightarrow> MotionModeKind \<Rightarrow> ServoConfig enc" where
  "parse_servo_config P a default_mode = config_from_attrs P a default_mode"


subsection \<open>What an accepted configuration guarantees\<close>

lemma enc_bind_Inr_iff: "enc_bind m f = Some (Inr y) \<longleftrightarrow> (\<exists>x. m = Some (Inr x) \<and> f x = Some (Inr y))"
  by (auto simp: enc_bind_def split: option.splits sum.splits)

lemma cast_int_Inr_iff:
  "cast_int lo hi d = Some (Inr i) \<longleftrightarrow> (\<exists>x. d = Fin x \<and> i = dtrunc x \<and> lo \<le> i \<and> i \<le> hi)"
  by (auto simp: cast_int_def split: double.splits)

lemma cast_u_Inr:
  "cast_u TYPE('a::len) d = Some (Inr w) \<Longrightarrow> \<exists>x. d = Fin x \<and> uint w = dtrunc x"
  by (auto simp: cast_u_def enc_bind_Inr_iff cast_int_Inr_iff uint_word_of_int_eq take_bit_int_eq_self_iff)

lemma object_ref_type: "object_ref P ob loc dflt = Some (Inr (i, s, t)) \<Longrightarrow> find_type t \<noteq> None"
  by (auto simp: object_ref_def enc_bind_Inr_iff split: option.splits if_splits)

lemma find_type_u16 [simp]: "find_type ''u16'' \<noteq> None"
  by (simp add: find_type_def kTypes_def)

lemma attrs_encoder_type:
  assumes "attrs_encoder P a enc = Some (Inr enc')" "find_type (ae_type enc) \<noteq> None"
  shows "find_type (ae_type enc') \<noteq> None"
  using assms by (auto simp: attrs_encoder_def enc_bind_Inr_iff dest!: object_ref_type split: option.splits)

lemma attrs_torque_type:
  assumes "attrs_torque P ob t = Some (Inr t')" "find_type (to_type t) \<noteq> None"
  shows "find_type (to_type t') \<noteq> None"
  using assms by (auto simp: attrs_torque_def enc_bind_Inr_iff dest!: object_ref_type split: option.splits)

lemma good_method_nonzero:
  assumes "\<not> bad_method d" "cast_int (- 128) 127 d = Some (Inr m)"
  shows "(word_of_int m :: i8) \<noteq> 0"
proof -
  obtain x where x: "d = Fin x" "m = dtrunc x" "- 128 \<le> m" "m \<le> 127"
    using assms(2) by (auto simp: cast_int_Inr_iff)
  with assms(1) have "m \<noteq> 0" by (auto simp: bad_method_def)
  with x(3,4) have "\<not> 256 dvd m" by presburger
  then show ?thesis by (simp add: word_of_int_eq_0_iff)
qed

lemma attrs_homing_ok:
  assumes "attrs_homing P a h0 = Some (Inr h)" "find_type (to_type (h_torque h0)) \<noteq> None"
  shows "find_type (to_type (h_torque h)) \<noteq> None" "find_attr P a ''homing'' \<noteq> None \<Longrightarrow> h_method h \<noteq> 0"
  using assms
  by (auto simp: attrs_homing_def enc_bind_Inr_iff dest!: attrs_torque_type dest: good_method_nonzero
           split: option.splits if_splits)

lemma attrs_runtime_frame:
  assumes "attrs_runtime P a c = Some (Inr c')"
  shows "sv_slave_id c' = sv_slave_id c" "homing c' = homing c" "absolute_encoder c' = absolute_encoder c"
    and "\<exists>x. opt_num P a ''loop_rate_hz'' (Fin 1000) = Inr (Fin x) \<and> uint (sv_loop_rate_hz c') = dtrunc x"
  using assms by (auto simp: attrs_runtime_def enc_bind_Inr_iff dest!: cast_u_Inr split: if_splits)

text \<open>The stages of a parse that succeeded.\<close>

lemma config_from_attrs_stages:
  assumes "config_from_attrs P a mode = Some (Inr c)"
  shows "\<exists>x slave enc h c0. opt_num P a ''slave'' (Fin 1) = Inr x \<and> cast_u TYPE(16) x = Some (Inr slave) \<and>
    attrs_encoder P a (absolute_encoder ServoConfig_default) = Some (Inr enc) \<and>
    attrs_homing P a Homing_default = Some (Inr h) \<and> attrs_runtime P a c0 = Some (Inr c) \<and>
    sv_slave_id c0 = slave \<and> absolute_encoder c0 = enc \<and> homing c0 = h \<and> validate c = Inr ()"
  using assms unfolding config_from_attrs_def enc_bind_Inr_iff option.inject sum.inject
  apply (elim exE conjE)
  by (hypsubst, intro exI conjI, assumption, assumption, assumption, assumption, assumption,
      simp_all)


text \<open>A complete set of attributes, with a homing block and an encoder declaration.\<close>

definition demo_attrs :: "(string \<times> pval) list" where
  "demo_attrs =
     [(''interface'', PStr ''eth0''), (''control_mode'', PStr ''profile''), (''max_rpm'', PNum (Fin 3000)),
      (''counts_per_rev'', PNum (Fin 131072)), (''motor_rated_current_amps'', PNum (Fin 5)),
      (''homing'', PStruct [(''method'', PNum (Fin 35)), (''speed_rpm'', PNum (Fin 60))]),
      (''emergency_stop_fault_code'', PStr ''0xFF3A'')]"

definition demo_parsed :: ServoConfig where
  "demo_parsed = ServoConfig_default\<lparr>sv_ifname := ''eth0'', sv_motion_mode := Profile, max_motor_speed_rpm := Fin 3000,
     counts_per_rev := Fin 131072, motor_rated_current_amps := Fin 5,
     homing := Homing_default\<lparr>h_method := 35, h_speed_rpm := Fin 60\<rparr>, estop_fault_code := 0xFF3A\<rparr>"

lemma stoul_demo: "stoul ''0xFF3A'' = Some 0xFF3A"
  by (simp add: stoul_def numeral_base_def digit_of_def digit_value_def is_space_def Let_def)

lemma demo_attrs_homing: "attrs_homing json demo_attrs Homing_default = Some (Inr (homing demo_parsed))"
  by (simp add: attrs_homing_def demo_attrs_def demo_parsed_def json_def find_attr_def req_num_def opt_attr_def
      enc_bind_def bad_method_def dtrunc_def cast_int_def opt_num_def value_or_def attrs_torque_def nested_def
      Homing_default_def)

lemma demo_attrs_rest:
  "attrs_encoder json demo_attrs enc = Some (Inr enc)" "attrs_estop json demo_attrs = Some (Inr 0xFF3A)"
  by (simp_all add: attrs_encoder_def attrs_estop_def demo_attrs_def json_def find_attr_def enc_bind_def stoul_demo)

lemma demo_attrs_scalars:
  "req_str json demo_attrs ''interface'' = Inr ''eth0''"
  "attrs_control_mode json demo_attrs mode = Inr Profile"
  "req_num json demo_attrs ''max_rpm'' = Inr (Fin 3000)"
  "req_num json demo_attrs ''counts_per_rev'' = Inr (Fin 131072)"
  "req_num json demo_attrs ''motor_rated_current_amps'' = Inr (Fin 5)"
  "map_of demo_attrs k = None \<Longrightarrow> opt_num json demo_attrs k d = Inr d"
  "map_of demo_attrs k = None \<Longrightarrow> opt_attr json get demo_attrs k = Inr None"
  by (simp_all add: req_str_def req_num_def attrs_control_mode_def opt_num_def opt_attr_def find_attr_def json_def
      demo_attrs_def sum_bind_def value_or_def)

lemma demo_attrs_absent:
  "k \<in> {''slave'', ''max_acceleration_rpm_per_s'', ''gear_ratio'', ''quick_stop_decel_rpm_per_s'', ''position_tolerance_counts'',
     ''loop_rate_hz'', ''require_realtime'', ''rt_priority'', ''use_distributed_clocks'', ''sync_cycle_granularity_ns'',
     ''max_consecutive_wkc_errors'', ''command_queue_capacity''} \<Longrightarrow> map_of demo_attrs k = None"
  by (auto simp: demo_attrs_def)

lemma rpm_to_device_velocity_0 [simp]: "rpm_to_device_velocity (Fin 0) (Fin x) (Fin y) = 0"
  by (simp add: rpm_to_device_velocity_def clamp_to_i32_def dle_def llround_def)

lemma demo_attrs_runtime:
  assumes "counts_per_rev c = Fin x" "gear_ratio c = Fin y"
  shows "attrs_runtime json demo_attrs c =
     Some (Inr (c\<lparr>sv_quick_stop_decel := 0, position_tolerance_counts := 0, sv_loop_rate_hz := 1000,
       sv_require_realtime := True, sv_rt_priority := 80, sv_use_dc := False, sv_sync_granularity_ns := 0,
       sv_max_wkc_errors := 5, command_queue_capacity := 64\<rparr>))"
  using assms
  by (simp add: attrs_runtime_def demo_attrs_scalars demo_attrs_absent enc_bind_def value_or_def cast_i32_def
      cast_u_def cast_int_def dtrunc_def dle_def)

lemma demo_parsed_valid: "validate demo_parsed = Inr ()"
  by (simp add: validate_def demo_parsed_def ServoConfig_default_def Homing_default_def validate_homing_def check_def
      dle_def isnan_def)

lemma demo_parsed_eq:
  "ServoConfig_default\<lparr>sv_ifname := ''eth0'', sv_slave_id := 1, sv_motion_mode := Profile, max_motor_speed_rpm := Fin 3000,
     max_accel_rpm_per_s := Fin 0, counts_per_rev := Fin 131072, motor_rated_current_amps := Fin 5, gear_ratio := Fin 1,
     homing := homing demo_parsed, estop_fault_code := 65338, sv_quick_stop_decel := 0, position_tolerance_counts := 0,
     sv_loop_rate_hz := 1000, sv_require_realtime := True, sv_rt_priority := 80, sv_use_dc := False,
     sv_sync_granularity_ns := 0, sv_max_wkc_errors := 5, command_queue_capacity := 64\<rparr> = demo_parsed"
  by (simp add: demo_parsed_def ServoConfig_default_def)

lemma demo_parse: "parse_servo_config json demo_attrs CyclicPosition = Some (Inr demo_parsed)"
  by (simp add: parse_servo_config_def config_from_attrs_def demo_attrs_scalars demo_attrs_absent demo_attrs_rest
      demo_attrs_homing demo_attrs_runtime cast_u_def cast_int_def dtrunc_def enc_bind_def demo_parsed_eq
      demo_parsed_valid)



text \<open>A slave number outside the 16-bit range is not refused: its conversion is undefined.\<close>

lemma undefined_slave_number:
  assumes "req_str P a ''interface'' = Inr ifn" "opt_num P a ''slave'' (Fin 1) = Inr (Fin x)" "x \<le> - 1 \<or> 65536 \<le> x"
  shows "parse_servo_config P a mode = None"
proof -
  have "dtrunc x < 0 \<or> 65535 < dtrunc x"
    using assms(3) by (auto simp: dtrunc_def less_floor_iff ceiling_less_iff)
  then have "cast_u TYPE(16) (Fin x) = None" by (auto simp: cast_u_def cast_int_def enc_bind_def)
  with assms(1,2) show ?thesis by (simp add: parse_servo_config_def config_from_attrs_def enc_bind_def)
qed

text \<open>A negative gear ratio passes validation and turns the quick-stop deceleration into a huge one.\<close>

lemma quick_stop_decel_wraps:
  "rpm_to_device_velocity (Fin 60) (Fin 1000) (Fin (- 1)) = (word_of_int (2 ^ 32 - 1000) :: u32)"
  by (simp add: rpm_to_device_velocity_def clamp_to_i32_def dle_def llround_def)

end
