(* ===== verification/ServoMotor.thy ===== *)
theory ServoMotor
  imports ServoHome ServoAttrs
begin

text \<open>
  The motor component, \<^verbatim>\<open>src/src/viam/module/servo_motor.hpp\<close> and \<^verbatim>\<open>servo_motor.cpp\<close>: the blocking motion
  verbs of the controller as the module calls them, the status and encoder replies, and \<^verbatim>\<open>do_command\<close> with
  its raw SDO access. The state is the controller with its threads (the theory of the host) and the cached
  encoder mode. A call ends with a value or an exception, or (\<open>None\<close>) does not return or is undefined.
  \<^verbatim>\<open>std::runtime_error\<close> is an \<open>Error\<close> here: no handler of the module tells them apart. The RT thread runs
  the cycles it is given before each verb, between the guard and the transfer of a raw write, and while a
  caller is parked; the accessors of one reply are read together. Diagnostic texts are abridged.
\<close>

subsection \<open>State\<close>

record ('q, 'w) ServoMotor =
  controller :: "('q, 'w) ServoHost"
  abs_enc_mode_known :: bool
  abs_enc_mode :: double

record 'w verb_env =
  ve_host :: "'w host_env"
  ve_waits :: "rt_env list list"
  ve_rt :: "string \<Rightarrow> rt_env list"

definition on_host :: "(('q, 'w) ServoHost, 'a) hm \<Rightarrow> (('q, 'w) ServoMotor, 'a) hm" where
  "on_host m x = (case m (controller x) of None \<Rightarrow> None | Some (r, h) \<Rightarrow> Some (r, x\<lparr>controller := h\<rparr>))"

definition mctl :: "('q, 'w) ServoMotor \<Rightarrow> 'q ServoController" where
  "mctl x = ctl (controller x)"

definition tick :: "'w soem \<Rightarrow> rt_env list \<Rightarrow> (('q, 'w) ServoMotor, unit) hm" where
  "tick S es = on_host (hm_lift (em_modify (run_rt S es)))"

subsection \<open>The blocking verbs of the controller\<close>

text \<open>Parked on the wake sequence; every element is the RT cycles until the next wake.\<close>

fun await_move :: "'w soem \<Rightarrow> rt_env list list \<Rightarrow> u32 \<Rightarrow> (('q, 'w) ServoHost, unit) hm" where
  "await_move S [] g h =
     (case await_move_pass g (ctl h) of (Some r, s) \<Rightarrow> Some (r, upd_ctl (\<lambda>_. s) h) | (None, s) \<Rightarrow> None)"
| "await_move S (es # ws) g h =
     (case await_move_pass g (ctl h) of
        (Some r, s) \<Rightarrow> Some (r, upd_ctl (\<lambda>_. s) h)
      | (None, s) \<Rightarrow> await_move S ws g (run_rt S es h))"

definition ServoController_go_to ::
    "bool \<Rightarrow> 'w soem \<Rightarrow> 'q spsc_queue \<Rightarrow> 'w host_env \<Rightarrow> rt_env list list \<Rightarrow> double \<Rightarrow> double \<Rightarrow> (('q, 'w) ServoHost, unit) hm" where
  "ServoController_go_to dbg S Q env waits rpm pos =
     hm_seq (maybe_recover_bus dbg S Q env) (hm_bind (on_ctl (go_to Q rpm pos)) (await_move S waits))"

definition ServoController_go_for ::
    "bool \<Rightarrow> 'w soem \<Rightarrow> 'q spsc_queue \<Rightarrow> 'w host_env \<Rightarrow> rt_env list list \<Rightarrow> double \<Rightarrow> double \<Rightarrow> (('q, 'w) ServoHost, unit) hm" where
  "ServoController_go_for dbg S Q env waits rpm revs =
     hm_seq (maybe_recover_bus dbg S Q env) (hm_bind (on_ctl (go_for Q rpm revs)) (await_move S waits))"

definition ServoController_set_rpm ::
    "bool \<Rightarrow> 'w soem \<Rightarrow> 'q spsc_queue \<Rightarrow> 'w host_env \<Rightarrow> double \<Rightarrow> (('q, 'w) ServoHost, unit) hm" where
  "ServoController_set_rpm dbg S Q env rpm = hm_seq (maybe_recover_bus dbg S Q env) (on_ctl (set_rpm Q rpm))"

subsection \<open>The motor API\<close>

definition set_power :: "(('q, 'w) ServoMotor, unit) hm" where
  "set_power = hm_throw (Error ''set_power is unsupported: this servo has no open-loop torque/power mode'')"

definition motor_set_rpm :: "bool \<Rightarrow> 'w soem \<Rightarrow> 'q spsc_queue \<Rightarrow> 'w verb_env \<Rightarrow> double \<Rightarrow> (('q, 'w) ServoMotor, unit) hm" where
  "motor_set_rpm dbg S Q env rpm = on_host (ServoController_set_rpm dbg S Q (ve_host env) rpm)"

definition motor_go_for ::
    "bool \<Rightarrow> 'w soem \<Rightarrow> 'q spsc_queue \<Rightarrow> 'w verb_env \<Rightarrow> double \<Rightarrow> double \<Rightarrow> (('q, 'w) ServoMotor, unit) hm" where
  "motor_go_for dbg S Q env rpm revolutions =
     (let signed_revs = dmul (if dlt rpm (Fin 0) then Fin (- 1) else Fin 1) revolutions
      in on_host (ServoController_go_for dbg S Q (ve_host env) (ve_waits env) (dabs rpm) signed_revs))"

definition motor_go_to ::
    "bool \<Rightarrow> 'w soem \<Rightarrow> 'q spsc_queue \<Rightarrow> 'w verb_env \<Rightarrow> double \<Rightarrow> double \<Rightarrow> (('q, 'w) ServoMotor, unit) hm" where
  "motor_go_to dbg S Q env rpm pos =
     on_host (ServoController_go_to dbg S Q (ve_host env) (ve_waits env) (dabs rpm) pos)"

definition reset_zero_position :: "double \<Rightarrow> (('q, 'w) ServoMotor, unit) hm" where
  "reset_zero_position offset = on_host (host_modify (set_zero offset))"

definition motor_get_position :: "(('q, 'w) ServoMotor, double) hm" where
  "motor_get_position = hm_lift (em_gets (\<lambda>x. position_revs (mctl x)))"

definition get_power_status :: "(('q, 'w) ServoMotor, bool \<times> double) hm" where
  "get_power_status = hm_lift (em_gets (\<lambda>x. let on = is_powered (mctl x) in (on, if on then Fin 1 else Fin 0)))"

definition motor_is_moving :: "(('q, 'w) ServoMotor, bool) hm" where
  "motor_is_moving = hm_lift (em_gets (\<lambda>x. is_moving (mctl x)))"

definition motor_stop :: "'q spsc_queue \<Rightarrow> (('q, 'w) ServoMotor, unit) hm" where
  "motor_stop Q = on_host (host_modify (halt Q))"

subsection \<open>Raw SDO access\<close>

record SdoRequest =
  sr_index :: u16
  sr_sub :: u8
  sr_type :: TypeInfo
  sr_value :: Input

definition kSdoReadBytes :: nat where "kSdoReadBytes = 64"

definition parse_sdo_request :: "('v, 'p) proto \<Rightarrow> 'v \<Rightarrow> string \<Rightarrow> bool \<Rightarrow> SdoRequest enc" where
  "parse_sdo_request P v verb with_value =
     (let bad = Some (Inl (Error (verb @ '' expects {index, sub?, type: u8|i8|u16|i16|u32|i32|string|bytes'' @
                                   (if with_value then '', value}'' else ''}''))))
      in case pv_struct P v of
           None \<Rightarrow> bad
         | Some req \<Rightarrow>
             (case opt_attr P (pv_str P) req ''type'' of
                Inl e \<Rightarrow> Some (Inl e)
              | Inr tn \<Rightarrow>
                  (case (find_attr P req ''index'', case tn of None \<Rightarrow> None | Some t \<Rightarrow> find_type t) of
                     (Some i, Some t) \<Rightarrow>
                       enc_bind (small_uint P i ''index'' ''u16'') (\<lambda>index.
                       enc_bind (case find_attr P req ''sub'' of
                                   None \<Rightarrow> Some (Inr 0) | Some s \<Rightarrow> small_uint P s ''sub'' ''u8'') (\<lambda>sub.
                       let r = \<lparr>sr_index = ucast index, sr_sub = ucast sub, sr_type = t,
                                sr_value = \<lparr>in_number = None, in_text = None\<rparr>\<rparr>
                       in if \<not> with_value then Some (Inr r)
                          else if (sr_index r < 0x2000 \<or> sr_index r > 0x5FFF) \<and> sr_index r \<noteq> 0x1010
                          then Some (Inl (Error (verb @ '': only manufacturer-specific objects (0x2000-0x5FFF) and 0x1010 are writable'')))
                          else case find_attr P req ''value'' of
                                 None \<Rightarrow> Some (Inl (Error ''sdo_write: value is required''))
                               | Some val \<Rightarrow> enc_bind (Some (input_of P val ''value'')) (\<lambda>i. Some (Inr (r\<lparr>sr_value := i\<rparr>)))))
                   | _ \<Rightarrow> bad)))"

definition sdo_reply :: "('v, 'p) proto \<Rightarrow> Decoded \<Rightarrow> byte list \<Rightarrow> 'p" where
  "sdo_reply P d raw =
     ps_emplace P ''ok'' (mk_bool P True)
    (ps_emplace P ''raw'' (mk_str P (hex_bytes raw))
    (ps_emplace P ''value'' (case dec_number d of Some x \<Rightarrow> mk_num P x | None \<Rightarrow> mk_str P (dec_text d)) (ps_empty P)))"

definition hex32 :: "u32 \<Rightarrow> string" where
  "hex32 w = ''0x'' @ map (\<lambda>k. hex_digit (unat (drop_bit k w AND 0xF))) [28, 24, 20, 16, 12, 8, 4, 0]"

definition sdo_refusal :: "('v, 'p) proto \<Rightarrow> string \<Rightarrow> u32 \<Rightarrow> 'p" where
  "sdo_refusal P text code =
     ps_emplace P ''error'' (mk_str P text)
    (ps_emplace P ''abort_code'' (mk_str P (hex32 code))
    (ps_emplace P ''ok'' (mk_bool P False) (ps_empty P)))"

text \<open>A handler for \<^verbatim>\<open>SdoError\<close> only.\<close>

definition catch_sdo :: "('s, 'a) hm \<Rightarrow> (string \<Rightarrow> u32 \<Rightarrow> ('s, 'a) hm) \<Rightarrow> ('s, 'a) hm" where
  "catch_sdo m f = hm_catch m (\<lambda>e. case e of SdoError text code \<Rightarrow> f text code | _ \<Rightarrow> hm_throw e)"

definition of_enc :: "'a enc \<Rightarrow> ('s, 'a) hm" where
  "of_enc e = (\<lambda>s. case e of None \<Rightarrow> None | Some r \<Rightarrow> Some (r, s))"

text \<open>The 64-byte upload, cut to what the drive sent.\<close>

definition upload :: "'w soem \<Rightarrow> u16 \<Rightarrow> u8 \<Rightarrow> (('q, 'w) ServoMotor, byte list) hm" where
  "upload S index sub =
     hm_bind (on_host (hm_lift (sdo_read S index sub kSdoReadBytes)))
       (\<lambda>(n, bs). hm_return (resize (min n kSdoReadBytes) (resize kSdoReadBytes bs)))"

definition read_std_sdo :: "'w soem \<Rightarrow> 'a::len itself \<Rightarrow> u16 \<Rightarrow> (('q, 'w) ServoMotor, 'a word) hm" where
  "read_std_sdo S T index =
     hm_bind (on_host (hm_lift (sdo_read S index 0 (LENGTH('a) div 8)))) (\<lambda>(n, bs).
       if n < LENGTH('a) div 8
       then hm_throw (SdoError (''standard SDO object '' @ to_string_nat (unat index) @ '' short read'') 0)
       else hm_return (load_le (resize (LENGTH('a) div 8) bs) :: 'a word))"

definition kModeBits :: "(nat \<times> string) list" where
  "kModeBits = [(0, ''PP''), (1, ''VL''), (2, ''PV''), (3, ''TQ''), (5, ''HM''), (6, ''IP''), (7, ''CSP''), (8, ''CSV''), (9, ''CST'')]"

definition decode_drive_modes :: "('v, 'p) proto \<Rightarrow> u32 \<Rightarrow> 'v list" where
  "decode_drive_modes P bits = map (mk_str P \<circ> snd) (filter (\<lambda>(b, _). bits AND push_bit b 1 \<noteq> 0) kModeBits)"

subsection \<open>Status\<close>

definition encoder_mode :: "'w soem \<Rightarrow> AbsoluteEncoder \<Rightarrow> (('q, 'w) ServoMotor, double) hm" where
  "encoder_mode S enc =
     hm_bind (upload S (ae_index enc) (ae_sub enc)) (\<lambda>buf.
     case find_type (ae_type enc) of
       None \<Rightarrow> (\<lambda>_. None)
     | Some t \<Rightarrow>
         (case ti_decode t buf of
            Inl e \<Rightarrow> hm_throw e
          | Inr d \<Rightarrow>
              let mode = (case dec_number d of None \<Rightarrow> Fin 0 | Some x \<Rightarrow> x)
              in hm_seq (hm_lift (em_modify (\<lambda>x. x\<lparr>abs_enc_mode := mode, abs_enc_mode_known := True\<rparr>)))
                        (hm_return mode)))"

definition encoder_reply :: "('v, 'p) proto \<Rightarrow> AbsoluteEncoder \<Rightarrow> 'q ServoController \<Rightarrow> string \<Rightarrow> double \<Rightarrow> 'p \<Rightarrow> 'p" where
  "encoder_reply P enc s reason0 mode out =
     (let configured = (reason0 = [] \<and> deq mode (ae_equals enc));
          code = drive_fault_code (pub s);
          lost = (code \<in> set (ae_invalid_codes enc));
          reason = (if lost then ''the drive reports '' @ hex16 code @ '', which this config lists as a lost reference''
                    else if reason0 = [] \<and> \<not> configured then ''the encoder mode object does not read the configured value''
                    else reason0);
          o1 = ps_assign P ''valid'' (mk_bool P (configured \<and> \<not> lost)) out;
          o2 = ps_emplace P ''configured'' (mk_bool P configured) o1;
          o3 = ps_emplace P ''mode'' (mk_num P mode) o2;
          o4 = ps_emplace P ''fault_code'' (mk_str P (hex16 code)) o3;
          o5 = ps_emplace P ''warning'' (mk_bool P (drive_warning (pub s))) o4
      in if reason = [] then o5 else ps_emplace P ''reason'' (mk_str P reason) o5)"

definition absolute_encoder_status :: "('v, 'p) proto \<Rightarrow> 'w soem \<Rightarrow> (('q, 'w) ServoMotor, 'p) hm" where
  "absolute_encoder_status P S x =
     (let s = mctl x; enc = absolute_encoder (sv_config s);
          out = ps_emplace P ''valid'' (mk_bool P False) (ps_empty P)
      in if ae_index enc = 0
         then hm_return (ps_emplace P ''reason'' (mk_str P ''no absolute_encoder config attribute on this motor'') out) x
         else if is_disconnected s
         then hm_seq (hm_lift (em_modify (\<lambda>x. x\<lparr>abs_enc_mode_known := False\<rparr>)))
                (hm_return (ps_emplace P ''reason'' (mk_str P ''the bus is disconnected, so the drive cannot be asked'') out)) x
         else hm_bind (if abs_enc_mode_known x then hm_return ([], abs_enc_mode x)
                       else hm_catch (hm_bind (encoder_mode S enc) (\<lambda>m. hm_return ([], m)))
                              (\<lambda>e. hm_return (''reading the encoder mode object failed: '' @ what e, abs_enc_mode x)))
                (\<lambda>(reason, mode) x1. hm_return (encoder_reply P enc (mctl x1) reason mode out) x1) x)"

text \<open>The entries up to the fault code, and those about homing.\<close>

definition status_head :: "('v, 'p) proto \<Rightarrow> 'q ServoController \<Rightarrow> 'p" where
  "status_head P s =
     (let o1 = ps_emplace P ''is_powered'' (mk_bool P (is_powered s)) (ps_empty P);
          o2 = ps_emplace P ''is_moving'' (mk_bool P (is_moving s)) o1;
          o3 = ps_emplace P ''position'' (mk_num P (position_revs s)) o2;
          o4 = ps_emplace P ''is_disconnected'' (mk_bool P (is_disconnected s)) o3;
          o5 = ps_emplace P ''last_error'' (mk_str P (last_error s)) o4;
          o6 = ps_emplace P ''motion_mode'' (mk_str P (motion_mode_name s)) o5;
          o7 = ps_emplace P ''emergency_stop'' (mk_bool P (estop_engaged s)) o6;
          o8 = ps_emplace P ''warning'' (mk_bool P (drive_warning (pub s))) o7
      in ps_emplace P ''fault_code'' (mk_str P (hex16 (drive_fault_code (pub s)))) o8)"

definition status_homing :: "('v, 'p) proto \<Rightarrow> 'q ServoController \<Rightarrow> bool \<Rightarrow> bool \<Rightarrow> 'p \<Rightarrow> 'p" where
  "status_homing P s ran_home absolute out =
     (let by_what = (if ran_home then ''home_run'' else if absolute then ''absolute_encoder'' else ''none'');
          o1 = ps_emplace P ''homed'' (mk_bool P (ran_home \<or> absolute)) out;
          o2 = ps_emplace P ''homed_by'' (mk_str P by_what) o1;
          o3 = ps_emplace P ''homing'' (mk_str P (to_string_homing_state (homing_state (pub s)))) o2;
          err = homing_error_text s
      in if err = [] then o3 else ps_emplace P ''homing_error'' (mk_str P err) o3)"

definition get_status :: "('v, 'p) proto \<Rightarrow> 'w soem \<Rightarrow> (('q, 'w) ServoMotor, 'p) hm" where
  "get_status P S x =
     (let s = mctl x; ran_home = homed (pub s)
      in hm_bind (if ran_home then hm_return False
                  else hm_bind (absolute_encoder_status P S) (\<lambda>r. hm_return (flag P r ''valid'')))
           (\<lambda>absolute. hm_return (status_homing P s ran_home absolute (status_head P s))) x)"

subsection \<open>\<^verbatim>\<open>do_command\<close>\<close>

text \<open>One verb: skipped unless its key is set to true; the reply is threaded through.\<close>

definition verb ::
    "('v, 'p) proto \<Rightarrow> 'w soem \<Rightarrow> 'w verb_env \<Rightarrow> string \<Rightarrow> ('p \<Rightarrow> (('q, 'w) ServoMotor, 'p) hm) \<Rightarrow> 'p \<Rightarrow> 'p
     \<Rightarrow> (('q, 'w) ServoMotor, 'p) hm" where
  "verb P S env key body cmd out =
     (if flag P cmd key then hm_seq (tick S (ve_rt env key)) (body out) else hm_return out)"

definition push_verb ::
    "('v, 'p) proto \<Rightarrow> string \<Rightarrow> ('q ServoController \<Rightarrow> 'q ServoController) \<Rightarrow> 'p \<Rightarrow> (('q, 'w) ServoMotor, 'p) hm" where
  "push_verb P key f out = hm_seq (on_host (host_modify f)) (hm_return (ps_emplace P key (mk_bool P True) out))"

definition describe_reply :: "('v, 'p) proto \<Rightarrow> 'p" where
  "describe_reply P =
     ps_emplace P ''homing'' (mk_bool P True)
    (ps_emplace P ''contract'' (mk_num P (Fin 1))
    (ps_emplace P ''driver'' (mk_str P ''viam:ethercat'') (ps_empty P)))"

definition describe_verb :: "('v, 'p) proto \<Rightarrow> 'p \<Rightarrow> (('q, 'w) ServoMotor, 'p) hm" where
  "describe_verb P out = hm_return (ps_emplace P ''describe'' (mk_struct P (describe_reply P)) out)"

definition status_verb :: "('v, 'p) proto \<Rightarrow> 'w soem \<Rightarrow> 'p \<Rightarrow> (('q, 'w) ServoMotor, 'p) hm" where
  "status_verb P S out =
     hm_bind (get_status P S) (\<lambda>st. hm_return (ps_emplace P ''status'' (mk_struct P st) out))"

text \<open>A converted read: the value, or a substitute and the reason under the diagnostic key.\<close>

definition std_verb ::
    "('v, 'p) proto \<Rightarrow> string \<Rightarrow> string \<Rightarrow> 'v \<Rightarrow> (('q, 'w) ServoMotor, 'v) hm \<Rightarrow> 'p \<Rightarrow> (('q, 'w) ServoMotor, 'p) hm" where
  "std_verb P key text subst read out =
     hm_catch (hm_bind read (\<lambda>v. hm_return (ps_emplace P key v out)))
       (\<lambda>e. hm_return (ps_emplace P (key @ ''_diag'') (mk_str P (text @ what e)) (ps_emplace P key subst out)))"

definition voltage_verb :: "('v, 'p) proto \<Rightarrow> 'w soem \<Rightarrow> 'p \<Rightarrow> (('q, 'w) ServoMotor, 'p) hm" where
  "voltage_verb P S =
     std_verb P ''voltage_volts'' ''0x6079 unavailable (reporting 0): '' (mk_num P (Fin 0))
       (hm_bind (read_std_sdo S TYPE(32) 0x6079) (\<lambda>mv. hm_return (mk_num P (ddiv (double_of_u32 mv) (Fin 1000)))))"

definition current_verb :: "('v, 'p) proto \<Rightarrow> 'w soem \<Rightarrow> 'p \<Rightarrow> (('q, 'w) ServoMotor, 'p) hm" where
  "current_verb P S =
     std_verb P ''current_amps'' ''0x6078 unavailable (reporting 0): '' (mk_num P (Fin 0))
       (hm_bind (read_std_sdo S TYPE(16) 0x6078) (\<lambda>permille x.
          hm_return (mk_num P (dmul (ddiv (Fin (real_of_int (sint permille))) (Fin 1000))
                                    (motor_rated_current_amps (sv_config (mctl x))))) x))"

definition modes_verb :: "('v, 'p) proto \<Rightarrow> 'w soem \<Rightarrow> 'p \<Rightarrow> (('q, 'w) ServoMotor, 'p) hm" where
  "modes_verb P S =
     std_verb P ''drive_modes'' ''0x6502 unavailable (reporting none): '' (mk_list P [])
       (hm_bind (read_std_sdo S TYPE(32) 0x6502) (\<lambda>bits. hm_return (mk_list P (decode_drive_modes P bits))))"

definition encoder_verb :: "('v, 'p) proto \<Rightarrow> 'w soem \<Rightarrow> 'p \<Rightarrow> (('q, 'w) ServoMotor, 'p) hm" where
  "encoder_verb P S out =
     hm_bind (absolute_encoder_status P S) (\<lambda>st. hm_return (ps_emplace P ''is_abs_enc_valid'' (mk_struct P st) out))"

definition home_reply :: "('v, 'p) proto \<Rightarrow> bool \<Rightarrow> 'q ServoController \<Rightarrow> 'p" where
  "home_reply P ok s =
     (let o1 = ps_emplace P ''homed'' (mk_bool P ok) (ps_empty P);
          o2 = ps_emplace P ''counts'' (mk_num P (double_of_i32 (home_counts (pub s)))) o1;
          o3 = ps_emplace P ''revolutions'' (mk_num P (home_position_revs s)) o2;
          err = homing_error_text s
      in if err = [] then o3 else ps_emplace P ''error'' (mk_str P err) o3)"

definition home_verb ::
    "('v, 'p) proto \<Rightarrow> bool \<Rightarrow> 'w soem \<Rightarrow> 'q spsc_queue \<Rightarrow> 'w verb_env \<Rightarrow> 'p \<Rightarrow> (('q, 'w) ServoMotor, 'p) hm" where
  "home_verb P dbg S Q env out =
     hm_bind (on_host (home dbg S Q (ve_host env) (ve_waits env))) (\<lambda>ok x.
       hm_return (ps_emplace P ''home'' (mk_struct P (home_reply P ok (mctl x))) out) x)"

definition width_mismatch :: "SdoRequest \<Rightarrow> byte list \<Rightarrow> ec_error" where
  "width_mismatch r buf =
     Error (''sdo_read: object '' @ hex16 (sr_index r) @ '':'' @ to_string_nat (unat (sr_sub r)) @ '' is '' @
            to_string_nat (length buf) @ '' bytes, type '' @ quote (ti_name (sr_type r)) @ '' is '' @
            to_string_nat (ti_width (sr_type r)))"

definition sdo_read_verb ::
    "('v, 'p) proto \<Rightarrow> 'w soem \<Rightarrow> 'w verb_env \<Rightarrow> 'p \<Rightarrow> 'p \<Rightarrow> (('q, 'w) ServoMotor, 'p) hm" where
  "sdo_read_verb P S env cmd out =
     (case find_attr P cmd ''sdo_read'' of
        None \<Rightarrow> hm_return out
      | Some rq \<Rightarrow>
          hm_bind (of_enc (parse_sdo_request P rq ''sdo_read'' False)) (\<lambda>r.
          hm_seq (tick S (ve_rt env ''sdo_read''))
            (catch_sdo
              (hm_bind (upload S (sr_index r) (sr_sub r)) (\<lambda>buf.
               if ti_width (sr_type r) > 0 \<and> length buf \<noteq> ti_width (sr_type r) then hm_throw (width_mismatch r buf)
               else case ti_decode (sr_type r) buf of
                      Inl e \<Rightarrow> hm_throw e
                    | Inr d \<Rightarrow> hm_return (ps_emplace P ''sdo_read'' (mk_struct P (sdo_reply P d buf)) out)))
              (\<lambda>text code. hm_return (ps_emplace P ''sdo_read'' (mk_struct P (sdo_refusal P text code)) out)))))"

definition sdo_write_verb ::
    "('v, 'p) proto \<Rightarrow> 'w soem \<Rightarrow> 'w verb_env \<Rightarrow> 'p \<Rightarrow> 'p \<Rightarrow> (('q, 'w) ServoMotor, 'p) hm" where
  "sdo_write_verb P S env cmd out =
     (case find_attr P cmd ''sdo_write'' of
        None \<Rightarrow> hm_return out
      | Some rq \<Rightarrow>
          hm_bind (of_enc (parse_sdo_request P rq ''sdo_write'' True)) (\<lambda>r.
          hm_seq (tick S (ve_rt env ''sdo_write''))
         (hm_bind motor_is_moving (\<lambda>mv.
            if mv then hm_throw (Error ''sdo_write: the motor is moving; stop it first'')
            else
              hm_bind (of_enc (ti_encode (sr_type r) (sr_value r))) (\<lambda>bytes.
              hm_seq (tick S (ve_rt env ''sdo_write transfer''))
                (catch_sdo
                  (hm_seq (on_host (hm_lift (sdo_write S (sr_index r) (sr_sub r) bytes)))
                     (case ti_decode (sr_type r) bytes of
                        Inl e \<Rightarrow> hm_throw e
                      | Inr d \<Rightarrow> hm_return (ps_emplace P ''sdo_write'' (mk_struct P (sdo_reply P d bytes)) out)))
                  (\<lambda>text code. hm_return (ps_emplace P ''sdo_write'' (mk_struct P (sdo_refusal P text code)) out))))))))"

fun hm_chain :: "('p \<Rightarrow> ('s, 'p) hm) list \<Rightarrow> 'p \<Rightarrow> ('s, 'p) hm" where
  "hm_chain [] out = hm_return out"
| "hm_chain (f # fs) out = hm_bind (f out) (hm_chain fs)"

definition do_command ::
    "('v, 'p) proto \<Rightarrow> bool \<Rightarrow> 'w soem \<Rightarrow> 'q spsc_queue \<Rightarrow> 'w verb_env \<Rightarrow> 'p \<Rightarrow> (('q, 'w) ServoMotor, 'p) hm" where
  "do_command P dbg S Q env cmd =
     hm_bind (hm_chain
       [verb P S env ''fault_reset'' (push_verb P ''fault_reset'' (request_fault_reset Q)) cmd,
        verb P S env ''enable'' (push_verb P ''enable'' (enable Q)) cmd,
        verb P S env ''disable'' (push_verb P ''disable'' (disable Q)) cmd,
        verb P S env ''describe'' (describe_verb P) cmd,
        verb P S env ''status'' (status_verb P S) cmd,
        verb P S env ''get_motor_voltage'' (voltage_verb P S) cmd,
        verb P S env ''get_motor_current_actual_value'' (current_verb P S) cmd,
        verb P S env ''get_motor_drive_modes'' (modes_verb P S) cmd,
        verb P S env ''is_abs_enc_valid'' (encoder_verb P S) cmd,
        verb P S env ''home'' (home_verb P dbg S Q env) cmd,
        sdo_read_verb P S env cmd, sdo_write_verb P S env cmd] (ps_empty P))
       (\<lambda>out. if ps_is_empty P out then hm_throw (Error ''unknown do_command'') else hm_return out)"

subsection \<open>Construction and destruction\<close>

text \<open>
  The registered models: they differ in the device, and with it in the default motion mode. \<open>new_queue\<close>
  makes the command queue of a capacity.
\<close>

definition servo_models :: "(string \<times> ServoDevice) list" where
  "servo_models = [(''servo'', generic_device), (''a6-servo'', a6_device)]"

definition build_controller ::
    "('v, 'p) proto \<Rightarrow> ServoDevice \<Rightarrow> (nat \<Rightarrow> 'q) \<Rightarrow> 'p \<Rightarrow> 'q ServoController enc" where
  "build_controller P dev new_queue a =
     enc_bind (config_from_attrs P a (default_motion_mode dev)) (\<lambda>c. Some (ServoController_new dev new_queue c))"

definition motor_validate :: "('v, 'p) proto \<Rightarrow> ServoDevice \<Rightarrow> 'p \<Rightarrow> string list enc" where
  "motor_validate P dev a = enc_bind (parse_servo_config P a (default_motion_mode dev)) (\<lambda>_. Some (Inr []))"

text \<open>The validator and the constructor agree: what the one accepts the other builds.\<close>

lemma validator_agrees:
  "motor_validate P dev a = Some (Inr []) \<longleftrightarrow> (\<exists>s. build_controller P dev new_queue a = Some (Inr s))"
proof -
  have "\<exists>s. ServoController_new dev new_queue c = Inr s" if "config_from_attrs P a (default_motion_mode dev) = Some (Inr c)" for c
    using config_from_attrs_stages [OF that] by (auto simp: ServoController_new_def validated_def Let_def)
  then show ?thesis
    by (auto simp: motor_validate_def build_controller_def parse_servo_config_def enc_bind_Inr_iff)
qed

definition motor_new ::
    "bool \<Rightarrow> 'w soem \<Rightarrow> 'q spsc_queue \<Rightarrow> 'w verb_env \<Rightarrow> 'q ServoController \<Rightarrow> ((ec_error + unit) \<times> ('q, 'w) ServoMotor) option" where
  "motor_new dbg S Q env s =
     on_host (start dbg S Q (ve_host env)) \<lparr>controller = host_new s, abs_enc_mode_known = False, abs_enc_mode = Fin 0\<rparr>"

definition motor_close :: "'w soem \<Rightarrow> rt_env list \<Rightarrow> (('q, 'w) ServoMotor, unit) hm" where
  "motor_close S join = on_host (stop S join)"


subsection \<open>How the calls compute\<close>

lemma hm_return_apply [simp]: "hm_return y s = Some (Inr y, s)"
  by (simp add: hm_return_def)

lemma hm_throw_apply [simp]: "hm_throw e s = Some (Inl e, s)"
  by (simp add: hm_throw_def)

lemma tick_apply [simp]: "tick S es x = Some (Inr (), x\<lparr>controller := run_rt S es (controller x)\<rparr>)"
  by (simp add: tick_def on_host_def)

lemma motor_is_moving_apply [simp]: "motor_is_moving x = Some (Inr (is_moving (mctl x)), x)"
  by (simp add: motor_is_moving_def)

lemma of_enc_iff: "of_enc e s = Some (r, t) \<longleftrightarrow> e = Some r \<and> t = s"
  by (auto simp: of_enc_def split: option.splits)

lemma on_host_lift [simp]:
  "on_host (hm_lift m) x = Some (fst (m (controller x)), x\<lparr>controller := snd (m (controller x))\<rparr>)"
  by (cases "m (controller x)") (simp add: on_host_def)

lemma hm_bind_Some [simp]: "m s = Some (Inr y, t) \<Longrightarrow> hm_bind m f s = f y t"
  by (simp add: hm_bind_def)

lemma hm_seq_Some [simp]: "m s = Some (Inr y, t) \<Longrightarrow> hm_seq m k s = k t"
  by (simp add: hm_seq_def)

lemma run_rt_Nil [simp]: "run_rt S [] h = h"
  by (simp add: run_rt_def option.map_ident)

lemma catch_sdo_state:
  assumes "catch_sdo m (\<lambda>text code. hm_return (f text code)) s = Some (r, u)"
  shows "\<exists>r'. m s = Some (r', u)"
proof -
  have "(case e of SdoError text code \<Rightarrow> hm_return (f text code) | _ \<Rightarrow> hm_throw e) t = Some (r, u) \<Longrightarrow> t = u" for e t
    by (cases e) auto
  then show ?thesis using assms by (auto simp: catch_sdo_def hm_catch_iff)
qed

lemma download_state:
  assumes "hm_seq (on_host (hm_lift w)) (case d of Inl e \<Rightarrow> hm_throw e | Inr y \<Rightarrow> hm_return (g y)) s = Some (r, u)"
  shows "u = s\<lparr>controller := snd (w (controller s))\<rparr>"
  using assms by (auto simp: hm_seq_iff split: sum.splits)

text \<open>The requests that the parser lets through to a write.\<close>

lemma parse_sdo_write:
  assumes "parse_sdo_request P v key True = Some (Inr r)"
  shows "0x2000 \<le> sr_index r \<and> sr_index r \<le> 0x5FFF \<or> sr_index r = 0x1010"
proof -
  have "\<not> ((sr_index r < 0x2000 \<or> sr_index r > 0x5FFF) \<and> sr_index r \<noteq> 0x1010)"
    using assms
    by (auto simp: parse_sdo_request_def Let_def enc_bind_Inr_iff split: option.splits sum.splits if_splits)
  then show ?thesis by auto
qed

subsection \<open>The fence around raw writes\<close>



text \<open>A vendor write on a running motor.\<close>

definition demo_write :: pval where
  "demo_write = PStruct [(''index'', PNum (Fin 0x2031)), (''type'', PStr ''u16''), (''value'', PNum (Fin 1))]"

definition demo_verb_env :: "ec_errort list verb_env" where
  "demo_verb_env = \<lparr>ve_host = demo_host_env, ve_waits = [], ve_rt = (\<lambda>_. [])\<rparr>"

definition demo_servo :: "(Command list, ec_errort list) ServoMotor" where
  "demo_servo = \<lparr>controller = demo_run_host, abs_enc_mode_known = False, abs_enc_mode = Fin 0\<rparr>"

lemma to_integer_number:
  "int64_min \<le> n \<Longrightarrow> n \<le> int64_max \<Longrightarrow>
   to_integer \<lparr>in_number = Some (Fin (real_of_int n)), in_text = None\<rparr> = Some (Inr n)"
  by (simp add: to_integer_def)

lemma small_uint_u16:
  assumes "pv_num P v = Some (Fin (real_of_int n))" "0 \<le> n" "n < 65536"
  shows "small_uint P v k ''u16'' = Some (Inr (word_of_int n))"
proof -
  have "to_integer \<lparr>in_number = Some (Fin (real_of_int n)), in_text = None\<rparr> = Some (Inr n)"
    using assms by (intro to_integer_number) (simp_all add: int64_min_def int64_max_def)
  moreover have "uint (word_of_int n :: u16) = n"
    using assms by (simp add: uint_word_of_int_eq take_bit_int_eq_self)
  moreover have "load_le (store_le [0, 0] (word_of_int n :: u16)) = (word_of_int n :: u16)"
    by (rule load_store_le) auto
  ultimately show ?thesis
    using assms
    by (simp add: small_uint_def find_type_def kTypes_def input_of_def enc_bind_def encode_int_def decode_int_def
        type_min_def type_max_def numeral_2_eq_2 cast_u_def cast_int_def dtrunc_def
        del: of_int_uint)
qed

lemma demo_write_parsed:
  "\<exists>q. parse_sdo_request json demo_write ''sdo_write'' True = Some (Inr q) \<and>
     (\<exists>bs. ti_encode (sr_type q) (sr_value q) = Some (Inr bs))"
proof -
  have "small_uint json (PNum (Fin 0x2031)) ''index'' ''u16'' = Some (Inr (word_of_int 0x2031))"
    by (rule small_uint_u16) (simp_all add: json_def)
  moreover have "to_integer \<lparr>in_number = Some (Fin 1), in_text = None\<rparr> = Some (Inr 1)"
    using to_integer_number [of 1] by (simp add: int64_min_def int64_max_def)
  ultimately show ?thesis
    by (simp add: parse_sdo_request_def demo_write_def json_def opt_attr_def find_attr_def find_type_def kTypes_def
        enc_bind_def input_of_def encode_int_def type_min_def type_max_def)
qed


lemma catch_sdo_None [simp]: "catch_sdo m (\<lambda>text code. hm_return (f text code)) s = None \<longleftrightarrow> m s = None"
proof -
  have "(case e of SdoError text code \<Rightarrow> hm_return (f text code) | _ \<Rightarrow> hm_throw e) t \<noteq> None" for e t
    by (cases e) auto
  then show ?thesis by (auto simp: catch_sdo_def hm_catch_def split: option.splits prod.splits sum.splits)
qed



subsection \<open>What the status reports\<close>

lemma find_attr_emplace:
  "proto_laws P \<Longrightarrow> find_attr P (ps_emplace P k v s) k' =
     (if k' = k \<and> find_attr P s k = None then Some v else find_attr P s k')"
  by (simp add: proto_laws_def find_attr_def)

lemma find_attr_assign:
  "proto_laws P \<Longrightarrow> find_attr P (ps_assign P k v s) k' = (if k' = k then Some v else find_attr P s k')"
  by (simp add: proto_laws_def find_attr_def)

lemma find_attr_empty: "proto_laws P \<Longrightarrow> find_attr P (ps_empty P) k = None"
  by (simp add: proto_laws_def find_attr_def)

lemma pv_mk:
  "proto_laws P \<Longrightarrow> pv_bool P (mk_bool P b) = Some b" "proto_laws P \<Longrightarrow> pv_num P (mk_num P d) = Some d"
  "proto_laws P \<Longrightarrow> pv_str P (mk_str P t) = Some t" "proto_laws P \<Longrightarrow> pv_struct P (mk_struct P s) = Some s"
  by (simp_all add: proto_laws_def)

lemmas proto_simps = find_attr_emplace find_attr_assign find_attr_empty pv_mk

lemma encoder_reply_valid:
  "proto_laws P \<Longrightarrow> flag P (encoder_reply P enc s why mode out) ''valid'' \<longleftrightarrow>
     why = [] \<and> deq mode (ae_equals enc) \<and> drive_fault_code (pub s) \<notin> set (ae_invalid_codes enc)"
  by (simp add: encoder_reply_def Let_def flag_def proto_simps)

lemma upload_ctl: "upload S i sub x = Some (r, x1) \<Longrightarrow> mctl x1 = mctl x"
  by (auto simp: upload_def hm_bind_iff mctl_def sdo_read_def)

lemma encoder_mode_ctl:
  assumes "encoder_mode S enc x = Some (r, x1)"
  shows "mctl x1 = mctl x"
proof -
  obtain z x2 where u: "upload S (ae_index enc) (ae_sub enc) x = Some (z, x2)"
    using assms by (auto simp: encoder_mode_def hm_bind_iff)
  then have "mctl x1 = mctl x2"
    using assms
    by (cases z) (auto simp: encoder_mode_def hm_bind_def hm_seq_def Let_def mctl_def split: option.splits sum.splits)
  with upload_ctl [OF u] show ?thesis by simp
qed

text \<open>The encoder vouches for the position: it is declared, reachable, in its retaining mode, and no lost-reference code is up.\<close>

definition encoder_vouches :: "'w soem \<Rightarrow> ('q, 'w) ServoMotor \<Rightarrow> bool" where
  "encoder_vouches S x \<longleftrightarrow>
     (let enc = absolute_encoder (sv_config (mctl x))
      in ae_index enc \<noteq> 0 \<and> \<not> is_disconnected (mctl x) \<and>
         drive_fault_code (pub (mctl x)) \<notin> set (ae_invalid_codes enc) \<and>
         (if abs_enc_mode_known x then deq (abs_enc_mode x) (ae_equals enc)
          else \<exists>m x1. encoder_mode S enc x = Some (Inr m, x1) \<and> deq m (ae_equals enc)))"

lemma encoder_status_result:
  assumes "proto_laws P" "absolute_encoder_status P S x = Some (r, x')"
  shows "\<exists>st. r = Inr st \<and> (flag P st ''valid'' \<longleftrightarrow> encoder_vouches S x)"
proof -
  define enc where "enc = absolute_encoder (sv_config (mctl x))"
  define out where "out = ps_emplace P ''valid'' (mk_bool P False) (ps_empty P)"
  note d = absolute_encoder_status_def Let_def enc_def [symmetric] out_def [symmetric] encoder_vouches_def
  have no: "\<not> flag P (ps_emplace P ''reason'' v out) ''valid''" for v
    using assms(1) by (simp add: out_def flag_def proto_simps)
  consider "ae_index enc = 0 \<or> is_disconnected (mctl x)" | "ae_index enc \<noteq> 0" "\<not> is_disconnected (mctl x)" "abs_enc_mode_known x"
    | (read) "ae_index enc \<noteq> 0" "\<not> is_disconnected (mctl x)" "\<not> abs_enc_mode_known x" by blast
  then show ?thesis
  proof cases
    case 1
    then show ?thesis using assms(2) no by (auto simp: d hm_seq_def hm_bind_def split: if_splits)
  next
    case 2
    then have "r = Inr (encoder_reply P enc (mctl x) [] (abs_enc_mode x) out)" using assms(2) by (auto simp: d)
    then show ?thesis using 2 assms(1) by (auto simp: d encoder_reply_valid)
  next
    case read
    then obtain z x1 where z: "encoder_mode S enc x = Some (z, x1)"
      using assms(2) by (auto simp: d hm_catch_def hm_bind_def split: option.splits prod.splits)
    with read show ?thesis
      using assms encoder_mode_ctl [OF z]
      by (cases z) (auto simp: d hm_catch_def hm_bind_def encoder_reply_valid)
  qed
qed

lemma status_homing_flag:
  assumes "proto_laws P"
  shows "flag P (status_homing P s ran_home absolute (status_head P s)) ''homed'' \<longleftrightarrow> ran_home \<or> absolute"
proof -
  have "find_attr P (status_head P s) ''homed'' = None"
    using assms by (simp add: status_head_def Let_def proto_simps)
  with assms show ?thesis by (simp add: status_homing_def Let_def flag_def proto_simps)
qed

lemma get_status_homed:
  assumes "proto_laws P" "get_status P S x = Some (r, x')"
  shows "\<exists>st. r = Inr st \<and> (flag P st ''homed'' \<longleftrightarrow> homed (pub (mctl x)) \<or> encoder_vouches S x)"
proof (cases "homed (pub (mctl x))")
  case True
  then show ?thesis
    using assms by (auto simp: get_status_def Let_def hm_bind_def status_homing_flag)
next
  case False
  then obtain z x1 where z: "absolute_encoder_status P S x = Some (z, x1)"
    using assms(2) by (auto simp: get_status_def Let_def hm_bind_def split: option.splits prod.splits)
  then obtain st where st: "z = Inr st" "flag P st ''valid'' \<longleftrightarrow> encoder_vouches S x"
    using encoder_status_result [OF assms(1)] by blast
  with z False show ?thesis
    using assms by (auto simp: get_status_def Let_def hm_bind_def status_homing_flag)
qed

lemma encoder_status_ctl:
  assumes "absolute_encoder_status P S x = Some (r, x')"
  shows "mctl x' = mctl x"
proof (cases "ae_index (absolute_encoder (sv_config (mctl x))) = 0 \<or> is_disconnected (mctl x) \<or> abs_enc_mode_known x")
  case True
  then show ?thesis
    using assms by (auto simp: absolute_encoder_status_def Let_def hm_seq_def hm_bind_def mctl_def split: if_splits)
next
  case False
  then obtain z x1 where z: "encoder_mode S (absolute_encoder (sv_config (mctl x))) x = Some (z, x1)"
    using assms by (auto simp: absolute_encoder_status_def Let_def hm_catch_def hm_bind_def split: option.splits prod.splits)
  with False assms have "x' = x1"
    by (cases z) (auto simp: absolute_encoder_status_def Let_def hm_catch_def hm_bind_def)
  with encoder_mode_ctl [OF z] show ?thesis by simp
qed

lemma get_status_ctl:
  assumes "get_status P S x = Some (r, x')"
  shows "mctl x' = mctl x"
proof (cases "homed (pub (mctl x))")
  case True
  then show ?thesis using assms by (auto simp: get_status_def Let_def hm_bind_def)
next
  case False
  then obtain z x1 where z: "absolute_encoder_status P S x = Some (z, x1)"
    using assms by (auto simp: get_status_def Let_def hm_bind_def split: option.splits prod.splits)
  with False assms have "x' = x1" by (cases z) (auto simp: get_status_def Let_def hm_bind_def)
  with encoder_status_ctl [OF z] show ?thesis by simp
qed


definition demo_homed :: "(Command list, ec_errort list) ServoMotor" where
  "demo_homed = \<lparr>controller = host_new ((demo_controller LOperational)\<lparr>pub := ControllerState_init\<lparr>homed := True\<rparr>\<rparr>),
     abs_enc_mode_known = False, abs_enc_mode = Fin 0\<rparr>"



subsection \<open>How a blocking move ends\<close>

lemma go_to_result:
  assumes "go_to_allowed rpm s"
  shows "\<exists>s'. go_to Q rpm pos s = (Inr (next_generation s + 1), s') \<and> pub s' = pub s"
proof -
  have "\<not> degraded s" "\<not> estop_engaged s" "isfinite rpm" "\<not> dle rpm (Fin 0)" "\<not> motion_slot_busy s"
    "refuse_mode_switch_while_moving ''go_to'' PositionCommand s = Inr ()"
    using assms finite_positive [of rpm] by (auto simp: go_to_allowed_def)
  then show ?thesis by (simp add: go_to_def submit_move_cases Let_def push_command_def split_beta)
qed

lemma await_move_pass_outcome:
  assumes "await_move_pass g s = (Some r, s')"
  shows "(r = Inr () \<and> s' = s \<and> (completed_generation (pub s) \<ge> g \<or> active_generation (pub s) > g))
    \<or> (\<exists>e. r = Inl e \<and> s' = release_motion_slot g s)"
  using assms by (auto simp: await_move_pass_def await_move_poll_def split: if_splits move_verdict.splits)

lemma await_move_outcome:
  assumes "await_move S ws g h = Some (r, h')"
  shows "(r = Inr () \<and> (completed_generation (pub (ctl h')) \<ge> g \<or> active_generation (pub (ctl h')) > g))
    \<or> (\<exists>e. r = Inl e) \<and> (motion_slot (ctl h') = 0 \<or> motion_slot (ctl h') \<noteq> g)"
  using assms
proof (induction S ws g h rule: await_move.induct)
  case (1 S g h)
  then show ?case
    by (auto simp: release_motion_slot_def split: prod.splits option.splits if_splits dest!: await_move_pass_outcome)
next
  case (2 S es ws g h)
  then show ?case
    by (auto simp: release_motion_slot_def split: prod.splits option.splits if_splits dest!: await_move_pass_outcome)
qed

text \<open>
  C8. How a blocking move ends. A \<^verbatim>\<open>go_to\<close> that returns was completed, or a newer move has taken its place:
  the generation that it submitted is completed or passed. One that throws failed in the recovery of the
  bus, or was refused before anything was queued, or its move ended badly, and then it does not keep the
  motion slot: later moves are not blocked.
\<close>
theorem blocking_move_ends:
  assumes "ServoController_go_to dbg S Q env waits rpm pos h = Some (r, h')"
  shows "(\<exists>e. maybe_recover_bus dbg S Q env h = Some (Inl e, h') \<and> r = Inl e) \<or>
    (\<exists>h1 s e. maybe_recover_bus dbg S Q env h = Some (Inr (), h1) \<and> go_to Q rpm pos (ctl h1) = (Inl e, s) \<and> r = Inl e) \<or>
    (\<exists>h1 s g. maybe_recover_bus dbg S Q env h = Some (Inr (), h1) \<and> go_to Q rpm pos (ctl h1) = (Inr g, s) \<and>
       (case r of
          Inr _ \<Rightarrow> completed_generation (pub (ctl h')) \<ge> g \<or> active_generation (pub (ctl h')) > g
        | Inl e \<Rightarrow> motion_slot (ctl h') = 0 \<or> motion_slot (ctl h') \<noteq> g))"
proof -
  consider (recovery) e where "maybe_recover_bus dbg S Q env h = Some (Inl e, h')" "r = Inl e"
    | (goes) h1 where "maybe_recover_bus dbg S Q env h = Some (Inr (), h1)"
        "hm_bind (on_ctl (go_to Q rpm pos)) (await_move S waits) h1 = Some (r, h')"
    using assms by (auto simp: ServoController_go_to_def hm_seq_iff)
  then show ?thesis
  proof cases
    case recovery
    then show ?thesis by blast
  next
    case goes
    obtain x s where x: "go_to Q rpm pos (ctl h1) = (x, s)" by fastforce
    show ?thesis
    proof (cases x)
      case (Inl e)
      with goes x show ?thesis by (auto simp: hm_bind_def on_ctl_def)
    next
      case (Inr g)
      with goes(2) x have "await_move S waits g (upd_ctl (\<lambda>_. s) h1) = Some (r, h')"
        by (simp add: hm_bind_def on_ctl_def)
      with await_move_outcome [OF this] goes(1) x Inr show ?thesis by (cases r) auto
    qed
  qed
qed

definition demo_ready :: "(Command list, ec_errort list) ServoHost" where
  "demo_ready = host_new ((demo_controller LOperational)\<lparr>pub := ControllerState_init\<lparr>completed_generation := 5\<rparr>\<rparr>)"

theorem blocking_move_ends_witness:
  "\<exists>h'. ServoController_go_to False demo_soem (list_queue 4) demo_host_env [] (Fin 60) (Fin 2) demo_ready = Some (Inr (), h')
     \<and> (completed_generation (pub (ctl h')) \<ge> 1 \<or> active_generation (pub (ctl h')) > 1)"
proof -
  have ctl: "ctl demo_ready = (demo_controller LOperational)\<lparr>pub := ControllerState_init\<lparr>completed_generation := 5\<rparr>\<rparr>"
    by (simp add: demo_ready_def host_new_def ctl_def)
  have allowed: "go_to_allowed (Fin 60) (ctl demo_ready)"
    by (simp add: ctl go_to_allowed_def estop_engaged_def refuse_mode_switch_while_moving_def motion_slot_busy_def
        ControllerState_init_def demo_controller_def ServoController_init_def ServoFields_init_def)
  have "next_generation (ctl demo_ready) = 0" by (simp add: ctl demo_controller_def ServoController_init_def)
  with go_to_result [OF allowed, of "list_queue 4" "Fin 2"] obtain s where
    s: "go_to (list_queue 4) (Fin 60) (Fin 2) (ctl demo_ready) = (Inr 1, s)" "pub s = pub (ctl demo_ready)"
    by auto
  have rec: "maybe_recover_bus False demo_soem (list_queue 4) demo_host_env demo_ready = Some (Inr (), demo_ready)"
    by (simp add: maybe_recover_bus_def ctl demo_controller_def ServoController_init_def)
  have "await_move_pass 1 s = (Some (Inr ()), s)"
    by (simp add: await_move_pass_def await_move_poll_def s(2) ctl)
  moreover have "ctl (upd_ctl (\<lambda>_. s) demo_ready) = s" by (simp add: demo_ready_def host_new_def upd_ctl_def ctl_def)
  ultimately have "\<exists>h'. ServoController_go_to False demo_soem (list_queue 4) demo_host_env [] (Fin 60) (Fin 2) demo_ready
      = Some (Inr (), h')"
    by (simp add: ServoController_go_to_def hm_seq_def hm_bind_def on_ctl_def rec s(1))
  then obtain h' where h': "ServoController_go_to False demo_soem (list_queue 4) demo_host_env [] (Fin 60) (Fin 2) demo_ready
      = Some (Inr (), h')" ..
  from blocking_move_ends [OF h'] rec s(1) h' show ?thesis by auto
qed

end
