(* ===== verification/GantryAxis.thy ===== *)
theory GantryAxis
  imports ProtoAttrs
begin

text \<open>
  The gantry component, \<^verbatim>\<open>src/src/viam/module/gantry_axis.hpp\<close> and \<^verbatim>\<open>gantry_axis.cpp\<close>: one linear axis on
  top of a motor. The motor is a dependency the SDK hands over; only its API is known here, as a record
  of its calls on a state \<open>'m\<close>. The kinematics file is an input. Diagnostic texts are abridged.
\<close>

subsection \<open>The motor's API\<close>

text \<open>Every call may throw; the exception of a remote call carries a text.\<close>

record ('m, 'p) motor =
  mo_do_command :: "'p \<Rightarrow> ('m, 'p) em"
  mo_go_to :: "double \<Rightarrow> double \<Rightarrow> ('m, unit) em"
  mo_get_position :: "('m, double) em"
  mo_is_moving :: "('m, bool) em"
  mo_stop :: "('m, unit) em"

subsection \<open>Attributes\<close>

record Attributes =
  ga_motor :: string
  length_mm :: double
  mm_per_rev :: double
  mm_per_sec :: double
  travel_positive :: bool
  kinematics :: "byte list"

record Axis =
  attrs_of :: Attributes
  home_revs :: double

definition parse_direction :: "('v, 'p) proto \<Rightarrow> 'p \<Rightarrow> ec_error + bool" where
  "parse_direction P a =
     (case find_attr P a ''travel_direction'' of
        None \<Rightarrow> Inr True
      | Some v \<Rightarrow>
          (case pv_str P v of
             Some d \<Rightarrow> if d = ''negative'' \<or> d = ''positive'' then Inr (d = ''positive'')
                       else Inl (Error ''config attribute travel_direction must be negative or positive'')
           | None \<Rightarrow> Inl (Error ''config attribute travel_direction must be negative or positive'')))"

text \<open>\<open>file\<close> is the content of a readable file; a missing and an empty one are refused.\<close>

definition read_kinematics_file :: "(string \<Rightarrow> byte list option) \<Rightarrow> string \<Rightarrow> ec_error + byte list" where
  "read_kinematics_file file path =
     (case file path of
        Some (b # bs) \<Rightarrow> Inr (b # bs)
      | _ \<Rightarrow> Inl (Error (''config attribute kinematics_file: '' @ quote path @ '' is missing or empty'')))"

definition parse_kinematics :: "('v, 'p) proto \<Rightarrow> (string \<Rightarrow> byte list option) \<Rightarrow> 'p \<Rightarrow> ec_error + byte list" where
  "parse_kinematics P file a =
     sum_bind (opt_attr P (pv_str P) a ''kinematics_file'')
       (\<lambda>path. case path of None \<Rightarrow> Inr [] | Some p \<Rightarrow> read_kinematics_file file p)"

definition parse :: "('v, 'p) proto \<Rightarrow> (string \<Rightarrow> byte list option) \<Rightarrow> 'p \<Rightarrow> ec_error + Attributes" where
  "parse P file a =
     (case (case find_attr P a ''motor'' of None \<Rightarrow> None | Some v \<Rightarrow> pv_str P v) of
        None \<Rightarrow> Inl (missing ''motor'')
      | Some [] \<Rightarrow> Inl (missing ''motor'')
      | Some (c # cs) \<Rightarrow>
          sum_bind (opt_num P a ''length_mm'' (Fin 0)) (\<lambda>len.
          sum_bind (opt_num P a ''mm_per_rev'' (Fin 0)) (\<lambda>mpr.
          if \<not> dlt (Fin 0) len then Inl (Error ''config attribute length_mm must be positive'')
          else if \<not> dlt (Fin 0) mpr then Inl (Error ''config attribute mm_per_rev must be positive'')
          else
            sum_bind (opt_num P a ''gantry_mm_per_sec'' (Fin 0)) (\<lambda>mps.
            if dlt mps (Fin 0) then Inl (Error ''config attribute gantry_mm_per_sec must be >= 0'')
            else
              sum_bind (parse_direction P a) (\<lambda>dir.
              sum_bind (parse_kinematics P file a) (\<lambda>kin.
              Inr \<lparr>ga_motor = c # cs, length_mm = len, mm_per_rev = mpr, mm_per_sec = mps, travel_positive = dir,
                   kinematics = kin\<rparr>))))))"

definition validate_gantry :: "('v, 'p) proto \<Rightarrow> (string \<Rightarrow> byte list option) \<Rightarrow> 'p \<Rightarrow> ec_error + string list" where
  "validate_gantry P file a = sum_bind (parse P file a) (\<lambda>att. Inr [ga_motor att])"

subsection \<open>Conversions\<close>

definition dadd :: "double \<Rightarrow> double \<Rightarrow> double" where
  "dadd a b = (case (a, b) of
      (NaN, _) \<Rightarrow> NaN | (_, NaN) \<Rightarrow> NaN
    | (Fin x, Fin y) \<Rightarrow> Fin (x + y)
    | (Fin _, i) \<Rightarrow> i | (i, Fin _) \<Rightarrow> i
    | (i, j) \<Rightarrow> if i = j then i else NaN)"

definition axis_sign :: "Axis \<Rightarrow> double" where
  "axis_sign g = (if travel_positive (attrs_of g) then Fin 1 else Fin (- 1))"

definition mm_to_revs :: "Axis \<Rightarrow> double \<Rightarrow> double" where
  "mm_to_revs g mm = dadd (home_revs g) (ddiv (dmul (axis_sign g) mm) (mm_per_rev (attrs_of g)))"

definition revs_to_mm :: "Axis \<Rightarrow> double \<Rightarrow> double" where
  "revs_to_mm g revs = dmul (dmul (axis_sign g) (dadd revs (dneg (home_revs g)))) (mm_per_rev (attrs_of g))"

subsection \<open>The component\<close>

definition one_flag :: "('v, 'p) proto \<Rightarrow> string \<Rightarrow> 'p" where
  "one_flag P key = ps_emplace P key (mk_bool P True) (ps_empty P)"

text \<open>
  \<open>deps\<close> are the resources of the dependencies by short name, \<open>None\<close> for one that is not a motor; the
  last one with the configured name is taken.
\<close>

definition find_motor :: "string \<Rightarrow> (string \<times> ('m, 'p) motor option) list \<Rightarrow> ('m, 'p) motor option" where
  "find_motor name deps = fold (\<lambda>(n, r) found. if n = name then r else found) deps None"

definition described :: "('v, 'p) proto \<Rightarrow> 'p \<Rightarrow> bool" where
  "described P reply =
     (case nested P reply ''describe'' of
        None \<Rightarrow> False
      | Some d \<Rightarrow> (case find_attr P d ''driver'' of None \<Rightarrow> False | Some v \<Rightarrow> pv_str P v = Some ''viam:ethercat'')
                  \<and> flag P d ''homing'')"

definition configure_gantry ::
    "('v, 'p) proto \<Rightarrow> (string \<Rightarrow> byte list option) \<Rightarrow> (string \<times> ('m, 'p) motor option) list \<Rightarrow> 'p
     \<Rightarrow> ('m, Axis \<times> ('m, 'p) motor) em" where
  "configure_gantry P file deps a =
     (case parse P file a of
        Inl e \<Rightarrow> em_throw e
      | Inr att \<Rightarrow>
          (case find_motor (ga_motor att) deps of
             None \<Rightarrow> em_throw (Error (''gantry: dependency '' @ quote (ga_motor att) @ '' is missing or is not a motor''))
           | Some mo \<Rightarrow>
               em_bind (em_catch (mo_do_command mo (one_flag P ''describe''))
                          (\<lambda>e. em_throw (Error (''gantry: motor '' @ quote (ga_motor att) @ '' does not answer the describe do_command''))))
                 (\<lambda>reply.
                   if described P reply then em_return (\<lparr>attrs_of = att, home_revs = Fin 0\<rparr>, mo)
                   else em_throw (Error (''gantry: motor '' @ quote (ga_motor att) @ '' is not a viam:ethercat servo with homing support'')))))"

definition motor_status :: "('v, 'p) proto \<Rightarrow> ('m, 'p) motor \<Rightarrow> ('m, 'p) em" where
  "motor_status P mo =
     em_bind (mo_do_command mo (one_flag P ''status''))
       (\<lambda>reply. case nested P reply ''status'' of
          None \<Rightarrow> em_throw (Error ''gantry: the motor returned no status'') | Some st \<Rightarrow> em_return st)"

definition gantry_homed :: "('v, 'p) proto \<Rightarrow> ('m, 'p) motor \<Rightarrow> ('m, bool) em" where
  "gantry_homed P mo = em_bind (motor_status P mo) (\<lambda>st. em_return (flag P st ''homed''))"

definition get_position :: "('v, 'p) proto \<Rightarrow> ('m, 'p) motor \<Rightarrow> Axis \<Rightarrow> ('m, double list) em" where
  "get_position P mo g =
     em_bind (gantry_homed P mo) (\<lambda>hd.
     if \<not> hd then em_throw (Error ''gantry: position is unknown until the axis is homed -- call home()'')
     else em_bind (mo_get_position mo) (\<lambda>r. em_return [revs_to_mm g r]))"

definition get_lengths :: "Axis \<Rightarrow> double list" where
  "get_lengths g = [length_mm (attrs_of g)]"

record movement_coordinate =
  position_mm :: double
  speed_mm_per_sec :: double

definition move_to_position ::
    "('v, 'p) proto \<Rightarrow> ('m, 'p) motor \<Rightarrow> Axis \<Rightarrow> movement_coordinate list \<Rightarrow> ('m, unit) em" where
  "move_to_position P mo g coordinates =
     (case coordinates of
        [c] \<Rightarrow>
          em_bind (gantry_homed P mo) (\<lambda>hd.
          if \<not> hd then em_throw (Error ''gantry: home the axis before moving it -- call home()'')
          else if \<not> isfinite (position_mm c) \<or> dlt (position_mm c) (Fin 0) \<or> dlt (length_mm (attrs_of g)) (position_mm c)
          then em_throw (Error ''gantry: the position is outside the axis'')
          else
            let speed = (if dlt (Fin 0) (speed_mm_per_sec c) then speed_mm_per_sec c else mm_per_sec (attrs_of g))
            in if \<not> dlt (Fin 0) speed then em_throw (Error ''gantry: no speed given and no gantry_mm_per_sec configured'')
               else mo_go_to mo (dmul (ddiv speed (mm_per_rev (attrs_of g))) (Fin 60)) (mm_to_revs g (position_mm c)))
      | _ \<Rightarrow> em_throw (Error ''gantry: this axis takes exactly one coordinate''))"

text \<open>The state of the axis is returned with the answer.\<close>

definition gantry_home :: "('v, 'p) proto \<Rightarrow> ('m, 'p) motor \<Rightarrow> Axis \<Rightarrow> ('m, bool \<times> Axis) em" where
  "gantry_home P mo g =
     em_bind (mo_do_command mo (one_flag P ''home'')) (\<lambda>reply.
     case nested P reply ''home'' of
       None \<Rightarrow> em_return (False, g)
     | Some hm \<Rightarrow>
         if \<not> flag P hm ''homed'' then em_return (False, g)
         else case opt_num P hm ''revolutions'' (Fin 0) of
                Inl e \<Rightarrow> em_throw e
              | Inr r \<Rightarrow> em_return (True, g\<lparr>home_revs := r\<rparr>))"

definition gantry_status :: "('v, 'p) proto \<Rightarrow> ('m, 'p) motor \<Rightarrow> Axis \<Rightarrow> ('m, 'p) em" where
  "gantry_status P mo g =
     em_bind (motor_status P mo) (\<lambda>st.
     let st1 = ps_emplace P ''length_mm'' (mk_num P (length_mm (attrs_of g))) st
     in if flag P st1 ''homed''
        then em_bind (mo_get_position mo) (\<lambda>r. em_return (ps_emplace P ''position_mm'' (mk_num P (revs_to_mm g r)) st1))
        else em_return st1)"

definition gantry_stop :: "('m, 'p) motor \<Rightarrow> ('m, unit) em" where
  "gantry_stop mo = em_catch (mo_stop mo) (\<lambda>_. em_return ())"

definition gantry_do_command :: "('m, 'p) motor \<Rightarrow> 'p \<Rightarrow> ('m, 'p) em" where
  "gantry_do_command mo cmd = mo_do_command mo cmd"

definition get_kinematics :: "Axis \<Rightarrow> byte list option" where
  "get_kinematics g = (if kinematics (attrs_of g) = [] then None else Some (kinematics (attrs_of g)))"


text \<open>The SDK has nothing to place for a single axis; the motor answers for the movement.\<close>

definition gantry_is_moving :: "('m, 'p) motor \<Rightarrow> ('m, bool) em" where
  "gantry_is_moving mo = mo_is_moving mo"

subsection \<open>What the parser guarantees\<close>

lemma parse_Inr:
  assumes "parse P file a = Inr att"
  shows "ga_motor att \<noteq> []" and "dlt (Fin 0) (length_mm att)" and "dlt (Fin 0) (mm_per_rev att)"
    and "\<not> dlt (mm_per_sec att) (Fin 0)"
  using assms by (auto simp: parse_def sum_bind_Inr_iff split: option.splits list.splits if_splits)

subsection \<open>Millimetres and revolutions\<close>

lemma axis_sign_square: "axis_sign g = Fin 1 \<or> axis_sign g = Fin (- 1)"
  by (simp add: axis_sign_def)

lemma mm_to_revs_fin:
  assumes "home_revs g = Fin h" "mm_per_rev (attrs_of g) = Fin m" "0 < m"
  shows "\<exists>t. mm_to_revs g (Fin x) = Fin t \<and> revs_to_mm g (Fin t) = Fin x"
  using axis_sign_square [of g] assms
  by (auto simp: mm_to_revs_def revs_to_mm_def dadd_def)


lemma in_axis_fin:
  assumes "isfinite p" "\<not> dlt p (Fin 0)"
  obtains x where "p = Fin x" "0 \<le> x"
  using assms by (cases p) auto

lemma rpm_positive:
  assumes "dlt (Fin 0) speed" "0 < m"
  shows "dlt (Fin 0) (dmul (ddiv speed (Fin m)) (Fin 60))"
  using assms by (cases speed) auto

subsection \<open>Properties\<close>

text \<open>
  C14. On an axis whose attributes the parser accepted (finite conversion factor, finite reference), a
  move reaches the motor exactly when it has one coordinate, the motor reports the axis homed, the
  position lies within 0 and the axis length, and a positive speed is given or configured. The motor is
  then asked for a positive rpm and for the revolutions that read back as the requested millimetres.
  Every other request throws, and the motor has seen nothing but the status query.
\<close>
theorem gantry_move_in_axis:
  assumes "parse P file a = Inr (attrs_of g)" and "mm_per_rev (attrs_of g) = Fin m" and "home_revs g = Fin h"
  shows "if \<exists>c x s1. cs = [c] \<and> gantry_homed P mo s = (Inr True, s1) \<and> position_mm c = Fin x \<and> 0 \<le> x \<and>
              \<not> dlt (length_mm (attrs_of g)) (Fin x) \<and>
              (dlt (Fin 0) (speed_mm_per_sec c) \<or> dlt (Fin 0) (mm_per_sec (attrs_of g)))
         then \<exists>rpm t. dlt (Fin 0) rpm \<and> revs_to_mm g (Fin t) = position_mm (hd cs) \<and>
                move_to_position P mo g cs s = mo_go_to mo rpm (Fin t) (snd (gantry_homed P mo s))
         else \<exists>e. move_to_position P mo g cs s
                   = (Inl e, if length cs = 1 then snd (gantry_homed P mo s) else s)"
  (is "if ?ok then _ else _")
proof -
  have m: "0 < m"
    using parse_Inr(3) [OF assms(1)] assms(2) by simp
  show ?thesis
  proof (cases ?ok)
    case True
    then obtain c x s1 where c: "cs = [c]" "gantry_homed P mo s = (Inr True, s1)" "position_mm c = Fin x" "0 \<le> x"
      "\<not> dlt (length_mm (attrs_of g)) (Fin x)"
      "dlt (Fin 0) (speed_mm_per_sec c) \<or> dlt (Fin 0) (mm_per_sec (attrs_of g))"
      by blast
    obtain t where t: "mm_to_revs g (Fin x) = Fin t" "revs_to_mm g (Fin t) = Fin x"
      using mm_to_revs_fin [OF assms(3) assms(2) m] by blast
    show ?thesis
      using True c t rpm_positive [OF _ m] assms(2)
      by (auto simp: move_to_position_def em_bind_apply Let_def)
  next
    case False
    then show ?thesis
      by (auto simp: move_to_position_def em_bind_apply Let_def elim!: in_axis_fin
               split: list.split prod.split sum.split)
  qed
qed


text \<open>An axis of half a metre on a motor that logs the targets it is given and reports itself homed.\<close>

definition demo_gantry_attrs :: "(string \<times> pval) list" where
  "demo_gantry_attrs =
     [(''motor'', PStr ''m''), (''length_mm'', PNum (Fin 500)), (''mm_per_rev'', PNum (Fin 10)),
      (''gantry_mm_per_sec'', PNum (Fin 20)), (''travel_direction'', PStr ''negative'')]"

definition demo_axis :: Axis where
  "demo_axis = \<lparr>attrs_of = \<lparr>ga_motor = ''m'', length_mm = Fin 500, mm_per_rev = Fin 10, mm_per_sec = Fin 20,
                           travel_positive = False, kinematics = []\<rparr>, home_revs = Fin 2\<rparr>"

definition demo_motor :: "((double \<times> double) list, (string \<times> pval) list) motor" where
  "demo_motor =
     \<lparr>mo_do_command = (\<lambda>_. em_return [(''status'', PStruct [(''homed'', PBool True)])]),
      mo_go_to = (\<lambda>rpm r. em_modify (\<lambda>s. (rpm, r) # s)), mo_get_position = em_return (Fin 0),
      mo_is_moving = em_return False, mo_stop = em_return ()\<rparr>"

lemma demo_gantry_homed: "gantry_homed json demo_motor s = (Inr True, s)"
  by (simp add: gantry_homed_def motor_status_def demo_motor_def one_flag_def json_def nested_def find_attr_def
      flag_def em_bind_apply)

lemma demo_gantry_parse: "parse json (\<lambda>_. None) demo_gantry_attrs = Inr (attrs_of demo_axis)"
  by (simp add: parse_def demo_gantry_attrs_def demo_axis_def json_def find_attr_def opt_num_def opt_attr_def
      value_or_def sum_bind_def parse_direction_def parse_kinematics_def)

theorem gantry_move_in_axis_witness:
  "parse json (\<lambda>_. None) demo_gantry_attrs = Inr (attrs_of demo_axis) \<and>
   mm_per_rev (attrs_of demo_axis) = Fin 10 \<and> home_revs demo_axis = Fin 2 \<and>
   (\<exists>rpm t. dlt (Fin 0) rpm \<and> revs_to_mm demo_axis (Fin t) = Fin 250 \<and>
      move_to_position json demo_motor demo_axis [\<lparr>position_mm = Fin 250, speed_mm_per_sec = Fin 0\<rparr>] []
        = mo_go_to demo_motor rpm (Fin t) [])"
proof -
  have a: "mm_per_rev (attrs_of demo_axis) = Fin 10" "home_revs demo_axis = Fin 2"
    by (simp_all add: demo_axis_def)
  have ok: "\<exists>c x s1. [\<lparr>position_mm = Fin 250, speed_mm_per_sec = Fin 0\<rparr>] = [c] \<and>
              gantry_homed json demo_motor [] = (Inr True, s1) \<and> position_mm c = Fin x \<and> 0 \<le> x \<and>
              \<not> dlt (length_mm (attrs_of demo_axis)) (Fin x) \<and>
              (dlt (Fin 0) (speed_mm_per_sec c) \<or> dlt (Fin 0) (mm_per_sec (attrs_of demo_axis)))"
    by (simp add: demo_gantry_homed demo_axis_def)
  show ?thesis
    using gantry_move_in_axis [OF demo_gantry_parse a, where mo = demo_motor and s = "[]"
        and cs = "[\<lparr>position_mm = Fin 250, speed_mm_per_sec = Fin 0\<rparr>]"] ok a demo_gantry_parse
    by (simp add: demo_gantry_homed)
qed

text \<open>
  The homing reply becomes the axis' zero: after a homing run that ended at \<open>r\<close> revolutions the position
  \<open>r\<close> reads 0 mm, and a run that failed or answered nothing leaves the reference.
\<close>

lemma gantry_home_answer:
  assumes "gantry_home P mo g s = (Inr (ok, g'), s')"
  shows "if ok then \<exists>r. g' = g\<lparr>home_revs := r\<rparr> else g' = g"
proof -
  obtain reply where "mo_do_command mo (one_flag P ''home'') s = (Inr reply, s')"
    using assms by (auto simp: gantry_home_def em_bind_apply Let_def
                         split: prod.splits sum.splits option.splits if_splits)
  then show ?thesis
    using assms by (auto simp: gantry_home_def em_bind_apply split: option.splits if_splits sum.splits)
qed

lemma gantry_home_zero:
  assumes "gantry_home P mo g s = (Inr (ok, g'), s')" and "mm_per_rev (attrs_of g) = Fin m"
  shows "attrs_of g' = attrs_of g" and "\<not> ok \<Longrightarrow> g' = g"
    and "ok \<Longrightarrow> home_revs g' = Fin r \<Longrightarrow> revs_to_mm g' (Fin r) = Fin 0"
  using gantry_home_answer [OF assms(1)] assms(2) axis_sign_square [of g']
  by (auto simp: revs_to_mm_def dadd_def split: if_splits)

subsection \<open>What the gantry relies on\<close>

text \<open>
  The contract between the gantry and the motor below it, beyond the plain motor API: the motor identifies
  itself as a driver with homing, and answers a homing command that it accepts with a verdict and a
  position. With these a gantry whose attributes parse can be configured, and its own code adds no failure
  to a homing run.
\<close>

locale homing_motor =
  fixes P :: "('v, 'p) proto" and mo :: "('m, 'p) motor"
  assumes describes: "proto_laws P \<Longrightarrow>
      \<exists>reply s'. mo_do_command mo (one_flag P ''describe'') s = (Inr reply, s') \<and> described P reply"
    and answers_home: "proto_laws P \<Longrightarrow> mo_do_command mo (one_flag P ''home'') s = (Inr reply, s') \<Longrightarrow>
      \<exists>h r. nested P reply ''home'' = Some h \<and> opt_num P h ''revolutions'' (Fin 0) = Inr r"
begin

lemma configures:
  assumes "proto_laws P" "parse P file a = Inr att" "find_motor (ga_motor att) deps = Some mo"
  shows "\<exists>s'. configure_gantry P file deps a s = (Inr (\<lparr>attrs_of = att, home_revs = Fin 0\<rparr>, mo), s')"
  using describes [OF assms(1), of s] assms(2,3) by (auto simp: configure_gantry_def em_bind_apply em_catch_apply)

lemma home_fails_only_below:
  assumes "proto_laws P" "gantry_home P mo g s = (Inl e, s')"
  shows "mo_do_command mo (one_flag P ''home'') s = (Inl e, s')"
proof (cases "mo_do_command mo (one_flag P ''home'') s")
  case (Pair r s1)
  then show ?thesis
    using assms answers_home [OF assms(1), of s _ s1]
    by (cases r) (auto simp: gantry_home_def em_bind_apply split: if_splits)
qed

end

end
