(* ===== verification/Log.thy ===== *)
theory Log
  imports Prelude
begin

text \<open>
  The diagnostic log, \<^verbatim>\<open>src/src/ethercat/log.hpp\<close> and \<^verbatim>\<open>log.cpp\<close>, and how a motor installs itself as its
  destination (\<^verbatim>\<open>SdkLogSink\<close>, \<^verbatim>\<open>to_library_level\<close>, \<^verbatim>\<open>install_logging\<close> of \<^verbatim>\<open>servo_motor.cpp\<close>). The two globals are
  a state, what is written is recorded in it, and \<open>'k\<close> identifies sinks. Lines are shorter than
  \<^verbatim>\<open>2^31\<close> characters (the length is cast to \<^verbatim>\<open>int\<close>). The last part takes the operations apart at their
  atomic loads and stores, with several motors in one process.
\<close>

subsection \<open>State\<close>

datatype Level = LvError | LvWarn | LvInfo | LvDebug

record Origin =
  or_file :: string
  or_line :: nat

datatype 'k log_line = ToSink 'k Level string string Origin | ToStderr string

record 'k LogState =
  g_level :: Level
  g_sink :: "'k option"
  emitted :: "'k log_line list"

definition LogState_init :: "'k LogState" where
  "LogState_init = \<lparr>g_level = LvInfo, g_sink = None, emitted = []\<rparr>"

subsection \<open>Operations\<close>

fun level_code :: "Level \<Rightarrow> nat" where
  "level_code LvError = 0"
| "level_code LvWarn = 1"
| "level_code LvInfo = 2"
| "level_code LvDebug = 3"

fun to_string_level :: "Level \<Rightarrow> string" where
  "to_string_level LvError = ''ERROR''"
| "to_string_level LvWarn = ''WARN''"
| "to_string_level LvInfo = ''INFO''"
| "to_string_level LvDebug = ''DEBUG''"

definition set_level :: "Level \<Rightarrow> 'k LogState \<Rightarrow> 'k LogState" where
  "set_level l st = st\<lparr>g_level := l\<rparr>"

definition enabled :: "Level \<Rightarrow> 'k LogState \<Rightarrow> bool" where
  "enabled l st \<longleftrightarrow> level_code l \<le> level_code (g_level st)"

definition set_sink :: "'k option \<Rightarrow> 'k LogState \<Rightarrow> 'k LogState" where
  "set_sink k st = st\<lparr>g_sink := k\<rparr>"

text \<open>The compare-exchange of \<open>clear_sink\<close>, given what it loaded before.\<close>

definition clear_cas :: "'k option \<Rightarrow> 'k \<Rightarrow> 'k LogState \<Rightarrow> 'k LogState" where
  "clear_cas cur k st = (if cur = Some k \<and> g_sink st = cur then st\<lparr>g_sink := None\<rparr> else st)"

definition clear_sink :: "'k \<Rightarrow> 'k LogState \<Rightarrow> 'k LogState" where
  "clear_sink k st = clear_cas (g_sink st) k st"

text \<open>\<^verbatim>\<open>%.*s\<close> stops at a null character.\<close>

definition printed :: "string \<Rightarrow> string" where
  "printed t = takeWhile (\<lambda>c. c \<noteq> CHR 0x00) t"

definition stderr_line :: "Level \<Rightarrow> string \<Rightarrow> string \<Rightarrow> string" where
  "stderr_line l tag msg = ''[ethercat] '' @ to_string_level l @ '' '' @ printed tag @ '': '' @ printed msg @ [CHR 0x0A]"

definition log_write :: "Level \<Rightarrow> string \<Rightarrow> string \<Rightarrow> Origin \<Rightarrow> 'k LogState \<Rightarrow> 'k LogState" where
  "log_write l tag msg origin st =
     (if \<not> enabled l st then st
      else case g_sink st of
             Some k \<Rightarrow> st\<lparr>emitted := emitted st @ [ToSink k l tag msg origin]\<rparr>
           | None \<Rightarrow> st\<lparr>emitted := emitted st @ [ToStderr (stderr_line l tag msg)]\<rparr>)"

subsection \<open>The motor's sink\<close>

datatype sdk_level = SdkTrace | SdkDebug | SdkInfo | SdkWarn | SdkError | SdkFatal

fun to_sdk_level :: "Level \<Rightarrow> sdk_level" where
  "to_sdk_level LvDebug = SdkDebug"
| "to_sdk_level LvInfo = SdkInfo"
| "to_sdk_level LvWarn = SdkWarn"
| "to_sdk_level LvError = SdkError"

fun to_library_level :: "sdk_level \<Rightarrow> Level" where
  "to_library_level SdkTrace = LvDebug"
| "to_library_level SdkDebug = LvDebug"
| "to_library_level SdkInfo = LvInfo"
| "to_library_level SdkWarn = LvWarn"
| "to_library_level SdkError = LvError"
| "to_library_level SdkFatal = LvError"

text \<open>
  Forwarding to the SDK's logger, which is a parameter: it takes a line or throws (\<open>None\<close>), and then the
  line goes to stderr, marked.
\<close>

definition SdkLogSink_write ::
    "(sdk_level \<Rightarrow> string \<Rightarrow> Origin \<Rightarrow> 'l \<Rightarrow> 'l option) \<Rightarrow> Level \<Rightarrow> string \<Rightarrow> string \<Rightarrow> Origin \<Rightarrow> 'l \<times> string list \<Rightarrow> 'l \<times> string list" where
  "SdkLogSink_write logger l tag msg origin out =
     (case logger (to_sdk_level l) (tag @ '': '' @ msg) origin (fst out) of
        Some lg \<Rightarrow> (lg, snd out)
      | None \<Rightarrow> (fst out, snd out @ [''[ethercat] '' @ to_string_level l @ '' '' @ printed tag @ '': '' @ printed msg @
                                    '' (SDK logger unavailable)'' @ [CHR 0x0A]]))"

definition install_logging :: "sdk_level \<Rightarrow> 'k \<Rightarrow> 'k LogState \<Rightarrow> 'k LogState" where
  "install_logging l k st = set_sink (Some k) (set_level (to_library_level l) st)"

lemma level_round_trip: "to_library_level (to_sdk_level l) = l"
  by (cases l) simp_all

text \<open>Every line that passes the filter is delivered once, and an error always passes.\<close>

lemma log_write_delivers:
  "length (emitted (log_write l tag msg o1 st)) = length (emitted st) + (if enabled l st then 1 else 0)" "enabled LvError st"
  by (auto simp: log_write_def enabled_def split: option.splits)

subsection \<open>Several motors, one log\<close>

text \<open>
  The steps of motors that come and go and of threads that log: a motor installs its sink when it is
  built; when it goes it clears its sink in two atomic steps and is dead afterwards; a thread that logs
  first loads the sink and then calls it.
\<close>

record 'k process =
  sink :: "'k option"
  live :: "'k set"
  dead :: "'k set"
  clearing :: "'k \<rightharpoonup> 'k option"
  loaded :: "'k set"
  reached :: "'k set"

definition process_init :: "'k process" where
  "process_init = \<lparr>sink = None, live = {}, dead = {}, clearing = (\<lambda>_. None), loaded = {}, reached = {}\<rparr>"

inductive log_step :: "'k process \<Rightarrow> 'k process \<Rightarrow> bool" where
  ls_install: "k \<notin> live p \<Longrightarrow> k \<notin> dead p \<Longrightarrow> log_step p (p\<lparr>sink := Some k, live := insert k (live p)\<rparr>)"
| ls_clear_load: "k \<in> live p \<Longrightarrow> clearing p k = None \<Longrightarrow>
     log_step p (p\<lparr>clearing := (clearing p)(k \<mapsto> sink p)\<rparr>)"
| ls_clear_cas: "clearing p k = Some cur \<Longrightarrow>
     log_step p (p\<lparr>sink := (if cur = Some k \<and> sink p = cur then None else sink p),
                   live := live p - {k}, dead := insert k (dead p), clearing := (clearing p)(k := None)\<rparr>)"
| ls_write_load: "sink p = Some k \<Longrightarrow> log_step p (p\<lparr>loaded := insert k (loaded p)\<rparr>)"
| ls_write_call: "k \<in> loaded p \<Longrightarrow> log_step p (p\<lparr>loaded := loaded p - {k}, reached := insert k (reached p)\<rparr>)"

definition log_inv :: "'k process \<Rightarrow> bool" where
  "log_inv p \<longleftrightarrow> live p \<inter> dead p = {} \<and> set_option (sink p) \<subseteq> live p \<and>
     (\<forall>k cur. clearing p k = Some cur \<longrightarrow> k \<in> live p \<and> (sink p = Some k \<longrightarrow> cur = Some k))"

lemma log_step_inv: "log_step p q \<Longrightarrow> log_inv p \<Longrightarrow> log_inv q"
  by (induction rule: log_step.induct) (auto simp: log_inv_def split: if_splits)

lemma log_step_uninstall:
  assumes "log_step p q" "log_inv p" "sink p = Some k" "sink q = None"
  shows "k \<in> dead q \<and> k \<notin> dead p"
  using assms(1,3,4)
proof cases
  case (ls_clear_cas k' cur)
  with assms(3,4) have "k' = k" by (simp split: if_splits)
  with ls_clear_cas assms(2,3) show ?thesis by (auto simp: log_inv_def)
qed simp_all

lemma log_reachable_inv: "log_step\<^sup>*\<^sup>* process_init p \<Longrightarrow> log_inv p"
proof (induction rule: rtranclp_induct)
  case base
  show ?case by (simp add: log_inv_def process_init_def)
next
  case (step p q)
  then show ?case using log_step_inv by blast
qed


definition demo_process :: "nat process" where
  "demo_process = process_init\<lparr>sink := Some 1, live := {1}\<rparr>"

lemma demo_process_step: "log_step process_init demo_process"
  using ls_install [of "1 :: nat" process_init] by (simp add: demo_process_def process_init_def)


text \<open>
  What the sequence of steps does not exclude: a thread of another motor has loaded the sink, the sink's
  motor goes, and the thread calls it.
\<close>

lemma dead_motor_reached: "\<exists>p. log_step\<^sup>*\<^sup>* process_init p \<and> reached p \<inter> dead p = {1 :: nat}"
proof -
  let ?p1 = "demo_process\<lparr>loaded := {1}\<rparr>"
  let ?p2 = "?p1\<lparr>clearing := (clearing ?p1)(1 \<mapsto> Some 1)\<rparr>"
  let ?p3 = "?p2\<lparr>sink := None, live := {}, dead := {1}, clearing := (clearing ?p2)(1 := None)\<rparr>"
  let ?p4 = "?p3\<lparr>loaded := {}, reached := {1}\<rparr>"
  have d: "sink demo_process = Some 1" "live demo_process = {1}" "dead demo_process = {}" "clearing demo_process = (\<lambda>_. None)"
    "loaded demo_process = {}" "reached demo_process = {}"
    by (simp_all add: demo_process_def process_init_def)
  have "log_step demo_process ?p1" using ls_write_load [of demo_process 1] d by simp
  moreover have "log_step ?p1 ?p2" using ls_clear_load [of 1 ?p1] d by simp
  moreover have "log_step ?p2 ?p3" using ls_clear_cas [of ?p2 1 "Some 1"] d by simp
  moreover have "log_step ?p3 ?p4" using ls_write_call [of 1 ?p3] d by simp
  ultimately have "log_step\<^sup>*\<^sup>* process_init ?p4"
    using demo_process_step by (meson converse_rtranclp_into_rtranclp rtranclp.rtrancl_refl)
  then show ?thesis by (intro exI [of _ ?p4]) simp
qed

end
