(* ===== verification/Realtime.thy ===== *)
theory Realtime
  imports Prelude
begin

text \<open>
  Entering the real-time regime, \<^verbatim>\<open>src/src/ethercat/realtime.cpp\<close>. The operating system's calls are the
  parameter \<open>os\<close>, on a state \<open>'o\<close> (the calling thread and the process as the kernel sees them). What the
  code prints is a list of warnings, and the stack offsets it touches are returned, since that touching
  is its purpose. The booleans that the runner and the controller take as inputs are the results of
  \<open>setup\<close> and \<open>sched_fifo_available\<close>.
\<close>

record 'o os =
  mlockall :: "bool \<Rightarrow> bool \<Rightarrow> 'o \<Rightarrow> int \<times> 'o"
  mallopt_trim :: "int \<Rightarrow> 'o \<Rightarrow> 'o"
  mallopt_mmap_max :: "int \<Rightarrow> 'o \<Rightarrow> 'o"
  setschedparam_fifo :: "int \<Rightarrow> 'o \<Rightarrow> int \<times> 'o"
  with_thread :: "('o \<Rightarrow> bool \<times> 'o) \<Rightarrow> 'o \<Rightarrow> (bool \<times> 'o) option"

definition kPage :: nat where "kPage = 4096"

function touch_from :: "nat \<Rightarrow> nat \<Rightarrow> nat list" where
  "touch_from i bytes = (if i < bytes then i # touch_from (i + kPage) bytes else [])"
  by pat_completeness auto
termination by (relation "measure (\<lambda>(i, bytes). bytes - i)") (auto simp: kPage_def)

declare touch_from.simps [simp del]

definition prefault_stack :: "nat \<Rightarrow> nat list" where
  "prefault_stack bytes = (if bytes = 0 then [] else touch_from 0 bytes @ [bytes - 1])"

record 'o setup_result =
  fifo :: bool
  warnings :: "string list"
  touched :: "nat list"
  os_after :: 'o

definition not_locked :: string where
  "not_locked = ''[ethercat] WARNING: mlockall(MCL_CURRENT|MCL_FUTURE) failed''"

definition setup_rt :: "'o os \<Rightarrow> int \<Rightarrow> nat \<Rightarrow> 'o \<Rightarrow> 'o setup_result" where
  "setup_rt K prio prefault_bytes s =
     (let (locked, s1) = mlockall K True True s;
          s2 = mallopt_trim K (- 1) s1;
          s3 = mallopt_mmap_max K 0 s2;
          (r, s4) = setschedparam_fifo K prio s3
      in \<lparr>fifo = (r = 0), warnings = (if locked \<noteq> 0 then [not_locked] else []),
          touched = prefault_stack prefault_bytes, os_after = s4\<rparr>)"

definition lock_current :: "'o os \<Rightarrow> 'o \<Rightarrow> 'o" where
  "lock_current K s = snd (mlockall K True False s)"

text \<open>\<open>with_thread\<close> runs its argument on a new thread and joins it; \<open>None\<close> when none can be created.\<close>

definition sched_fifo_available :: "'o os \<Rightarrow> int \<Rightarrow> 'o \<Rightarrow> bool" where
  "sched_fifo_available K prio s =
     (case with_thread K (\<lambda>t. case setschedparam_fifo K prio t of (r, t') \<Rightarrow> (r = 0, t')) s of
        None \<Rightarrow> False | Some (ok, _) \<Rightarrow> ok)"

subsection \<open>What is touched\<close>

lemma touch_from_set: "set (touch_from i bytes) = {j. j < bytes \<and> (\<exists>k. j = i + k * kPage)}"
proof (induction i bytes rule: touch_from.induct)
  case (1 i bytes)
  show ?case
  proof (cases "i < bytes")
    case True
    have "j = i \<or> (\<exists>k. j = i + kPage + k * kPage) \<longleftrightarrow> (\<exists>k. j = i + k * kPage)" for j
      by (metis add.assoc add.commute add_cancel_left_right mult_Suc mult_is_0 not0_implies_Suc)
    then have "{j. j < bytes \<and> (\<exists>k. j = i + k * kPage)} = insert i {j. j < bytes \<and> (\<exists>k. j = i + kPage + k * kPage)}"
      using True by blast
    with 1 [OF True] True show ?thesis by (simp add: touch_from.simps [of i])
  next
    case False
    then show ?thesis by (auto simp: touch_from.simps [of i])
  qed
qed

text \<open>
  Every page of the span is touched, wherever the stack pointer stands: for any base address, the page of
  every byte of the span is the page of some touched byte. And nothing outside the span is touched.
\<close>

lemma prefault_in_span: "t \<in> set (prefault_stack bytes) \<Longrightarrow> t < bytes"
  by (auto simp: prefault_stack_def touch_from_set split: if_splits)

lemma prefault_covers:
  assumes "a < bytes"
  shows "\<exists>t \<in> set (prefault_stack bytes). (base + t) div kPage = (base + a) div kPage"
proof -
  define p where "p = a div kPage"
  have pos: "0 < kPage" by (simp add: kPage_def)
  have touched: "k * kPage < bytes \<Longrightarrow> k * kPage \<in> set (prefault_stack bytes)" for k
    by (auto simp: prefault_stack_def touch_from_set)
  have page: "(base + k * kPage) div kPage = base div kPage + k" for k
    using pos by simp
  have le: "p * kPage \<le> a" "a < (p + 1) * kPage"
    using dividend_less_div_times [OF pos, of a] by (simp_all add: p_def)
  have ge: "base div kPage + p \<le> (base + a) div kPage"
    using div_le_mono [of "base + p * kPage" "base + a" kPage] le(1) page [of p] by simp
  have le1: "t \<le> (p + 1) * kPage \<Longrightarrow> (base + t) div kPage \<le> base div kPage + (p + 1)" for t
    using div_le_mono [of "base + t" "base + (p + 1) * kPage" kPage] page [of "p + 1"] by simp
  show ?thesis
  proof (cases "(base + a) div kPage = base div kPage + p")
    case True
    then show ?thesis using touched [of p] le(1) assms page [of p] by auto
  next
    case False
    then have next_page: "(base + a) div kPage = base div kPage + (p + 1)"
      using ge le1 [of a] le(2) by simp
    show ?thesis
    proof (cases "(p + 1) * kPage < bytes")
      case True
      then show ?thesis using touched [of "p + 1"] page [of "p + 1"] next_page by metis
    next
      case last: False
      have "(base + a) div kPage \<le> (base + (bytes - 1)) div kPage" using assms by (intro div_le_mono) simp
      then have "(base + (bytes - 1)) div kPage = (base + a) div kPage"
        using le1 [of "bytes - 1"] last next_page by simp
      moreover have "bytes - 1 \<in> set (prefault_stack bytes)" using assms by (auto simp: prefault_stack_def)
      ultimately show ?thesis by blast
    qed
  qed
qed

text \<open>The verdict is the scheduler's alone: locking and pre-faulting are best effort.\<close>

lemma setup_verdict:
  "fifo (setup_rt K prio n s) \<longleftrightarrow>
     fst (setschedparam_fifo K prio (mallopt_mmap_max K 0 (mallopt_trim K (- 1) (snd (mlockall K True True s))))) = 0"
  by (simp add: setup_rt_def Let_def split: prod.split)

end
