(* ===== verification/Spec2Isabelle.thy ===== *)
theory Spec2Isabelle
  imports MotionSlot ServoMotor GantryAxis Log Realtime
begin

text \<open>
  A verification library for \<^verbatim>\<open>viam-ethercat\<close>: an EtherCAT master library, a CiA402 servo driver on top of
  it, and the motor and gantry components of a Viam module.

  \<^bold>\<open>The program.\<close> A real-time (RT) thread exchanges process data with the drives every cycle. The \<^emph>\<open>backend\<close>
  wraps the SOEM library; the \<^emph>\<open>master\<close> configures the bus (PDO maps, distributed clocks), brings it to OP and
  latches faults from the working counter; the \<^emph>\<open>runner\<close> owns the RT thread and calls the hooks of the
  attached controls; the \<^emph>\<open>servo controller\<close> is such a control: it decides the controlword of every cycle from
  its lifecycle, a motion mode and the commands that callers queue, and publishes what the callers read.
  Callers park until a move or a homing run ends. The owner thread starts, stops, reconfigures and recovers
  the controller. The \<^emph>\<open>motor\<close> forwards the Viam motor API to it and adds \<^verbatim>\<open>do_command\<close>; the \<^emph>\<open>gantry\<close> is one
  linear axis on top of a motor.

  \<^bold>\<open>Theories and sources\<close> (under \<^verbatim>\<open>src/src/\<close>).
  \<^item> \<open>Prelude\<close>: errors (\<^verbatim>\<open>ethercat/errors.hpp\<close>), throwing computations on a state (\<open>em\<close>), and the two
    interfaces that every cyclic component meets: \<open>cyclic_invariant\<close> (a step keeps an invariant) and
    \<open>cyclic_progress\<close> (a bound decreases, so the end is reached).
  \<^item> \<open>PdoBuffer\<close> (\<^verbatim>\<open>pdo_buffer.hpp\<close>, \<^verbatim>\<open>field.hpp\<close>), \<open>PdoMapping\<close>, \<open>Snapshot\<close> and \<open>CommandQueue\<close> (\<^verbatim>\<open>pdo_cache\<close>),
    \<open>Backend\<close> (\<^verbatim>\<open>soem_backend\<close>), \<open>Master\<close>, \<open>CycleContext\<close> and \<open>Runner\<close> (\<^verbatim>\<open>runner\<close>), \<open>ControlContract\<close> (what
    the runner keeps of any control), \<open>DcPacer\<close> (\<^verbatim>\<open>dc_sync.hpp\<close>, \<^verbatim>\<open>realtime.hpp\<close>), \<open>Realtime\<close>
    (\<^verbatim>\<open>realtime.cpp\<close>), \<open>Log\<close> (\<^verbatim>\<open>log\<close>), \<open>Cia402\<close>, \<open>Sequencer\<close> (\<^verbatim>\<open>cia402_sequencer.hpp\<close>): the directory
    \<^verbatim>\<open>ethercat/\<close>.
  \<^item> \<open>Units\<close> (\<^verbatim>\<open>ethercat/util.hpp\<close>, \<^verbatim>\<open>viam/lib/motion_profile\<close>), \<open>Trapezoid\<close> (\<^verbatim>\<open>trapezoid.hpp\<close> and the
    vendored profile it drives), \<open>MotionMode\<close>, \<open>ServoConfig\<close>, \<open>SdoCodec\<close>: \<^verbatim>\<open>viam/lib/\<close>.
  \<^item> \<^verbatim>\<open>viam/lib/servo_controller\<close>: \<open>ServoController\<close> (the state, the hooks of a cycle, the lifecycle),
    \<open>ServoWaiters\<close> (parked callers and their wake-ups), \<open>ServoLifecycle\<close> (what the lifecycle guarantees),
    \<open>ServoApi\<close> (the calls under the shared lock), \<open>MotionSlot\<close> (the claim of the motion slot, one atomic
    operation at a time), \<open>ServoHost\<close> (the owner: start, stop, reconfigure, bring-up with retries, recovery,
    SDO access), \<open>ServoHome\<close> (the homing call).
  \<^item> \<open>ProtoAttrs\<close>, \<open>ServoAttrs\<close> (the configuration parser), \<open>ServoMotor\<close> and \<open>GantryAxis\<close>:
    \<^verbatim>\<open>viam/module/\<close>. This theory composes the last two.

  \<^bold>\<open>How the code is represented.\<close> Classes are records, enums datatypes, one definition per method under
  its own name where HOL allows it. Fixed-width integers are words and wrap; \<^verbatim>\<open>int\<close> and \<^verbatim>\<open>size_t\<close> that cannot
  reach their limits are \<open>int\<close> and \<open>nat\<close>. A double is a real number, an infinity or NaN: comparisons and
  arithmetic treat the special values as IEEE does, rounding is idealised. Exceptions are values: \<open>em\<close>
  returns an error or a result with the state, and \<open>hm\<close> (\<open>ServoHost\<close>) can also yield \<open>None\<close>, for a call that
  does not return (a caller parked beyond the given wake-ups) or whose behaviour is undefined; the codec and
  the configuration parser use \<open>None\<close> for undefined conversions only.
  \<^item> \<^bold>\<open>Threads.\<close> One turn of the RT loop is a function (\<open>rt_cycle\<close>) with a program counter; a hook runs
    atomically with respect to callers. Where the code's claim rests on a finer grain, single atomic loads
    and stores interleave: the seqlock (\<open>Snapshot\<close>), the motion slot (\<open>MotionSlot\<close>) and the log's sink
    (\<open>Log\<close>), with sequentially consistent memory. Calls of the owner are given the RT cycles that happen
    while they wait (\<open>host_env\<close>, \<open>verb_env\<close>), so every theorem holds for all of them.
  \<^item> \<^bold>\<open>Parameters.\<close> SOEM is a record of its calls on a bus context (\<open>soem\<close>), \<^verbatim>\<open>boost::lockfree\<close>'s queue a
    record with the contract \<open>fifo_contract\<close> (satisfied by \<open>list_queue\<close>), the SDK's values a record with
    \<open>proto_laws\<close> (satisfied by \<open>json\<close>), the operating system's calls the record \<open>os\<close>; the clock, the
    scheduler's verdict and the kinematics file are inputs.
  \<^item> \<^bold>\<open>Bounds.\<close> Loops of the code are structural recursions or have a termination proof; the retries of
    the bring-up are bounded by \<open>kMaxBringupAttempts\<close>, its cycles by \<open>bringup_bound\<close>, the stopping
    window by its cycle count, a homing run by \<open>homing_bound\<close> and a shutdown ramp by \<open>ramp_bound\<close>. That these
    are enough is what the termination and liveness properties state: after that many cycles the loop has
    left the phase, for every sequence of inputs.

  \<^bold>\<open>What is shown.\<close>
  \<^item> \<^emph>\<open>Safety of motion\<close>: a fault ends the move and the drive is not driven on; the drive is energised only in
    the listed situations; enabling does not make the axis lunge; a set-point edge waits for the halt to
    settle; a commanded speed can be stopped within the stopping window; an axis that is not homed is not
    moved, and a move stays within it.
  \<^item> \<^emph>\<open>Callers\<close>: no wake-up is lost, one move is in flight, the first verdict on a move stands, every homing
    call cleans up after itself, and the effect of \<open>go_to\<close> is exact.
  \<^item> \<^emph>\<open>The loop\<close>: hooks are called in order, a stop reaches the stopped state, a bring-up has an outcome and
    reaches OP only after a held streak, the fault latch is exact.
  \<^item> \<^emph>\<open>The owner\<close>: recovery, reconfiguration and stop leave all or nothing.
  \<^item> \<^emph>\<open>Data\<close>: snapshots are consistent, fields and SDO payloads round-trip, resolved fields lie within the
    process image, PDO maps configure the drive as intended, an accepted configuration is usable, raw writes
    stay inside their fence.

  \<^bold>\<open>Interfaces\<close> are locales, each interpreted on the definitions of the code: \<open>cyclic_invariant\<close> and
  \<open>cyclic_progress\<close> (runner, bring-up, handshake, homing, ramp, pacer), \<open>control_invariant\<close> (what a control
  may rely on from the runner, for the servo controller), \<open>motion_mode\<close> (both modes and their sum),
  \<open>field_access\<close> and \<open>field_pair\<close> (each width), \<open>homing_motor\<close> (what the gantry asks of the motor).

  \<^bold>\<open>Not modelled\<close>: the process entry point and the SDK's registration tables (\<^verbatim>\<open>main.cpp\<close>), \<^verbatim>\<open>Runner::run\<close>
  (a blocking wait), the log calls inside the other components (nothing reads what they write), the unused
  timeout of \<^verbatim>\<open>sdo_read\<close>, memory orderings weaker than sequential consistency, and the rounding of doubles.
  Texts of diagnostics are kept where the program hands them out as data and abridged elsewhere.
\<close>


section \<open>The gantry on the servo motor\<close>

subsection \<open>A command with one key\<close>

lemma hm_bind_return [simp]: "hm_bind (hm_return y) f = f y" "hm_bind m hm_return = m"
  by (auto simp: fun_eq_iff hm_bind_def hm_return_def split: option.split prod.split sum.split)

lemma one_flag_simps:
  assumes "proto_laws P"
  shows "flag P (one_flag P k) k' \<longleftrightarrow> k' = k" "k' \<noteq> k \<Longrightarrow> find_attr P (one_flag P k) k' = None"
  using assms by (simp_all add: flag_def one_flag_def proto_simps)

lemma verb_one_flag:
  assumes "proto_laws P"
  shows "verb P S env k body (one_flag P k') =
     (if k = k' then \<lambda>out. hm_seq (tick S (ve_rt env k)) (body out) else hm_return)"
  by (auto simp: fun_eq_iff verb_def one_flag_simps [OF assms])

lemma emplace_not_empty: "proto_laws P \<Longrightarrow> \<not> ps_is_empty P (ps_emplace P k v (ps_empty P))"
  unfolding proto_laws_def by (metis option.distinct(1))

lemma hm_chain_skip: "hm_chain (hm_return # fs) = hm_chain fs" "hm_chain [] = hm_return"
  by (simp_all add: fun_eq_iff)

lemma sdo_verbs_skip:
  assumes "proto_laws P"
  shows "k \<noteq> ''sdo_read'' \<Longrightarrow> sdo_read_verb P S env (one_flag P k) = hm_return"
    and "k \<noteq> ''sdo_write'' \<Longrightarrow> sdo_write_verb P S env (one_flag P k) = hm_return"
  using assms by (auto simp: fun_eq_iff sdo_read_verb_def sdo_write_verb_def one_flag_simps)

lemmas one_key_simps = do_command_def verb_one_flag sdo_verbs_skip hm_chain_skip

lemma do_command_home:
  assumes "proto_laws P"
  shows "do_command P dbg S Q env (one_flag P ''home'') =
     hm_bind (hm_seq (tick S (ve_rt env ''home'')) (home_verb P dbg S Q env (ps_empty P)))
       (\<lambda>out. if ps_is_empty P out then hm_throw (Error ''unknown do_command'') else hm_return out)"
  using assms by (simp add: one_key_simps)

lemma do_command_describe:
  assumes "proto_laws P"
  shows "do_command P dbg S Q env (one_flag P ''describe'') x =
     Some (Inr (ps_emplace P ''describe'' (mk_struct P (describe_reply P)) (ps_empty P)),
           x\<lparr>controller := run_rt S (ve_rt env ''describe'') (controller x)\<rparr>)"
  using assms by (simp add: one_key_simps describe_verb_def hm_bind_def hm_seq_def emplace_not_empty)

text \<open>What the gantry asks of a motor at configuration, the servo motor answers.\<close>

lemma servo_is_described:
  "proto_laws P \<Longrightarrow> described P (ps_emplace P ''describe'' (mk_struct P (describe_reply P)) (ps_empty P))"
  by (simp add: described_def nested_def describe_reply_def flag_def proto_simps)

lemma home_command_outcome:
  assumes "proto_laws P"
  shows "do_command P dbg S Q env (one_flag P ''home'') x =
    (case home dbg S Q (ve_host env) (ve_waits env) (run_rt S (ve_rt env ''home'') (controller x)) of
       None \<Rightarrow> None
     | Some (Inl e, h) \<Rightarrow> Some (Inl e, x\<lparr>controller := h\<rparr>)
     | Some (Inr ok, h) \<Rightarrow>
         Some (Inr (ps_emplace P ''home'' (mk_struct P (home_reply P ok (ctl h))) (ps_empty P)), x\<lparr>controller := h\<rparr>))"
  using emplace_not_empty [OF assms]
  by (auto simp: do_command_home [OF assms] home_verb_def hm_bind_def hm_seq_def on_host_def mctl_def
           split: option.split prod.split sum.split)

lemma home_reply_read:
  assumes "proto_laws P"
  shows "flag P (home_reply P ok s) ''homed'' = ok" "opt_num P (home_reply P ok s) ''revolutions'' d = Inr (home_position_revs s)"
  using assms by (simp_all add: home_reply_def Let_def flag_def opt_num_def opt_attr_def value_or_def proto_simps)

lemma gantry_home_reply:
  assumes "proto_laws P"
  shows "gantry_home P (mo\<lparr>mo_do_command := \<lambda>_. em_return (ps_emplace P ''home'' (mk_struct P (home_reply P ok s')) (ps_empty P))\<rparr>) g s
     = (Inr (ok, if ok then g\<lparr>home_revs := home_position_revs s'\<rparr> else g), s)"
  using assms by (simp add: gantry_home_def em_bind_apply nested_def home_reply_read proto_simps)

lemma at_home_reads_zero:
  assumes "mm_per_rev (attrs_of g) = Fin m" "counts_per_rev (sv_config s) = Fin c" "gear_ratio (sv_config s) = Fin k"
    and "position_counts (pub s) - zero_offset_counts (pub s) = home_counts (pub s)"
  shows "revs_to_mm (g\<lparr>home_revs := home_position_revs s\<rparr>) (position_revs s) = Fin 0"
proof -
  have "\<exists>r. home_position_revs s = Fin r"
    using assms(2,3) by (cases "c = 0 \<or> k = 0") (auto simp: home_position_revs_def counts_to_revs_def Let_def double_of_i32_def)
  moreover have "position_revs s = home_position_revs s"
    using assms(4) by (simp add: position_revs_def home_position_revs_def)
  ultimately show ?thesis using assms(1) by (auto simp: revs_to_mm_def dadd_def axis_sign_def)
qed

text \<open>
  The servo motor as the motor of a gantry. A call that does not return, or whose behaviour is undefined,
  is an error of the call for the component above.
\<close>

definition answer :: "('s, 'a) hm \<Rightarrow> ('s, 'a) em" where
  "answer m x = (case m x of Some r \<Rightarrow> r | None \<Rightarrow> (Inl (Error ''no answer''), x))"

definition servo_as_motor ::
    "('v, 'p) proto \<Rightarrow> bool \<Rightarrow> 'w soem \<Rightarrow> 'q spsc_queue \<Rightarrow> 'w verb_env \<Rightarrow> (('q, 'w) ServoMotor, 'p) motor" where
  "servo_as_motor P dbg S Q env =
     \<lparr>mo_do_command = (\<lambda>cmd. answer (do_command P dbg S Q env cmd)),
      mo_go_to = (\<lambda>rpm pos. answer (motor_go_to dbg S Q env rpm pos)), mo_get_position = answer motor_get_position,
      mo_is_moving = answer motor_is_moving, mo_stop = answer (motor_stop Q)\<rparr>"

lemma nested_home_reply:
  "proto_laws P \<Longrightarrow> nested P (ps_emplace P ''home'' (mk_struct P h) (ps_empty P)) ''home'' = Some h"
  by (simp add: nested_def proto_simps)

lemma answer_Inr: "answer m x = (Inr y, x') \<Longrightarrow> m x = Some (Inr y, x')"
  by (auto simp: answer_def split: option.splits)

interpretation servo_gantry: homing_motor P "servo_as_motor P dbg S Q env" for P dbg S Q env
proof
  fix s
  assume "proto_laws P"
  then show "\<exists>reply s'. mo_do_command (servo_as_motor P dbg S Q env) (one_flag P ''describe'') s = (Inr reply, s') \<and> described P reply"
    by (simp add: servo_as_motor_def answer_def do_command_describe servo_is_described)
next
  fix s reply s'
  assume P: "proto_laws P"
    and "mo_do_command (servo_as_motor P dbg S Q env) (one_flag P ''home'') s = (Inr reply, s')"
  then have "do_command P dbg S Q env (one_flag P ''home'') s = Some (Inr reply, s')"
    by (auto simp: servo_as_motor_def dest: answer_Inr)
  then show "\<exists>h r. nested P reply ''home'' = Some h \<and> opt_num P h ''revolutions'' (Fin 0) = Inr r"
    by (auto simp: home_command_outcome [OF P] nested_home_reply [OF P] home_reply_read [OF P]
             split: option.splits prod.splits sum.splits)
qed

subsection \<open>Moves of an axis that is not homed\<close>

lemma do_command_status:
  assumes "proto_laws P"
  shows "do_command P dbg S Q env (one_flag P ''status'') =
     hm_bind (hm_seq (tick S (ve_rt env ''status'')) (status_verb P S (ps_empty P)))
       (\<lambda>out. if ps_is_empty P out then hm_throw (Error ''unknown do_command'') else hm_return out)"
  using assms by (simp add: one_key_simps)

lemma status_command_outcome:
  assumes "proto_laws P"
  shows "do_command P dbg S Q env (one_flag P ''status'') x =
    (case get_status P S (x\<lparr>controller := run_rt S (ve_rt env ''status'') (controller x)\<rparr>) of
       None \<Rightarrow> None
     | Some (Inl e, x1) \<Rightarrow> Some (Inl e, x1)
     | Some (Inr st, x1) \<Rightarrow> Some (Inr (ps_emplace P ''status'' (mk_struct P st) (ps_empty P)), x1))"
  using emplace_not_empty [OF assms]
  by (auto simp: do_command_status [OF assms] status_verb_def hm_bind_def hm_seq_def split: option.split prod.split sum.split)


definition demo_cold :: "(Command list, ec_errort list) ServoMotor" where
  "demo_cold = \<lparr>controller = host_new ((demo_controller LOperational)\<lparr>pub := ControllerState_init\<rparr>),
     abs_enc_mode_known = False, abs_enc_mode = Fin 0\<rparr>"

lemma home_needs_power:
  assumes "\<not> bus_lost (ctl h)" "\<not> powered (pub (ctl h))"
  shows "\<exists>e h'. home dbg S Q env waits h = Some (Inl e, h')"
proof -
  have "\<exists>e. home_begin (ctl h) = (Inl e, ctl h)"
    using assms(2) by (simp add: home_begin_def)
  then show ?thesis
    using assms(1) by (auto simp: home_def hm_seq_def hm_bind_def maybe_recover_bus_def on_ctl_def)
qed


text \<open>
  C9. A gantry on this driver does not move an axis whose position is unknown. If at the cycle of the status
  query no homing run of the session has succeeded and the absolute encoder does not vouch for the position,
  every move is refused and the controller is left as it is: no command is queued and no motion slot taken.
\<close>
theorem unhomed_gantry_refuses:
  assumes "proto_laws P" and "x0 = x\<lparr>controller := run_rt S (ve_rt env ''status'') (controller x)\<rparr>"
    and "\<not> homed (pub (mctl x0))" and "\<not> encoder_vouches S x0"
  shows "\<exists>e x'. move_to_position P (servo_as_motor P dbg S Q env) g cs x = (Inl e, x') \<and>
     (mctl x' = mctl x \<or> mctl x' = mctl x0)"
proof (cases "\<exists>c. cs = [c]")
  case True
  then obtain c where c: "cs = [c]" ..
  show ?thesis
  proof (cases "get_status P S x0")
    case None
    then show ?thesis
      using c by (simp add: move_to_position_def gantry_homed_def motor_status_def servo_as_motor_def answer_def
          em_bind_apply status_command_outcome [OF assms(1)] flip: assms(2))
  next
    case (Some z)
    obtain r x1 where z: "z = (r, x1)" by (cases z)
    with Some obtain st where "r = Inr st" "\<not> flag P st ''homed''"
      using get_status_homed [OF assms(1), of S x0 r x1] assms(3,4) by auto
    then show ?thesis
      using c Some z get_status_ctl [of P S x0 r x1] assms(1)
      by (simp add: move_to_position_def gantry_homed_def motor_status_def servo_as_motor_def answer_def
          em_bind_apply status_command_outcome [OF assms(1)] nested_def proto_simps flip: assms(2))
  qed
next
  case False
  then show ?thesis by (auto simp: move_to_position_def split: list.split)
qed

theorem unhomed_gantry_refuses_witness:
  "\<exists>e x'. move_to_position json (servo_as_motor json False demo_soem (list_queue 4) demo_verb_env) demo_axis
       [\<lparr>position_mm = Fin 250, speed_mm_per_sec = Fin 0\<rparr>] demo_cold = (Inl e, x') \<and> mctl x' = mctl demo_cold"
proof -
  have x0: "demo_cold = demo_cold\<lparr>controller := run_rt demo_soem (ve_rt demo_verb_env ''status'') (controller demo_cold)\<rparr>"
    by (simp add: demo_verb_env_def)
  have "\<not> homed (pub (mctl demo_cold))" "\<not> encoder_vouches demo_soem demo_cold"
    by (simp_all add: encoder_vouches_def mctl_def demo_cold_def host_new_def ctl_def demo_controller_def ControllerState_init_def
        ServoController_init_def demo_servo_config_def ServoConfig_default_def Let_def)
  then show ?thesis
    using unhomed_gantry_refuses [OF json_laws x0, where dbg = False and Q = "list_queue 4" and g = demo_axis
        and cs = "[\<lparr>position_mm = Fin 250, speed_mm_per_sec = Fin 0\<rparr>]"] by simp
qed

end
